(* ===== verification/Prelude.thy ===== *)
theory Prelude
  imports
    Main
    "HOL-Library.AList"
    "HOL-Library.List_Lexorder"
    "HOL-Library.Char_ord"
    "HOL-Library.Multiset"
begin

text \<open>
  Shared vocabulary of the declutter development: the names of the model's types, the
  Go runtime operations the sources use on strings (slicing and \<open>strings.Repeat\<close>, both of
  which panic on bad arguments), the lemma collections the component theories fill, and
  generic facts on association lists and lists. Go strings are byte strings; they are
  modelled as \<open>string\<close> (a list of 8-bit \<open>char\<close>s), so that \<open>len\<close> is \<open>length\<close> and
  Go's byte-wise string comparison is the lexicographic order of \<open>List_Lexorder\<close>.
\<close>

named_theorems fs_eval "rules that evaluate the file-system model on concrete states"
named_theorems plan_simps "rules that compute the category plan of a file handler"

type_synonym path = string
type_synonym name = string

subsection \<open>Go slicing and repetition\<close>

text \<open>
  \<open>s[lo:hi]\<close> on a Go string panics unless \<open>0 \<le> lo \<le> hi \<le> len(s)\<close>; \<open>None\<close> is that
  panic. \<open>strings.Repeat(s, n)\<close> panics for a negative count.
\<close>

definition go_slice :: "'a list \<Rightarrow> int \<Rightarrow> int \<Rightarrow> 'a list option" where
  "go_slice s lo hi =
     (if 0 \<le> lo \<and> lo \<le> hi \<and> hi \<le> int (length s)
      then Some (take (nat (hi - lo)) (drop (nat lo) s)) else None)"

definition go_repeat :: "'a list \<Rightarrow> int \<Rightarrow> 'a list option" where
  "go_repeat s n = (if n < 0 then None else Some (concat (replicate (nat n) s)))"

lemma go_slice_from_Some:
  "0 \<le> lo \<Longrightarrow> lo \<le> int (length s) \<Longrightarrow> go_slice s lo (int (length s)) = Some (drop (nat lo) s)"
  by (simp add: go_slice_def)

lemma go_slice_prefix_Some:
  "0 \<le> hi \<Longrightarrow> hi \<le> int (length s) \<Longrightarrow> go_slice s 0 hi = Some (take (nat hi) s)"
  by (simp add: go_slice_def)

lemma go_repeat_Some [simp]:
  "0 \<le> n \<Longrightarrow> go_repeat s n = Some (concat (replicate (nat n) s))"
  by (simp add: go_repeat_def)

lemma length_concat_replicate [simp]:
  "length (concat (replicate n s)) = n * length s"
  by (induction n) auto

subsection \<open>Association lists as maps\<close>

text \<open>
  The file system is an association list; its meaning is the map \<open>map_of\<close>. The library's
  conversions of \<open>AList.update\<close> and \<open>AList.delete\<close> into map updates carry every
  proof about it.
\<close>

declare AList.update_conv' [simp] AList.delete_conv' [simp]

lemma distinct_fst_update [simp]:
  "distinct (map fst al) \<Longrightarrow> distinct (map fst (AList.update k v al))"
  by (simp add: AList.distinct_update)

lemma distinct_fst_delete [simp]:
  "distinct (map fst al) \<Longrightarrow> distinct (map fst (AList.delete k al))"
  by (simp add: AList.distinct_delete)

lemma set_update_pairs:
  "(k', v') \<in> set (AList.update k v al) \<Longrightarrow> (k', v') = (k, v) \<or> (k', v') \<in> set al"
  by (induction al) (auto split: if_splits)

lemma set_delete_pairs:
  "(k', v') \<in> set (AList.delete k al) \<Longrightarrow> (k', v') \<in> set al \<and> k' \<noteq> k"
  by (induction al) (auto split: if_splits)

subsection \<open>Lists\<close>

lemma filter_concat_map_cong:
  "(\<And>x. x \<in> set xs \<Longrightarrow> filter P (f x) = g x) \<Longrightarrow>
   filter P (concat (map f xs)) = concat (map g xs)"
  by (induction xs) auto

lemma mset_filter_disj:
  "(\<And>x. \<not> (P x \<and> Q x)) \<Longrightarrow>
   mset (filter P xs) + mset (filter Q xs) = mset (filter (\<lambda>x. P x \<or> Q x) xs)"
  by (induction xs) auto

text \<open>Splitting a list by the value of a key function over distinct keys.\<close>

lemma mset_concat_filter_partition:
  "distinct cs \<Longrightarrow>
   mset (concat (map (\<lambda>c. filter (\<lambda>x. g x = c) xs) cs)) = mset (filter (\<lambda>x. g x \<in> set cs) xs)"
proof (induction cs)
  case Nil
  then show ?case by simp
next
  case (Cons c cs)
  then have "mset (filter (\<lambda>x. g x = c) xs) + mset (filter (\<lambda>x. g x \<in> set cs) xs) =
             mset (filter (\<lambda>x. g x = c \<or> g x \<in> set cs) xs)"
    by (intro mset_filter_disj) auto
  with Cons show ?case by simp
qed

lemma mset_concat_map_append:
  "mset (concat (map f xs) @ concat (map g xs)) = mset (concat (map (\<lambda>x. f x @ g x) xs))"
  by (induction xs) (simp_all add: ac_simps)

lemma mset_filter_split:
  "mset (filter (\<lambda>x. \<not> P x) xs @ filter P xs) = mset xs"
  by (induction xs) auto

lemma distinct_map_Cons_neq: "distinct (map f (x # xs)) \<Longrightarrow> y \<in> set xs \<Longrightarrow> f y \<noteq> f x"
  by (auto simp: image_iff)

lemma distinct_filter_append_neq:
  "distinct (map g (filter P (xs @ ys))) \<Longrightarrow> x \<in> set xs \<Longrightarrow> P x \<Longrightarrow> y \<in> set ys \<Longrightarrow> P y \<Longrightarrow>
   g x \<noteq> g y"
  by (auto simp: image_iff)

end
