(* ===== verification/Flags.thy ===== *)
theory Flags
  imports Prelude
begin

text \<open>
  The flag sets of the commands, as the \<open>pflag\<close> library that cobra uses keeps and parses
  them, for the two flag kinds the program declares (booleans and string arrays); and
  cobra's positional-argument check \<open>ExactArgs\<close>. Both are library code the program calls:
  they are modelled from the libraries' documented behaviour.
\<close>

subsection \<open>Flags\<close>

datatype flag_value = BoolFlag bool | StringArrayFlag "string list"

record pflag =
  pf_value :: flag_value
  pf_changed :: bool

type_synonym flag_set = "(string \<times> pflag) list"

text \<open>Errors of flag parsing and argument validation, as cobra returns them.\<close>

datatype cli_error =
    UnknownFlag string
  | UnknownShorthand char string
  | BadFlagSyntax string
  | FlagNeedsArgument string
  | InvalidArgument string string
  | ArgCount nat nat
  | UnknownCommand string
  | HelpRequested

definition new_flag :: "flag_value \<Rightarrow> pflag" where
  "new_flag v = \<lparr>pf_value = v, pf_changed = False\<rparr>"

text \<open>\<open>strconv.ParseBool\<close>.\<close>

definition parse_bool :: "string \<Rightarrow> bool option" where
  "parse_bool s =
     (if s \<in> set [''1'', ''t'', ''T'', ''TRUE'', ''true'', ''True''] then Some True
      else if s \<in> set [''0'', ''f'', ''F'', ''FALSE'', ''false'', ''False''] then Some False
      else None)"

text \<open>\<open>Flag.Value.Set\<close>: a boolean parses its text; a string array replaces its default
  by the first value given and appends every later one.\<close>

definition flag_set_value :: "string \<Rightarrow> pflag \<Rightarrow> string \<Rightarrow> cli_error + pflag" where
  "flag_set_value name f v =
     (case pf_value f of
        BoolFlag _ \<Rightarrow>
          (case parse_bool v of
             None \<Rightarrow> Inl (InvalidArgument v name)
           | Some b \<Rightarrow> Inr (f\<lparr>pf_value := BoolFlag b, pf_changed := True\<rparr>))
      | StringArrayFlag xs \<Rightarrow>
          Inr (f\<lparr>pf_value := StringArrayFlag (if pf_changed f then xs @ [v] else [v]), pf_changed := True\<rparr>))"

definition is_bool_flag :: "pflag \<Rightarrow> bool" where
  "is_bool_flag f = (case pf_value f of BoolFlag _ \<Rightarrow> True | _ \<Rightarrow> False)"

text \<open>
  \<open>FlagSet.Parse\<close> with interspersed arguments: an argument that does not start with a dash
  (or is a lone dash) is positional; \<open>--\<close> ends the flags; \<open>--name=value\<close> sets a flag;
  \<open>--name\<close> sets a boolean to true and takes the next argument as the value of any other
  flag. The only shorthand the commands have is \<open>-h\<close> for \<open>--help\<close>.
\<close>

fun parse_args :: "flag_set \<Rightarrow> string list \<Rightarrow> string list \<Rightarrow> cli_error + (flag_set \<times> string list)" where
  "parse_args fs [] acc = Inr (fs, acc)"
| "parse_args fs (s # rest) acc =
     (if length s \<le> 1 \<or> hd s \<noteq> CHR ''-'' then parse_args fs rest (acc @ [s])
      else if s = ''--'' then Inr (fs, acc @ rest)
      else if s ! 1 = CHR ''-'' then
        (let name_val = drop 2 s in
         if hd name_val = CHR ''-'' \<or> hd name_val = CHR ''='' then Inl (BadFlagSyntax s)
         else
           (let name = takeWhile (\<lambda>c. c \<noteq> CHR ''='') name_val;
                value = drop 1 (dropWhile (\<lambda>c. c \<noteq> CHR ''='') name_val)
            in case map_of fs name of
                 None \<Rightarrow> Inl (UnknownFlag name)
               | Some f \<Rightarrow>
                   (if CHR ''='' \<in> set name_val then
                      (case flag_set_value name f value of
                         Inl e \<Rightarrow> Inl e
                       | Inr f' \<Rightarrow> parse_args (AList.update name f' fs) rest acc)
                    else if is_bool_flag f then
                      (case flag_set_value name f ''true'' of
                         Inl e \<Rightarrow> Inl e
                       | Inr f' \<Rightarrow> parse_args (AList.update name f' fs) rest acc)
                    else
                      (case rest of
                         [] \<Rightarrow> Inl (FlagNeedsArgument s)
                       | v # rest' \<Rightarrow>
                           (case flag_set_value name f v of
                              Inl e \<Rightarrow> Inl e
                            | Inr f' \<Rightarrow> parse_args (AList.update name f' fs) rest' acc)))))
      else if s = ''-h'' then
        (case map_of fs ''help'' of
           None \<Rightarrow> Inl (UnknownShorthand CHR ''h'' s)
         | Some f \<Rightarrow> parse_args (AList.update ''help'' (f\<lparr>pf_value := BoolFlag True, pf_changed := True\<rparr>) fs) rest acc)
      else Inl (UnknownShorthand (s ! 1) s))"

text \<open>\<open>GetBool\<close> and \<open>GetStringArray\<close>: the value of a declared flag of that type.\<close>

definition get_bool :: "flag_set \<Rightarrow> string \<Rightarrow> string + bool" where
  "get_bool fs name =
     (case map_of fs name of
        None \<Rightarrow> Inl (''flag accessed but not defined: '' @ name)
      | Some f \<Rightarrow> (case pf_value f of BoolFlag b \<Rightarrow> Inr b
                  | _ \<Rightarrow> Inl (''trying to get bool value of flag of type stringArray'')))"

definition get_string_array :: "flag_set \<Rightarrow> string \<Rightarrow> string + string list" where
  "get_string_array fs name =
     (case map_of fs name of
        None \<Rightarrow> Inl (''flag accessed but not defined: '' @ name)
      | Some f \<Rightarrow> (case pf_value f of StringArrayFlag xs \<Rightarrow> Inr xs
                  | _ \<Rightarrow> Inl (''trying to get stringArray value of flag of type bool'')))"

text \<open>\<open>cobra.ExactArgs(n)\<close>.\<close>

definition exact_args :: "nat \<Rightarrow> string list \<Rightarrow> cli_error option" where
  "exact_args n args = (if length args \<noteq> n then Some (ArgCount n (length args)) else None)"

subsection \<open>Parsing the exclusion list\<close>

lemma parse_args_exclude:
  "map_of fs ''exclude'' = Some f \<Longrightarrow> pf_value f = StringArrayFlag xs \<Longrightarrow>
   parse_args fs (concat (map (\<lambda>e. [''--exclude'', e]) es) @ rest) acc =
     parse_args (if es = [] then fs
                 else AList.update ''exclude''
                   (f\<lparr>pf_value := StringArrayFlag ((if pf_changed f then xs else []) @ es), pf_changed := True\<rparr>) fs)
       rest acc"
proof (induction es arbitrary: fs f xs)
  case Nil
  then show ?case by simp
next
  case (Cons e es)
  let ?f' = "f\<lparr>pf_value := StringArrayFlag ((if pf_changed f then xs else []) @ [e]), pf_changed := True\<rparr>"
  have step: "parse_args fs (concat (map (\<lambda>e. [''--exclude'', e]) (e # es)) @ rest) acc =
              parse_args (AList.update ''exclude'' ?f' fs) (concat (map (\<lambda>e. [''--exclude'', e]) es) @ rest) acc"
    using Cons.prems by (simp add: flag_set_value_def is_bool_flag_def Let_def)
  have "parse_args (AList.update ''exclude'' ?f' fs) (concat (map (\<lambda>e. [''--exclude'', e]) es) @ rest) acc =
        parse_args (if es = [] then AList.update ''exclude'' ?f' fs
                    else AList.update ''exclude''
                      (?f'\<lparr>pf_value := StringArrayFlag ((if pf_changed ?f' then (if pf_changed f then xs else []) @ [e] else []) @ es),
                       pf_changed := True\<rparr>) (AList.update ''exclude'' ?f' fs)) rest acc"
    by (rule Cons.IH) simp_all
  with step show ?case by (simp del: parse_args.simps)
qed

lemma parse_args_positional:
  "length s \<le> 1 \<or> hd s \<noteq> CHR ''-'' \<Longrightarrow> parse_args fs (s # rest) acc = parse_args fs rest (acc @ [s])"
  by simp

end
