(* ===== verification/FileSystem.thy ===== *)
theory FileSystem
  imports Prelude
begin

text \<open>
  The operating-system interface the program consumes (spec section 6): a file system
  with directories, regular files and symbolic links, the calls \<open>os.ReadDir\<close>,
  \<open>os.Lstat\<close> (through \<open>DirEntry.Info\<close>), \<open>os.Stat\<close>, \<open>os.Mkdir\<close> and \<open>os.Rename\<close>
  with the POSIX error numbers they return, the Go error values that wrap them, and the
  world (file system and standard output) a run of the program changes.

  A file system is an association list from absolute paths, given as lists of path
  components, to nodes; its meaning is the map \<open>map_of\<close>. A string path is split at
  \<open>/\<close> into components, so that \<open>//a\<close> and \<open>/a\<close> name the same node, as on Linux.
  A lookup follows symbolic links as the kernel does, up to its limit of 40 links.
  Permissions follow \<open>HOL/Unix\<close>: a directory is readable (its names may be listed) and
  writable (entries may be created and removed); search permission and ownership are not
  modelled, and the process is taken to own the directories it creates.
\<close>

datatype errno = ENOENT | ENOTDIR | EACCES | EEXIST | EISDIR | ENOTEMPTY | EINVAL | EBUSY | ELOOP

datatype node = Dir bool bool | Reg string | Symlink string

type_synonym fs = "(string list \<times> node) list"

datatype os_error =
    PathError string path errno
  | LinkError string path path errno

text \<open>A Go panic: an \<open>error\<close> value passed to \<open>panic\<close> (an \<open>os\<close> error, or another error
  given by its message), or a runtime error.\<close>

datatype go_panic =
    OsPanic os_error | ErrorPanic string
  | SliceBoundsOutOfRange | NegativeRepeatCount | IndexOutOfRange int int

record world =
  w_fs :: fs
  w_out :: "string list"

fun is_dir :: "node \<Rightarrow> bool" where
  "is_dir (Dir _ _) = True"
| "is_dir _ = False"

fun is_symlink :: "node \<Rightarrow> bool" where
  "is_symlink (Symlink _) = True"
| "is_symlink _ = False"

definition is_dir_at :: "fs \<Rightarrow> string list \<Rightarrow> bool" where
  "is_dir_at fs k = (case map_of fs k of Some nd \<Rightarrow> is_dir nd | None \<Rightarrow> False)"

subsection \<open>Paths\<close>

fun split_slash :: "string \<Rightarrow> string \<Rightarrow> string list" where
  "split_slash cur [] = [cur]"
| "split_slash cur (c # cs) =
     (if c = CHR ''/'' then cur # split_slash [] cs else split_slash (cur @ [c]) cs)"

text \<open>
  A path names the components left after splitting at \<open>/\<close>, dropping empty and \<open>.\<close>
  elements and letting \<open>..\<close> remove the element before it. This is the lexical cleaning
  of \<open>filepath.Clean\<close>; the system calls below read a path through it too, which is
  exact for every path the program passes: they come from \<open>filepath.Abs\<close>, which has
  already cleaned them, extended by single names, so they hold no \<open>..\<close> for the kernel
  to resolve. A \<open>..\<close> inside the target of a symbolic link is resolved physically.
\<close>

definition clean_step :: "string list \<Rightarrow> string \<Rightarrow> string list" where
  "clean_step acc c =
     (if c = [] \<or> c = ''.'' then acc else if c = ''..'' then butlast acc else acc @ [c])"

definition components :: "path \<Rightarrow> string list" where
  "components p = foldl clean_step [] (split_slash [] p)"

definition good_name :: "string \<Rightarrow> bool" where
  "good_name c \<longleftrightarrow> c \<noteq> [] \<and> CHR ''/'' \<notin> set c \<and> c \<noteq> ''.'' \<and> c \<noteq> ''..''"

text \<open>
  Path resolution as the kernel does it (\<open>path_resolution(7)\<close>): \<open>walk n fin fs pre cs\<close>
  reads the components \<open>cs\<close> from the directory whose key is \<open>pre\<close> and returns the key
  of the object they name. \<open>..\<close> goes to the parent (and stays at the root); a symbolic
  link met before the last component is followed, from the root when its target is
  absolute and from the directory holding it otherwise; the last component is followed
  only when \<open>fin\<close> holds (\<open>stat\<close>, \<open>open\<close>, the parents of \<open>mkdir\<close> and \<open>rename\<close>), not for
  \<open>lstat\<close> or the entry \<open>mkdir\<close> and \<open>rename\<close> act on. The fuel \<open>n\<close> counts the links still
  allowed: Linux follows at most 40 in one lookup and fails with \<open>ELOOP\<close> after that, so
  the fuel is the kernel's own bound and a cycle of links is an error, not divergence.
\<close>

definition max_symlinks :: nat where
  "max_symlinks = 40"

definition link_parts :: "string \<Rightarrow> string list" where
  "link_parts t = filter (\<lambda>c. c \<noteq> [] \<and> c \<noteq> ''.'') (split_slash [] t)"

fun walk :: "nat \<Rightarrow> bool \<Rightarrow> fs \<Rightarrow> string list \<Rightarrow> string list \<Rightarrow> errno + string list" where
  "walk n fin fs pre [] = Inr pre"
| "walk n fin fs pre (c # cs) =
     (if c = ''..'' then walk n fin fs (butlast pre) cs
      else case map_of fs (pre @ [c]) of
        None \<Rightarrow> Inl ENOENT
      | Some (Dir _ _) \<Rightarrow> walk n fin fs (pre @ [c]) cs
      | Some (Reg _) \<Rightarrow> (if cs = [] then Inr (pre @ [c]) else Inl ENOTDIR)
      | Some (Symlink t) \<Rightarrow>
          (if cs = [] \<and> \<not> fin then Inr (pre @ [c])
           else if n = 0 then Inl ELOOP
           else if t = [] then Inl ENOENT
           else walk (n - 1) fin fs (if hd t = CHR ''/'' then [] else pre) (link_parts t @ cs)))"

text \<open>The object a path names (following a final link when \<open>fin\<close>), with its key.\<close>

definition lookup :: "bool \<Rightarrow> fs \<Rightarrow> path \<Rightarrow> errno + (string list \<times> node)" where
  "lookup fin fs p =
     (case walk max_symlinks fin fs [] (components p) of
        Inl e \<Rightarrow> Inl e
      | Inr k \<Rightarrow> (case map_of fs k of None \<Rightarrow> Inl ENOENT | Some nd \<Rightarrow> Inr (k, nd)))"

text \<open>The directory that is to hold the last component of a key, and whether it is writable.\<close>

definition parent_dir :: "fs \<Rightarrow> string list \<Rightarrow> errno + (string list \<times> bool)" where
  "parent_dir fs k =
     (case walk max_symlinks True fs [] (butlast k) of
        Inl e \<Rightarrow> Inl e
      | Inr kp \<Rightarrow> (case map_of fs kp of
                    Some (Dir _ w) \<Rightarrow> Inr (kp, w)
                  | Some _ \<Rightarrow> Inl ENOTDIR
                  | None \<Rightarrow> Inl ENOENT))"

text \<open>The entries of a directory, sorted by name as \<open>os.ReadDir\<close> returns them.\<close>

definition dir_entries :: "fs \<Rightarrow> string list \<Rightarrow> (name \<times> node) list" where
  "dir_entries fs d =
     sort_key fst (map (\<lambda>(k, nd). (last k, nd)) (filter (\<lambda>(k, nd). k \<noteq> [] \<and> butlast k = d) fs))"

subsection \<open>System calls\<close>

definition os_read_dir :: "fs \<Rightarrow> path \<Rightarrow> os_error + (name \<times> node) list" where
  "os_read_dir fs p =
     (case lookup True fs p of
        Inl e \<Rightarrow> Inl (PathError ''open'' p e)
      | Inr (k, Dir r _) \<Rightarrow>
          (if r then Inr (dir_entries fs k) else Inl (PathError ''open'' p EACCES))
      | Inr _ \<Rightarrow> Inl (PathError ''readdirent'' p ENOTDIR))"

definition os_lstat :: "fs \<Rightarrow> path \<Rightarrow> os_error + node" where
  "os_lstat fs p =
     (case lookup False fs p of
        Inl e \<Rightarrow> Inl (PathError ''lstat'' p e)
      | Inr (_, nd) \<Rightarrow> Inr nd)"

definition os_stat :: "fs \<Rightarrow> path \<Rightarrow> os_error + node" where
  "os_stat fs p =
     (case lookup True fs p of
        Inl e \<Rightarrow> Inl (PathError ''stat'' p e)
      | Inr (_, nd) \<Rightarrow> Inr nd)"

text \<open>\<open>os.IsNotExist\<close> holds of exactly the errors carrying \<open>ENOENT\<close>.\<close>

fun os_is_not_exist :: "os_error \<Rightarrow> bool" where
  "os_is_not_exist (PathError _ _ e) = (e = ENOENT)"
| "os_is_not_exist (LinkError _ _ _ e) = (e = ENOENT)"

definition os_mkdir :: "fs \<Rightarrow> path \<Rightarrow> os_error + fs" where
  "os_mkdir fs p =
     (let k = components p; err = (\<lambda>e. Inl (PathError ''mkdir'' p e)) in
      if k = [] then err EEXIST
      else case parent_dir fs k of
        Inl e \<Rightarrow> err e
      | Inr (kp, w) \<Rightarrow>
          (let kt = kp @ [last k] in
           if map_of fs kt \<noteq> None then err EEXIST
           else if \<not> w then err EACCES
           else Inr (AList.update kt (Dir True True) fs)))"

definition rename_keys :: "string list \<Rightarrow> string list \<Rightarrow> fs \<Rightarrow> fs" where
  "rename_keys ko kn fs =
     map (\<lambda>(k, nd). (if take (length ko) k = ko then kn @ drop (length ko) k else k, nd)) fs"

text \<open>
  \<open>rename(2)\<close>: both parents (links on the way to them followed) must be writable
  directories; the last components are not followed, so a link is renamed itself, and a
  link at the target is replaced. A non-directory replaces
  whatever non-directory is at the target (POSIX: silently), but not a directory; a
  directory moves with its subtree onto an absent target or an empty directory.
\<close>

definition os_rename :: "fs \<Rightarrow> path \<Rightarrow> path \<Rightarrow> os_error + fs" where
  "os_rename fs old new =
     (let ko = components old; kn = components new;
          err = (\<lambda>e. Inl (LinkError ''rename'' old new e)) in
      if ko = [] \<or> kn = [] then err EBUSY
      else case parent_dir fs ko of
        Inl e \<Rightarrow> err e
      | Inr (po, wo) \<Rightarrow>
          (let so = po @ [last ko] in
           case map_of fs so of
             None \<Rightarrow> err ENOENT
           | Some src \<Rightarrow>
               (case parent_dir fs kn of
                  Inl e \<Rightarrow> err e
                | Inr (pn, wn) \<Rightarrow>
                    (let tn = pn @ [last kn] in
                     if \<not> wo \<or> \<not> wn then err EACCES
                     else if so = tn then Inr fs
                     else if is_dir src then
                       (if take (length so) tn = so then err EINVAL
                        else case map_of fs tn of
                          None \<Rightarrow> Inr (rename_keys so tn fs)
                        | Some (Dir _ _) \<Rightarrow>
                            (if dir_entries fs tn \<noteq> [] then err ENOTEMPTY
                             else Inr (rename_keys so tn (AList.delete tn fs)))
                        | Some _ \<Rightarrow> err ENOTDIR)
                     else case map_of fs tn of
                       Some (Dir _ _) \<Rightarrow> err EISDIR
                     | _ \<Rightarrow> Inr (AList.update tn src (AList.delete so fs))))))"

text \<open>
  \<open>os.FileInfo\<close> as the program uses it: the base name and the kind of the node.
  \<open>DirEntry.Info\<close> of an entry returned by \<open>os.ReadDir(d)\<close> is \<open>os.Lstat(d + "/" + name)\<close>
  at the time of the call, which fails if the entry has gone in between.
\<close>

datatype file_mode = ModeDir | ModeRegular | ModeSymlink

record file_info =
  fi_name :: name
  fi_mode :: file_mode

fun mode_of :: "node \<Rightarrow> file_mode" where
  "mode_of (Dir _ _) = ModeDir"
| "mode_of (Reg _) = ModeRegular"
| "mode_of (Symlink _) = ModeSymlink"

definition entry_info :: "fs \<Rightarrow> path \<Rightarrow> name \<times> node \<Rightarrow> os_error + file_info" where
  "entry_info fs d obj =
     (case os_lstat fs (d @ ''/'' @ fst obj) of
        Inl e \<Rightarrow> Inl e
      | Inr nd \<Rightarrow> Inr \<lparr>fi_name = fst obj, fi_mode = mode_of nd\<rparr>)"

text \<open>
  \<open>filepath.Abs\<close>: a relative path is joined to the working directory \<open>cwd\<close> of the
  process (absolute already), and the result is cleaned lexically by \<open>filepath.Clean\<close>
  for rooted paths: empty and \<open>.\<close> elements vanish, \<open>..\<close> removes the element
  before it, and \<open>..\<close> at the root is dropped.
\<close>

fun join_slash :: "string list \<Rightarrow> string" where
  "join_slash [] = []"
| "join_slash [c] = c"
| "join_slash (c # cs) = c @ ''/'' @ join_slash cs"

definition clean_rooted :: "path \<Rightarrow> path" where
  "clean_rooted p = ''/'' @ join_slash (components p)"

definition file_path_abs :: "path \<Rightarrow> path \<Rightarrow> path" where
  "file_path_abs cwd p = clean_rooted (if take 1 p = ''/'' then p else cwd @ ''/'' @ p)"

definition println :: "string \<Rightarrow> world \<Rightarrow> world" where
  "println s w = w\<lparr>w_out := w_out w @ [s]\<rparr>"

subsection \<open>Well-formed file systems\<close>

text \<open>
  Keys are distinct, every component of a key is a proper name, the root is a directory,
  and the parent of every other node is a directory: the tree shape that path resolution
  and directory listing rely on.
\<close>

definition wf_fs :: "fs \<Rightarrow> bool" where
  "wf_fs fs \<longleftrightarrow>
     distinct (map fst fs) \<and> is_dir_at fs [] \<and>
     list_all (\<lambda>(k, _). list_all good_name k \<and> (k = [] \<or> is_dir_at fs (butlast k))) fs"

subsection \<open>Paths, resolution and the invariant\<close>

declare max_symlinks_def [fs_eval] link_parts_def [fs_eval] lookup_def [fs_eval] parent_dir_def [fs_eval]
  os_read_dir_def [fs_eval] os_lstat_def [fs_eval] os_stat_def [fs_eval]
  os_mkdir_def [fs_eval] os_rename_def [fs_eval] dir_entries_def [fs_eval] entry_info_def [fs_eval]
  components_def [fs_eval] clean_step_def [fs_eval] good_name_def [fs_eval] is_dir_at_def [fs_eval] println_def [fs_eval] wf_fs_def [fs_eval]


lemma split_slash_no_slash:
  "CHR ''/'' \<notin> set n \<Longrightarrow> split_slash cur n = [cur @ n]"
  by (induction n arbitrary: cur) auto

lemma split_slash_append_slash:
  "split_slash cur (xs @ CHR ''/'' # ys) = split_slash cur xs @ split_slash [] ys"
  by (induction xs arbitrary: cur) auto

lemma components_child:
  assumes "good_name n"
  shows "components (p @ CHR ''/'' # n) = components p @ [n]"
proof -
  have "split_slash [] (p @ CHR ''/'' # n) = split_slash [] p @ [n]"
    using assms by (simp add: split_slash_append_slash split_slash_no_slash good_name_def)
  with assms show ?thesis by (simp add: components_def clean_step_def good_name_def)
qed

lemma split_slash_parts:
  "CHR ''/'' \<notin> set cur \<Longrightarrow> x \<in> set (split_slash cur s) \<Longrightarrow> CHR ''/'' \<notin> set x"
  by (induction cur s rule: split_slash.induct) (auto split: if_splits)

lemma foldl_clean_step_good:
  "list_all good_name acc \<Longrightarrow> \<forall>x \<in> set xs. CHR ''/'' \<notin> set x \<Longrightarrow>
   list_all good_name (foldl clean_step acc xs)"
proof (induction xs arbitrary: acc)
  case Nil
  then show ?case by simp
next
  case (Cons x xs)
  have "list_all good_name (clean_step acc x)"
    using Cons.prems by (auto simp: clean_step_def good_name_def list_all_iff dest: in_set_butlastD)
  with Cons show ?case by simp
qed

lemma components_good: "list_all good_name (components p)"
  unfolding components_def
  by (rule foldl_clean_step_good) (use split_slash_parts [of "[]"] in auto)

lemma wf_fs_map:
  "wf_fs fs \<longleftrightarrow> distinct (map fst fs) \<and> is_dir_at fs [] \<and>
     (\<forall>k nd. map_of fs k = Some nd \<longrightarrow>
        list_all good_name k \<and> (k \<noteq> [] \<longrightarrow> is_dir_at fs (butlast k)))"
proof -
  have "distinct (map fst fs) \<Longrightarrow>
        list_all (\<lambda>(k, _). list_all good_name k \<and> (k = [] \<or> is_dir_at fs (butlast k))) fs \<longleftrightarrow>
        (\<forall>k nd. map_of fs k = Some nd \<longrightarrow>
           list_all good_name k \<and> (k \<noteq> [] \<longrightarrow> is_dir_at fs (butlast k)))"
    unfolding list_all_iff by (fastforce dest: map_of_SomeD intro: map_of_is_SomeI)
  then show ?thesis unfolding wf_fs_def by blast
qed

lemma wf_fsI:
  assumes "distinct (map fst fs)" and "is_dir_at fs []"
    and "\<And>k nd. map_of fs k = Some nd \<Longrightarrow> list_all good_name k"
    and "\<And>k nd. map_of fs k = Some nd \<Longrightarrow> k \<noteq> [] \<Longrightarrow> is_dir_at fs (butlast k)"
  shows "wf_fs fs"
  using assms by (simp add: wf_fs_map)

lemma wf_good_key: "wf_fs fs \<Longrightarrow> map_of fs k = Some nd \<Longrightarrow> list_all good_name k"
  by (simp add: wf_fs_map)

lemma wf_parent_dir:
  "wf_fs fs \<Longrightarrow> map_of fs k = Some nd \<Longrightarrow> k \<noteq> [] \<Longrightarrow> is_dir_at fs (butlast k)"
  by (simp add: wf_fs_map)

lemma is_dir_at_Some:
  "is_dir_at fs k \<longleftrightarrow> (\<exists>r w. map_of fs k = Some (Dir r w))"
  by (auto simp: is_dir_at_def split: option.splits elim: is_dir.elims)

lemma wf_prefix_dir:
  "wf_fs fs \<Longrightarrow> map_of fs (p @ q) = Some nd \<Longrightarrow> q \<noteq> [] \<Longrightarrow> is_dir_at fs p"
proof (induction q arbitrary: nd rule: rev_induct)
  case Nil
  then show ?case by simp
next
  case (snoc c q)
  then have dir: "is_dir_at fs (p @ q)"
    using wf_parent_dir [of fs "p @ q @ [c]"] by (simp add: butlast_append)
  show ?case
  proof (cases "q = []")
    case True
    with dir show ?thesis by simp
  next
    case False
    from dir obtain r w where "map_of fs (p @ q) = Some (Dir r w)"
      by (auto simp: is_dir_at_Some)
    with snoc.IH [OF snoc.prems(1) _ False] show ?thesis by blast
  qed
qed

text \<open>
  On a well-formed file system every proper prefix of a key is a directory, so a walk
  along a key meets no link before its last component and ends at the key itself.
\<close>

lemma walk_wf:
  "wf_fs fs \<Longrightarrow> map_of fs (pre @ cs) = Some nd \<Longrightarrow> \<not> (fin \<and> is_symlink nd) \<Longrightarrow>
   walk n fin fs pre cs = Inr (pre @ cs)"
proof (induction cs arbitrary: pre)
  case Nil
  then show ?case by simp
next
  case (Cons c cs)
  have "list_all good_name (pre @ c # cs)" using Cons.prems(1,2) by (rule wf_good_key)
  then have c: "c \<noteq> ''..''" by (simp add: good_name_def)
  show ?case
  proof (cases "cs = []")
    case True
    with Cons.prems(2,3) c show ?thesis by (cases nd) simp_all
  next
    case False
    then have "is_dir_at fs (pre @ [c])"
      using wf_prefix_dir [OF Cons.prems(1), of "pre @ [c]" cs] Cons.prems(2) by simp
    then obtain r w where "map_of fs (pre @ [c]) = Some (Dir r w)" by (auto simp: is_dir_at_Some)
    with Cons.IH [of "pre @ [c]"] Cons.prems c show ?thesis by simp
  qed
qed

lemma lookup_wf:
  "wf_fs fs \<Longrightarrow> map_of fs (components p) = Some nd \<Longrightarrow> \<not> (fin \<and> is_symlink nd) \<Longrightarrow>
   lookup fin fs p = Inr (components p, nd)"
  using walk_wf [of fs "[]" "components p" nd fin max_symlinks] by (simp add: lookup_def)

lemma parent_dir_wf:
  "wf_fs fs \<Longrightarrow> map_of fs (butlast k) = Some (Dir r w) \<Longrightarrow> parent_dir fs k = Inr (butlast k, w)"
  using walk_wf [of fs "[]" "butlast k" "Dir r w" True max_symlinks] by (simp add: parent_dir_def)

text \<open>
  A walk that ends at a directory can be continued: reading more components after it is
  reading them from that directory, with the links still allowed.
\<close>

lemma walk_append_fin:
  "walk n fin0 fs pre cs = Inr k \<Longrightarrow> fin0 \<Longrightarrow> is_dir_at fs k \<Longrightarrow> ds \<noteq> [] \<Longrightarrow>
   \<exists>m. walk n fin fs pre (cs @ ds) = walk m fin fs k ds"
proof (induction n fin0 fs pre cs rule: walk.induct)
  case (1 n fin0 fs pre)
  then show ?case by auto
next
  case (2 n fin0 fs pre c cs)
  show ?case
  proof (cases "c = ''..''")
    case True
    with "2"(1) "2"(4-7) show ?thesis by simp
  next
    case False
    show ?thesis
    proof (cases "map_of fs (pre @ [c])")
      case None
      with False "2"(4) show ?thesis by simp
    next
      case (Some nd)
      show ?thesis
      proof (cases nd)
        case (Dir r w)
        then have w: "walk n fin0 fs (pre @ [c]) cs = Inr k" using "2"(4) False Some by simp
        show ?thesis using "2"(2) [OF False Some Dir w "2"(5-7)] False Some Dir by simp
      next
        case (Reg x)
        with False Some "2"(4,6) show ?thesis by (auto simp: is_dir_at_def split: if_splits)
      next
        case (Symlink t)
        let ?base = "if hd t = CHR ''/'' then [] else pre"
        have h: "\<not> (cs = [] \<and> \<not> fin0)" using "2"(5) by simp
        have nt: "n \<noteq> 0" "t \<noteq> []" and w: "walk (n - 1) fin0 fs ?base (link_parts t @ cs) = Inr k"
          using "2"(4,5) False Some Symlink by (simp_all split: if_splits)
        show ?thesis
          using "2"(3) [OF False Some Symlink h nt w "2"(5-7)] False Some Symlink nt "2"(7) by simp
      qed
    qed
  qed
qed

lemma walk_append:
  "walk n True fs pre cs = Inr k \<Longrightarrow> is_dir_at fs k \<Longrightarrow> ds \<noteq> [] \<Longrightarrow>
   \<exists>m. walk n fin fs pre (cs @ ds) = walk m fin fs k ds"
  by (rule walk_append_fin) simp_all

text \<open>The last step of a walk below a directory, on a child that is a proper name.\<close>

lemma walk_child:
  "good_name c \<Longrightarrow> map_of fs (k @ [c]) = Some nd \<Longrightarrow> \<not> (fin \<and> is_symlink nd) \<Longrightarrow>
   walk n fin fs k [c] = Inr (k @ [c])"
  by (cases nd) (simp_all add: good_name_def)

lemma walk_absent_child:
  "good_name c \<Longrightarrow> map_of fs (k @ [c]) = None \<Longrightarrow> walk n fin fs k [c] = Inl ENOENT"
  by (simp add: good_name_def)

text \<open>A path below a directory that is a key of the file system: the walk reaches it
  without following a link, with all the links still allowed.\<close>

lemma walk_append_dir:
  "wf_fs fs \<Longrightarrow> is_dir_at fs (pre @ cs) \<Longrightarrow> walk n fin fs pre (cs @ ds) = walk n fin fs (pre @ cs) ds"
proof (induction cs arbitrary: pre)
  case Nil
  then show ?case by simp
next
  case (Cons c cs)
  from Cons.prems(2) obtain r w where some: "map_of fs (pre @ c # cs) = Some (Dir r w)"
    by (auto simp: is_dir_at_Some)
  have "list_all good_name (pre @ c # cs)" using Cons.prems(1) some by (rule wf_good_key)
  then have c: "c \<noteq> ''..''" by (simp add: good_name_def)
  have "is_dir_at fs (pre @ [c])"
  proof (cases "cs = []")
    case True
    with Cons.prems(2) show ?thesis by simp
  next
    case False
    with Cons.prems(1) some show ?thesis using wf_prefix_dir [of fs "pre @ [c]" cs] by simp
  qed
  then obtain r' w' where "map_of fs (pre @ [c]) = Some (Dir r' w')" by (auto simp: is_dir_at_Some)
  with Cons.IH [of "pre @ [c]"] Cons.prems c show ?case by simp
qed

lemma walk_below_dir:
  "wf_fs fs \<Longrightarrow> map_of fs k = Some (Dir r w) \<Longrightarrow>
   walk max_symlinks fin fs [] (k @ ds) = walk max_symlinks fin fs k ds"
  using walk_append_dir [of fs "[]" k] by (simp add: is_dir_at_def)

subsection \<open>System calls against the map view\<close>

text \<open>
  Each call that succeeds changes the map \<open>map_of\<close> of the file system by one update
  (the refinement of the association list to a map), and keeps the invariant.
\<close>


lemma is_dir_at_cong: "map_of fs' x = map_of fs x \<Longrightarrow> is_dir_at fs' x = is_dir_at fs x"
  by (simp add: is_dir_at_def)

lemma is_dir_at_update [simp]:
  "is_dir_at (AList.update k v fs) j = (if j = k then is_dir v else is_dir_at fs j)"
  by (simp add: is_dir_at_def)

lemma is_dir_at_delete [simp]:
  "is_dir_at (AList.delete k fs) j = (j \<noteq> k \<and> is_dir_at fs j)"
  by (simp add: is_dir_at_def)

lemma butlast_neq_self: "k \<noteq> [] \<Longrightarrow> butlast k \<noteq> k"
  by (metis append_butlast_last_id append_self_conv list.distinct(1))

lemma wf_add_leaf:
  assumes wf: "wf_fs fs" and k: "k \<noteq> []" "is_dir_at fs (butlast k)" "map_of fs k = None"
    and good: "list_all good_name k"
  shows "wf_fs (AList.update k nd fs)"
proof (rule wf_fsI)
  show "distinct (map fst (AList.update k nd fs))" using wf by (simp add: wf_fs_def)
  show "is_dir_at (AList.update k nd fs) []" using wf k by (simp add: wf_fs_def)
next
  fix k' nd'
  assume "map_of (AList.update k nd fs) k' = Some nd'"
  with wf good show "list_all good_name k'" by (auto split: if_splits dest: wf_good_key)
next
  fix k' nd'
  assume some: "map_of (AList.update k nd fs) k' = Some nd'" and ne: "k' \<noteq> []"
  show "is_dir_at (AList.update k nd fs) (butlast k')"
  proof (cases "k' = k")
    case True
    with k show ?thesis by (simp add: butlast_neq_self)
  next
    case False
    with some have "map_of fs k' = Some nd'" by simp
    with wf ne have "is_dir_at fs (butlast k')" by (blast intro: wf_parent_dir)
    moreover from this k(3) have "butlast k' \<noteq> k" by (auto simp: is_dir_at_def)
    ultimately show ?thesis by simp
  qed
qed

lemma wf_move_leaf:
  assumes wf: "wf_fs fs" and src: "map_of fs ko = Some src" "\<not> is_dir src"
    and kn: "kn \<noteq> []" "\<not> is_dir_at fs kn" "is_dir_at fs (butlast kn)"
    and good: "list_all good_name kn"
  shows "wf_fs (AList.update kn src (AList.delete ko fs))"
proof (rule wf_fsI)
  fix k' nd'
  assume "map_of (AList.update kn src (AList.delete ko fs)) k' = Some nd'"
  with wf good show "list_all good_name k'" by (auto split: if_splits dest: wf_good_key)
next
  have ko_nodir: "\<not> is_dir_at fs ko" using src by (simp add: is_dir_at_def)
  have root: "is_dir_at fs []" using wf by (simp add: wf_fs_def)
  show "distinct (map fst (AList.update kn src (AList.delete ko fs)))"
    using wf by (simp add: wf_fs_def)
  from root ko_nodir kn show "is_dir_at (AList.update kn src (AList.delete ko fs)) []"
    by auto
next
  have ko_nodir: "\<not> is_dir_at fs ko" using src by (simp add: is_dir_at_def)
  fix k' nd'
  assume some: "map_of (AList.update kn src (AList.delete ko fs)) k' = Some nd'"
    and ne: "k' \<noteq> []"
  show "is_dir_at (AList.update kn src (AList.delete ko fs)) (butlast k')"
  proof (cases "k' = kn")
    case True
    with kn ko_nodir show ?thesis by (auto simp: butlast_neq_self)
  next
    case False
    with some have "map_of fs k' = Some nd'" by (simp split: if_splits)
    with wf ne have "is_dir_at fs (butlast k')" by (blast intro: wf_parent_dir)
    with ko_nodir kn(2) show ?thesis by auto
  qed
qed

lemma os_stat_wf:
  "wf_fs fs \<Longrightarrow> map_of fs (components p) = Some nd \<Longrightarrow> \<not> is_symlink nd \<Longrightarrow> os_stat fs p = Inr nd"
  using lookup_wf [of fs p nd True] by (simp add: os_stat_def)

lemma os_stat_absent_child:
  assumes wf: "wf_fs fs" and k: "map_of fs k = Some (Dir r w)" and p: "components p = k @ [n]"
    and absent: "map_of fs (k @ [n]) = None"
  shows "os_stat fs p = Inl (PathError ''stat'' p ENOENT)"
proof -
  have good: "good_name n" using components_good [of p] p by simp
  have "walk max_symlinks True fs [] (k @ [n]) = walk max_symlinks True fs k [n]"
    using walk_below_dir [OF wf k] .
  also have "\<dots> = Inl ENOENT" using walk_absent_child [OF good absent] .
  finally show ?thesis using p by (simp add: os_stat_def lookup_def)
qed

lemma os_mkdir_ok:
  assumes wf: "wf_fs fs" and k: "components p = k" "k \<noteq> []"
    and parent: "map_of fs (butlast k) = Some (Dir r True)" and absent: "map_of fs k = None"
  shows "os_mkdir fs p = Inr (AList.update k (Dir True True) fs)"
  using parent_dir_wf [OF wf parent] assms by (simp add: os_mkdir_def Let_def)

lemma os_mkdir_wf:
  assumes wf: "wf_fs fs" and ok: "os_mkdir fs p = Inr fs'"
  shows "wf_fs fs'"
proof -
  let ?k = "components p"
  from ok obtain kp r w where k: "?k \<noteq> []" and par: "map_of fs kp = Some (Dir r w)"
    and absent: "map_of fs (kp @ [last ?k]) = None"
    and fs': "fs' = AList.update (kp @ [last ?k]) (Dir True True) fs"
    by (auto simp: os_mkdir_def parent_dir_def Let_def split: if_splits sum.splits option.splits node.splits)
  have "list_all good_name kp" using wf par by (rule wf_good_key)
  moreover have "good_name (last ?k)" using components_good [of p] k by (simp add: list_all_iff)
  moreover have "is_dir_at fs kp" using par by (simp add: is_dir_at_def)
  ultimately show ?thesis using wf absent fs' by (simp add: wf_add_leaf)
qed

lemma os_rename_leaf_ok:
  assumes wf: "wf_fs fs" and ks: "components old = ko" "components new = kn"
    "ko \<noteq> []" "kn \<noteq> []" "ko \<noteq> kn"
    and parents: "map_of fs (butlast ko) = Some (Dir r1 True)"
      "map_of fs (butlast kn) = Some (Dir r2 True)"
    and src: "map_of fs ko = Some src" "\<not> is_dir src"
    and tgt: "\<not> is_dir_at fs kn"
  shows "os_rename fs old new = Inr (AList.update kn src (AList.delete ko fs))"
  using parent_dir_wf [OF wf parents(1)] parent_dir_wf [OF wf parents(2)] assms
  by (auto simp: os_rename_def is_dir_at_def Let_def split: option.splits node.splits)

subsection \<open>Directory listing\<close>

text \<open>
  On a well-formed file system, \<open>os.ReadDir\<close> of a readable directory returns the
  entries below it, sorted by name, with distinct names that are proper path
  components; \<open>DirEntry.Info\<close> of each of them succeeds.
\<close>

lemma dir_entries_member:
  assumes wf: "wf_fs fs" and mem: "(n, nd) \<in> set (dir_entries fs d)"
  shows "map_of fs (d @ [n]) = Some nd \<and> good_name n"
proof -
  from mem obtain k where k: "(k, nd) \<in> set fs" "k \<noteq> []" "butlast k = d" "n = last k"
    by (auto simp: dir_entries_def)
  then have kd: "k = d @ [n]" by (metis append_butlast_last_id)
  from wf k(1) have some: "map_of fs k = Some nd" by (simp add: wf_fs_def map_of_is_SomeI)
  from wf some have "list_all good_name k" by (rule wf_good_key)
  with some kd show ?thesis by simp
qed

lemma dir_entries_sorted: "sorted (map fst (dir_entries fs d))"
  by (simp add: dir_entries_def sorted_sort_key)

lemma os_read_dir_ok:
  "wf_fs fs \<Longrightarrow> map_of fs (components p) = Some (Dir True w) \<Longrightarrow>
   os_read_dir fs p = Inr (dir_entries fs (components p))"
  using lookup_wf [of fs p "Dir True w" True] by (simp add: os_read_dir_def)

lemma os_read_dir_unreadable:
  "wf_fs fs \<Longrightarrow> map_of fs (components p) = Some (Dir False w) \<Longrightarrow>
   os_read_dir fs p = Inl (PathError ''open'' p EACCES)"
  using lookup_wf [of fs p "Dir False w" True] by (simp add: os_read_dir_def)

lemma entry_info_ok:
  assumes wf: "wf_fs fs" and mem: "(n, nd) \<in> set (dir_entries fs (components d))"
  shows "entry_info fs d (n, nd) = Inr \<lparr>fi_name = n, fi_mode = mode_of nd\<rparr>"
proof -
  from dir_entries_member [OF wf mem] have some: "map_of fs (components d @ [n]) = Some nd"
    and good: "good_name n" by auto
  from good have "components (d @ CHR ''/'' # n) = components d @ [n]" by (rule components_child)
  with lookup_wf [OF wf, of "d @ CHR ''/'' # n" nd False] some
  show ?thesis by (simp add: entry_info_def os_lstat_def)
qed

text \<open>
  The entries of a directory reached through links: \<open>DirEntry.Info\<close> reads
  \<open>d + "/" + name\<close>, which the kernel resolves through the same links to the entry.
\<close>

lemma entry_info_below:
  assumes wf: "wf_fs fs" and d: "walk max_symlinks True fs [] (components d) = Inr k" "is_dir_at fs k"
    and mem: "(n, nd) \<in> set (dir_entries fs k)"
  shows "entry_info fs d (n, nd) = Inr \<lparr>fi_name = n, fi_mode = mode_of nd\<rparr>"
proof -
  from dir_entries_member [OF wf mem] have some: "map_of fs (k @ [n]) = Some nd"
    and good: "good_name n" by auto
  from good have cn: "components (d @ CHR ''/'' # n) = components d @ [n]" by (rule components_child)
  obtain m where "walk max_symlinks False fs [] (components d @ [n]) = walk m False fs k [n]"
    using walk_append [OF d, of "[n]" False] by blast
  also have "\<dots> = Inr (k @ [n])" using walk_child [OF good some, of False] by simp
  finally show ?thesis using some cn by (simp add: entry_info_def os_lstat_def lookup_def)
qed

lemma dir_entries_distinct:
  assumes wf: "wf_fs fs"
  shows "distinct (map fst (dir_entries fs d))"
proof -
  let ?sel = "filter (\<lambda>(k, nd). k \<noteq> [] \<and> butlast k = d) fs"
  let ?ks = "map fst ?sel"
  have names: "map fst (map (\<lambda>(k, nd). (last k, nd)) ?sel) = map last ?ks"
    by (induction fs) auto
  have "mset (map fst (dir_entries fs d)) = mset (map fst (map (\<lambda>(k, nd). (last k, nd)) ?sel))"
    unfolding dir_entries_def mset_map mset_sort ..
  then have m: "mset (map fst (dir_entries fs d)) = mset (map last ?ks)"
    by (simp only: names)
  have dk: "distinct ?ks"
    using wf by (simp add: wf_fs_def distinct_map_filter)
  have inj: "inj_on last (set ?ks)"
  proof (rule inj_onI)
    fix k k' assume "k \<in> set ?ks" "k' \<in> set ?ks" "last k = last k'"
    then have "k \<noteq> []" "k' \<noteq> []" "butlast k = butlast k'" "last k = last k'" by auto
    then show "k = k'" by (metis append_butlast_last_id)
  qed
  from dk inj have "distinct (map last ?ks)" using distinct_map by blast
  with m show ?thesis using mset_eq_imp_distinct_iff by blast
qed

lemma dir_entries_complete:
  "map_of fs (d @ [n]) = Some nd \<Longrightarrow> (n, nd) \<in> set (dir_entries fs d)"
  by (force simp: dir_entries_def dest: map_of_SomeD)

end
