(* ===== verification/Config.thy ===== *)
theory Config
  imports Flags FileSystem
begin

text \<open>
  The root command and its configuration (\<open>cmd/root.go\<close>), and the version command
  (\<open>cmd/version.go\<close>). The root's \<open>init\<close> declares the persistent flag \<open>--viper\<close> and binds
  the configuration keys \<open>author\<close> and \<open>useViper\<close> to flags through viper, then sets viper
  defaults; \<open>initConfig\<close>, which cobra runs before every command, points viper at the
  configuration file and reads it. The viper state and the calls the program makes on it
  are modelled from the library's documented behaviour; parsing the YAML file is not,
  and is a parameter \<open>parses\<close> of the model.
\<close>

subsection \<open>Viper\<close>

record viper_state =
  v_pflags :: "(string \<times> string) list"
  v_defaults :: "(string \<times> string) list"
  v_config_file :: path
  v_config_paths :: "path list"
  v_config_type :: string
  v_config_name :: string
  v_automatic_env :: bool

definition viper_new :: viper_state where
  "viper_new = \<lparr>v_pflags = [], v_defaults = [], v_config_file = [], v_config_paths = [],
                v_config_type = [], v_config_name = ''config'', v_automatic_env = False\<rparr>"

text \<open>Viper keys are case-insensitive: it stores them in lower case (\<open>strings.ToLower\<close>).\<close>

definition lower_char :: "char \<Rightarrow> char" where
  "lower_char c = (if CHR ''A'' \<le> c \<and> c \<le> CHR ''Z'' then char_of (of_char c + (32::nat)) else c)"

text \<open>\<open>viper.BindPFlag(key, flag)\<close>: a nil flag is an error \<open>flag for "key" is nil\<close>.\<close>

definition bind_pflag :: "string \<Rightarrow> (string \<times> pflag) option \<Rightarrow> viper_state \<Rightarrow> string + viper_state" where
  "bind_pflag key flag v =
     (case flag of
        None \<Rightarrow> Inl (''flag for '' @ [CHR 0x22] @ key @ [CHR 0x22] @ '' is nil'')
      | Some (name, _) \<Rightarrow> Inr (v\<lparr>v_pflags := AList.update (map lower_char key) name (v_pflags v)\<rparr>))"

text \<open>\<open>FlagSet.Lookup(name)\<close>: the flag, or nil.\<close>

definition lookup_flag :: "flag_set \<Rightarrow> string \<Rightarrow> (string \<times> pflag) option" where
  "lookup_flag fs name = map_option (\<lambda>f. (name, f)) (map_of fs name)"

definition set_default :: "string \<Rightarrow> string \<Rightarrow> viper_state \<Rightarrow> viper_state" where
  "set_default key value v = v\<lparr>v_defaults := AList.update (map lower_char key) value (v_defaults v)\<rparr>"

text \<open>The file extensions viper tries, in order, when it searches a directory.\<close>

definition supported_exts :: "string list" where
  "supported_exts = [''json'', ''toml'', ''yaml'', ''yml'', ''properties'', ''props'', ''prop'', ''hcl'',
                     ''tfvars'', ''dotenv'', ''env'', ''ini'']"

text \<open>Viper's \<open>exists\<close>: the path names something that is not a directory.\<close>

definition config_exists :: "fs \<Rightarrow> path \<Rightarrow> bool" where
  "config_exists fs p = (case os_stat fs p of Inr nd \<Rightarrow> \<not> is_dir nd | Inl _ \<Rightarrow> False)"

text \<open>\<open>findConfigFile\<close>: the configured file, or the first \<open>name.ext\<close> that exists in a
  search path, then \<open>name\<close> itself when a configuration type is set.\<close>

definition find_config_file :: "fs \<Rightarrow> viper_state \<Rightarrow> path option" where
  "find_config_file fs v =
     (if v_config_file v \<noteq> [] then Some (v_config_file v)
      else find (config_exists fs)
             (concat (map (\<lambda>dir. map (\<lambda>ext. dir @ ''/'' @ v_config_name v @ ''.'' @ ext) supported_exts @
                                 (if v_config_type v \<noteq> [] then [dir @ ''/'' @ v_config_name v] else []))
                          (v_config_paths v))))"

text \<open>\<open>getConfigType\<close>: the configured type, or else the file's extension is supported.\<close>

definition config_type_ok :: "viper_state \<Rightarrow> path \<Rightarrow> bool" where
  "config_type_ok v file =
     (if v_config_type v \<noteq> [] then v_config_type v \<in> set supported_exts
      else (\<exists>ext \<in> set supported_exts. length ext < length file \<and>
              drop (length file - Suc (length ext)) file = ''.'' @ ext))"

text \<open>\<open>ReadInConfig\<close>: find the file, check its type, read and parse its content; the
  result is the file used.\<close>

definition read_in_config :: "fs \<Rightarrow> (string \<Rightarrow> bool) \<Rightarrow> viper_state \<Rightarrow> string + path" where
  "read_in_config fs parses v =
     (case find_config_file fs v of
        None \<Rightarrow> Inl ''Config File Not Found''
      | Some file \<Rightarrow>
          (if \<not> config_type_ok v file then Inl ''Unsupported Config Type''
           else case os_stat fs file of
             Inr (Reg content) \<Rightarrow> (if parses content then Inr file else Inl ''While parsing config'')
           | _ \<Rightarrow> Inl ''open config file''))"

subsection \<open>The root command\<close>

definition root_version :: string where
  "root_version = ''0.0.1''"

text \<open>\<open>init\<close> (\<open>cmd/root.go\<close> lines 25--41): the persistent flags, the viper state, and the
  world with whatever was printed.\<close>

definition root_init :: "world \<Rightarrow> flag_set \<times> viper_state \<times> world" where
  "root_init w =
     (let pflags = [(''viper'', new_flag (BoolFlag True))]; v = viper_new in
      case bind_pflag ''author'' (lookup_flag pflags ''author'') v of
        Inl err \<Rightarrow> (pflags, v, println err w)
      | Inr v \<Rightarrow>
          (case bind_pflag ''useViper'' (lookup_flag pflags ''viper'') v of
             Inl err \<Rightarrow> (pflags, v, println err w)
           | Inr v \<Rightarrow> (pflags, set_default ''license'' ''apache'' (set_default ''author'' ''Richard Sigl'' v), w)))"

text \<open>
  \<open>initConfig\<close> (\<open>cmd/root.go\<close> lines 43--63), given the value of \<open>cfgFile\<close> and the result
  of \<open>os.UserHomeDir\<close>. \<open>cobra.CheckErr\<close> on an error prints it and exits with status 1:
  that is \<open>Inl\<close> of the message and the world.
\<close>

definition init_config ::
  "path \<Rightarrow> string + path \<Rightarrow> (string \<Rightarrow> bool) \<Rightarrow> viper_state \<Rightarrow> world \<Rightarrow> (string \<times> world) + (viper_state \<times> world)" where
  "init_config cfg_file home parses v w =
     (let located =
        (if cfg_file \<noteq> [] then Inr (v\<lparr>v_config_file := cfg_file\<rparr>)
         else case home of
                Inl err \<Rightarrow> Inl err
              | Inr h \<Rightarrow> Inr (v\<lparr>v_config_paths := v_config_paths v @ [h], v_config_type := ''yaml'',
                               v_config_name := ''.cobra''\<rparr>))
      in case located of
           Inl err \<Rightarrow> Inl (err, w)
         | Inr v \<Rightarrow>
             (let v = v\<lparr>v_automatic_env := True\<rparr> in
              case read_in_config (w_fs w) parses v of
                Inr file \<Rightarrow> Inr (v, println (''Using config file: '' @ file) w)
              | Inl _ \<Rightarrow> Inr (v, w)))"

subsection \<open>The version command\<close>

text \<open>The handler of \<open>versionCmd\<close> (\<open>cmd/version.go\<close> lines 58--60): \<open>v\<close> and the root's version.\<close>

definition version_run :: "world \<Rightarrow> world" where
  "version_run w = println (''v'' @ root_version) w"

subsection \<open>Properties of the configuration\<close>

lemma find_config_file_home:
  "find_config_file fs (v\<lparr>v_config_paths := [h], v_config_type := ''yaml'', v_config_name := ''.cobra'',
                          v_automatic_env := True\<rparr>) = Some f \<Longrightarrow>
   v_config_file v = [] \<Longrightarrow> take (Suc (length h)) f = h @ ''/''"
  by (auto simp: find_config_file_def dest!: find_Some_iff [THEN iffD1] nth_mem)

lemma read_in_config_file:
  "read_in_config fs parses v = Inr f \<Longrightarrow> find_config_file fs v = Some f"
  by (auto simp: read_in_config_def split: option.splits if_splits sum.splits node.splits)

lemma root_init_eq:
  "root_init w = ([(''viper'', new_flag (BoolFlag True))], viper_new,
      w\<lparr>w_out := w_out w @ [''flag for '' @ [CHR 0x22] @ ''author'' @ [CHR 0x22] @ '' is nil'']\<rparr>)"
  by (simp add: root_init_def bind_pflag_def lookup_flag_def println_def)

lemma init_config_home_Inr:
  "\<exists>v' w'. init_config [] (Inr h) parses viper_new w = Inr (v', w') \<and> w_fs w' = w_fs w \<and>
     (\<exists>out. w_out w' = w_out w @ out)"
  by (auto simp: init_config_def println_def Let_def split: sum.splits)

text \<open>
  C28: With a home directory, \<open>initConfig\<close> on the viper state \<open>init\<close> leaves never exits
  and never changes the file system; it prints at most one line, naming a configuration
  file inside the home directory.
\<close>

theorem init_config_home:
  "\<exists>v' w'. init_config [] (Inr h) parses viper_new w = Inr (v', w') \<and> w_fs w' = w_fs w \<and>
     (w_out w' = w_out w \<or>
      (\<exists>f. w_out w' = w_out w @ [''Using config file: '' @ f] \<and> take (Suc (length h)) f = h @ ''/''))"
proof (cases "read_in_config (w_fs w) parses
               (viper_new\<lparr>v_config_paths := [h], v_config_type := ''yaml'', v_config_name := ''.cobra'',
                          v_automatic_env := True\<rparr>)")
  case (Inl e)
  then show ?thesis by (simp add: init_config_def viper_new_def)
next
  case (Inr f)
  then have "find_config_file (w_fs w)
      (viper_new\<lparr>v_config_paths := [h], v_config_type := ''yaml'', v_config_name := ''.cobra'',
                 v_automatic_env := True\<rparr>) = Some f"
    by (rule read_in_config_file)
  then have "take (Suc (length h)) f = h @ ''/''"
    by (rule find_config_file_home) (simp add: viper_new_def)
  with Inr show ?thesis by (simp add: init_config_def viper_new_def println_def)
qed

end
