(* ===== verification/Classifier.thy ===== *)
theory Classifier
  imports Prelude
begin

text \<open>
  The Extension Classifier of \<open>src/tools/helpers/sort.go\<close>: the directory-name and
  extension constants (lines 43--85), \<open>MustGetExtension\<close> (lines 308--310) over Go's
  \<open>strings.LastIndex\<close>, and the \<open>switch\<close> of \<open>SortFiles\<close> (lines 141--158) that maps
  an extension to the field of \<open>NewDirsMap\<close> the file is appended to. The fields are
  named by the datatype \<open>category\<close>, in the order the struct declares them. The
  abstract specification is the rule table of spec section 4.1, \<open>extension_rules\<close>,
  and the reference extension \<open>ext_suffix\<close>: the text after the last dot.
\<close>

datatype category = Images | Documents | Pdf | Media | Zips | Programming | Other

definition IMAGES :: string where "IMAGES = ''images''"
definition DOCS :: string where "DOCS = ''documents''"
definition PDFS :: string where "PDFS = ''pdf''"
definition MEDIA :: string where "MEDIA = ''media''"
definition ZIPS :: string where "ZIPS = ''zips''"
definition PROGRAMMING :: string where "PROGRAMMING = ''programming''"
definition OTHER :: string where "OTHER = ''other''"

definition JPG :: string where "JPG = ''.jpg''"
definition PNG :: string where "PNG = ''.png''"
definition PDF :: string where "PDF = ''.pdf''"
definition DOC :: string where "DOC = ''.doc''"
definition DOCX :: string where "DOCX = ''.docx''"
definition XLS :: string where "XLS = ''.xls''"
definition XLSX :: string where "XLSX = ''.xlsx''"
definition PPT :: string where "PPT = ''.ppt''"
definition PPTX :: string where "PPTX = ''.pptx''"
definition TXT :: string where "TXT = ''.txt''"
definition ZIP :: string where "ZIP = ''.zip''"
definition MP3 :: string where "MP3 = ''.mp3''"
definition MP4 :: string where "MP4 = ''.mp4''"
definition MPG :: string where "MPG = ''.mpg''"
definition SQL :: string where "SQL = ''.sql''"
definition DLL :: string where "DLL = ''.dll''"
definition EXE :: string where "EXE = ''.exe''"
definition JS :: string where "JS = ''.js''"
definition TS :: string where "TS = ''.ts''"
definition CSS :: string where "CSS = ''.css''"
definition HTML :: string where "HTML = ''.html''"
definition TSX :: string where "TSX = ''.tsx''"
definition JSX :: string where "JSX = ''.jsx''"

text \<open>The constant naming each field's directory, as \<open>InitializeFileHandler\<close> pairs them.\<close>

primrec dir_name :: "category \<Rightarrow> string" where
  "dir_name Images = IMAGES"
| "dir_name Documents = DOCS"
| "dir_name Pdf = PDFS"
| "dir_name Media = MEDIA"
| "dir_name Zips = ZIPS"
| "dir_name Programming = PROGRAMMING"
| "dir_name Other = OTHER"

subsection \<open>strings.LastIndex and MustGetExtension\<close>

text \<open>
  \<open>strings.LastIndex(s, ".")\<close> with a one-byte separator is Go's \<open>LastIndexByte\<close>: a
  loop from the last index down, returning the first match or \<open>-1\<close>.
\<close>

function last_index_loop :: "string \<Rightarrow> char \<Rightarrow> int \<Rightarrow> int" where
  "last_index_loop s c i =
     (if i < 0 then -1 else if s ! nat i = c then i else last_index_loop s c (i - 1))"
  by pat_completeness auto
termination
  by (relation "measure (\<lambda>(s, c, i). nat (i + 1))") auto

declare last_index_loop.simps [simp del]

definition last_index :: "string \<Rightarrow> char \<Rightarrow> int" where
  "last_index s c = last_index_loop s c (int (length s) - 1)"

text \<open>
  \<open>FileExtension("." + filename[strings.LastIndex(filename, ".")+1:])\<close>; the slice is
  the only operation that could panic, which is the \<open>None\<close> of the result.
\<close>

definition must_get_extension :: "string \<Rightarrow> string option" where
  "must_get_extension filename =
     map_option (\<lambda>s. ''.'' @ s)
       (go_slice filename (last_index filename CHR ''.'' + 1) (int (length filename)))"

subsection \<open>The switch of SortFiles\<close>

definition sort_category :: "string \<Rightarrow> category" where
  "sort_category ext =
     (if ext \<in> set [JPG, PNG] then Images
      else if ext \<in> set [DOC, DOCX, XLS, XLSX, PPT, PPTX, TXT, SQL] then Documents
      else if ext = ZIP then Zips
      else if ext \<in> set [MP3, MP4, MPG] then Media
      else if ext = PDF then Pdf
      else if ext \<in> set [DLL, EXE, JS, TS, CSS, HTML, TSX, JSX] then Programming
      else Other)"

text \<open>The category of a file as \<open>SortFiles\<close> computes it from the file's name.\<close>

definition file_category :: "string \<Rightarrow> category option" where
  "file_category filename = map_option sort_category (must_get_extension filename)"

subsection \<open>The specification: the rule table of spec section 4.1\<close>

definition extension_rules :: "(string \<times> category) list" where
  "extension_rules =
     [(''.jpg'', Images), (''.png'', Images),
      (''.doc'', Documents), (''.docx'', Documents), (''.xls'', Documents),
      (''.xlsx'', Documents), (''.ppt'', Documents), (''.pptx'', Documents),
      (''.txt'', Documents), (''.sql'', Documents),
      (''.pdf'', Pdf), (''.zip'', Zips),
      (''.mp3'', Media), (''.mp4'', Media), (''.mpg'', Media),
      (''.dll'', Programming), (''.exe'', Programming), (''.js'', Programming),
      (''.ts'', Programming), (''.css'', Programming), (''.html'', Programming),
      (''.tsx'', Programming), (''.jsx'', Programming)]"

definition ext_suffix :: "string \<Rightarrow> string" where
  "ext_suffix filename = rev (takeWhile (\<lambda>c. c \<noteq> CHR ''.'') (rev filename))"

definition classify :: "string \<Rightarrow> category" where
  "classify filename =
     (case map_of extension_rules (''.'' @ ext_suffix filename) of Some c \<Rightarrow> c | None \<Rightarrow> Other)"

lemmas extension_consts = JPG_def PNG_def PDF_def DOC_def DOCX_def XLS_def XLSX_def PPT_def
  PPTX_def TXT_def ZIP_def MP3_def MP4_def MPG_def SQL_def DLL_def EXE_def JS_def TS_def
  CSS_def HTML_def TSX_def JSX_def

lemmas dir_consts = IMAGES_def DOCS_def PDFS_def MEDIA_def ZIPS_def PROGRAMMING_def OTHER_def

subsection \<open>MustGetExtension never panics and computes the text after the last dot\<close>
lemma takeWhile_rev_last_split:
  "\<forall>y \<in> set ys. P y \<Longrightarrow> \<not> P c \<Longrightarrow> takeWhile P (rev (xs @ c # ys)) = rev ys"
proof -
  assume "\<forall>y \<in> set ys. P y" and "\<not> P c"
  then have "takeWhile P (rev ys @ c # rev xs) = rev ys @ takeWhile P (c # rev xs)"
    by (intro takeWhile_append2) simp
  with \<open>\<not> P c\<close> show ?thesis by simp
qed

lemma last_index_loop_suffix:
  "-1 \<le> i \<Longrightarrow> i < int (length s) \<Longrightarrow> c \<notin> set (drop (nat (i + 1)) s) \<Longrightarrow>
   -1 \<le> last_index_loop s c i \<and> last_index_loop s c i \<le> i \<and>
   drop (nat (last_index_loop s c i + 1)) s = rev (takeWhile (\<lambda>x. x \<noteq> c) (rev s))"
proof (induction s c i rule: last_index_loop.induct)
  case (1 s c i)
  show ?case
  proof (cases "i < 0")
    case True
    with "1.prems" have "i = -1" by simp
    moreover from this "1.prems" have tw: "takeWhile (\<lambda>x. x \<noteq> c) (rev s) = rev s"
      by (auto simp: takeWhile_eq_all_conv)
    ultimately show ?thesis by (simp add: last_index_loop.simps tw)
  next
    case False
    then have i: "nat i < length s" using "1.prems" by simp
    have suc: "nat (i + 1) = Suc (nat i)" using False by simp
    have split: "s = take (nat i) s @ s ! nat i # drop (nat (i + 1)) s"
      unfolding suc by (rule id_take_nth_drop [OF i])
    show ?thesis
    proof (cases "s ! nat i = c")
      case True
      have "takeWhile (\<lambda>x. x \<noteq> c) (rev s) = rev (drop (nat (i + 1)) s)"
        using "1.prems"(3) True
        by (subst split) (rule takeWhile_rev_last_split, auto)
      with False True show ?thesis by (simp add: last_index_loop.simps)
    next
      case neq: False
      have "drop (nat (i - 1 + 1)) s = s ! nat i # drop (nat (i + 1)) s"
        using Cons_nth_drop_Suc [OF i] suc by simp
      with neq "1.prems" have "c \<notin> set (drop (nat (i - 1 + 1)) s)" by auto
      with "1.IH" [OF False neq] False neq "1.prems" show ?thesis
        by (simp add: last_index_loop.simps [of s c i])
    qed
  qed
qed

lemma last_index_bounds:
  "-1 \<le> last_index s c \<and> last_index s c < int (length s)"
  using last_index_loop_suffix [of "int (length s) - 1" s c] by (simp add: last_index_def)

lemma drop_last_index:
  "drop (nat (last_index s c + 1)) s = rev (takeWhile (\<lambda>x. x \<noteq> c) (rev s))"
  using last_index_loop_suffix [of "int (length s) - 1" s c] by (simp add: last_index_def)

lemma must_get_extension_eq:
  "must_get_extension filename = Some (''.'' @ ext_suffix filename)"
proof -
  let ?i = "last_index filename CHR ''.'' + 1"
  have "0 \<le> ?i" and "?i \<le> int (length filename)"
    using last_index_bounds [of filename "CHR ''.''"] by auto
  then show ?thesis
    by (simp add: must_get_extension_def go_slice_from_Some drop_last_index ext_suffix_def)
qed

lemma sort_category_rules:
  "sort_category ext = (case map_of extension_rules ext of Some c \<Rightarrow> c | None \<Rightarrow> Other)"
  by (simp add: sort_category_def extension_rules_def extension_consts)

lemma file_category_classify: "file_category filename = Some (classify filename)"
  by (simp add: file_category_def must_get_extension_eq classify_def sort_category_rules)

lemma extension_rules_functional: "distinct (map fst extension_rules)"
  by (simp add: extension_rules_def)

lemma ext_suffix_no_dot: "CHR ''.'' \<notin> set (ext_suffix filename)"
  by (auto simp: ext_suffix_def dest: set_takeWhileD)

lemma ext_suffix_split:
  "\<exists>p. filename = p @ ext_suffix filename \<and> (p = [] \<or> last p = CHR ''.'')"
proof -
  let ?P = "\<lambda>c. c \<noteq> CHR ''.''"
  let ?p = "rev (dropWhile ?P (rev filename))"
  have "filename = ?p @ ext_suffix filename"
    by (metis ext_suffix_def rev_append rev_rev_ident takeWhile_dropWhile_id)
  moreover have "?p = [] \<or> last ?p = CHR ''.''"
  proof (cases "dropWhile ?P (rev filename)")
    case Nil
    then show ?thesis by simp
  next
    case (Cons x xs)
    then have "x = CHR ''.''" using hd_dropWhile [of ?P "rev filename"] by auto
    with Cons show ?thesis by simp
  qed
  ultimately show ?thesis by blast
qed

lemma ext_suffix_no_dot_name:
  "CHR ''.'' \<notin> set filename \<Longrightarrow> ext_suffix filename = filename"
proof -
  assume "CHR ''.'' \<notin> set filename"
  then have "takeWhile (\<lambda>c. c \<noteq> CHR ''.'') (rev filename) = rev filename"
    by (auto simp: takeWhile_eq_all_conv)
  then show ?thesis unfolding ext_suffix_def by (metis rev_rev_ident)
qed

lemma sort_category_suffix: "sort_category (CHR ''.'' # ext_suffix filename) = classify filename"
  by (simp add: sort_category_rules classify_def)

subsection \<open>Properties of the classifier\<close>

text \<open>
  C18: \<open>MustGetExtension\<close> never panics: for every file name it returns a dot followed by
  the longest suffix of the name that contains no dot.
\<close>

theorem must_get_extension_total:
  "\<exists>e. must_get_extension filename = Some (''.'' @ e) \<and> CHR ''.'' \<notin> set e \<and>
       (\<exists>p. filename = p @ e \<and> (p = [] \<or> last p = CHR ''.''))"
  using must_get_extension_eq ext_suffix_no_dot ext_suffix_split by blast

text \<open>
  C7: The \<open>switch\<close> of \<open>SortFiles\<close> implements the rule table of spec section 4.1: an
  extension selects category \<open>c\<close> exactly when the table maps it to \<open>c\<close>, or \<open>c\<close> is
  \<open>Other\<close> and the table has no rule for the extension.
\<close>

theorem sort_category_refines_rules:
  "sort_category ext = c \<longleftrightarrow>
     (ext, c) \<in> set extension_rules \<or> (c = Other \<and> ext \<notin> fst ` set extension_rules)"
proof (cases "map_of extension_rules ext")
  case None
  then have "ext \<notin> fst ` set extension_rules" by (simp add: map_of_eq_None_iff)
  with None show ?thesis by (force simp: sort_category_rules)
next
  case (Some c')
  then have "(ext, c') \<in> set extension_rules" by (rule map_of_SomeD)
  moreover have "(ext, c) \<in> set extension_rules \<longleftrightarrow> c = c'"
    using Some extension_rules_functional map_of_is_SomeI by fastforce
  ultimately show ?thesis using Some
    by (auto simp: sort_category_rules) force
qed

text \<open>
  C19: A name without a dot is classified by the extension made of a dot and the whole
  name, so that a file called \<open>txt\<close> or \<open>jpg\<close> is sorted as a document or an image,
  where spec section 4.1 says every dot-less name falls to \<open>Other\<close>.
\<close>

theorem dotless_name_uses_whole_name:
  "CHR ''.'' \<notin> set filename \<Longrightarrow> file_category filename = Some (sort_category (''.'' @ filename))"
  by (simp add: file_category_def must_get_extension_eq ext_suffix_no_dot_name)

theorem dotless_name_uses_whole_name_witness:
  "CHR ''.'' \<notin> set ''txt'' \<and> file_category ''txt'' = Some Documents"
  using dotless_name_uses_whole_name [of "''txt''"] by (simp add: sort_category_def extension_consts)

end
