(* ===== verification/Handler.thy ===== *)
theory Handler
  imports FileSystem Classifier
begin

text \<open>
  The data model of \<open>src/tools/helpers/sort.go\<close> and its two pure helpers: the structs
  \<open>DirInfo\<close>, \<open>NewDirsMap\<close> and \<open>FileHandler\<close> (lines 16--36) as records,
  \<open>InitializeFileHandler\<close> (lines 87--134) with \<open>mustGetNewPath\<close> (lines 312--314),
  the Directory Plan Builder, and \<open>isExcluded\<close> (lines 332--339), the Exclusion Filter.
  The reflection loops of \<open>DryRun\<close> and \<open>MoveFiles\<close> visit the seven fields of
  \<open>NewDirsMap\<close> in declaration order; \<open>dir_fields\<close> is that visit, \<open>field_of\<close>
  selects the field of a category and \<open>map_field\<close> updates it.
\<close>

record dir_info =
  path :: path
  files :: "file_info list"

record new_dirs_map =
  images :: dir_info
  documents :: dir_info
  pdf :: dir_info
  media :: dir_info
  zips :: dir_info
  programming :: dir_info
  other :: dir_info

record file_handler =
  directory_map :: new_dirs_map
  raw_files :: "file_info list"
  excluded :: "string list"
  working_dir :: path

definition must_get_new_path :: "path \<Rightarrow> string \<Rightarrow> path" where
  "must_get_new_path pwd new_dir_name = pwd @ ''/'' @ new_dir_name"

definition initialize_file_handler :: "path \<Rightarrow> path \<Rightarrow> string list \<Rightarrow> file_handler" where
  "initialize_file_handler cwd pwd excluded_files =
     (let absolute_path = file_path_abs cwd pwd in
      \<lparr>directory_map =
         \<lparr>images = \<lparr>path = must_get_new_path absolute_path IMAGES, files = []\<rparr>,
          documents = \<lparr>path = must_get_new_path absolute_path DOCS, files = []\<rparr>,
          pdf = \<lparr>path = must_get_new_path absolute_path PDFS, files = []\<rparr>,
          media = \<lparr>path = must_get_new_path absolute_path MEDIA, files = []\<rparr>,
          zips = \<lparr>path = must_get_new_path absolute_path ZIPS, files = []\<rparr>,
          programming = \<lparr>path = must_get_new_path absolute_path PROGRAMMING, files = []\<rparr>,
          other = \<lparr>path = must_get_new_path absolute_path OTHER, files = []\<rparr>\<rparr>,
       raw_files = [],
       excluded = foldl (\<lambda>acc file. acc @ [file]) [] excluded_files,
       working_dir = absolute_path\<rparr>)"

fun is_excluded :: "file_info \<Rightarrow> string list \<Rightarrow> bool" where
  "is_excluded file [] = False"
| "is_excluded file (excluded_file # rest) =
     (if fi_name file = excluded_file then True else is_excluded file rest)"

definition dir_fields :: "new_dirs_map \<Rightarrow> dir_info list" where
  "dir_fields m = [images m, documents m, pdf m, media m, zips m, programming m, other m]"

primrec field_of :: "category \<Rightarrow> new_dirs_map \<Rightarrow> dir_info" where
  "field_of Images m = images m"
| "field_of Documents m = documents m"
| "field_of Pdf m = pdf m"
| "field_of Media m = media m"
| "field_of Zips m = zips m"
| "field_of Programming m = programming m"
| "field_of Other m = other m"

primrec map_field :: "category \<Rightarrow> (dir_info \<Rightarrow> dir_info) \<Rightarrow> new_dirs_map \<Rightarrow> new_dirs_map" where
  "map_field Images f m = m\<lparr>images := f (images m)\<rparr>"
| "map_field Documents f m = m\<lparr>documents := f (documents m)\<rparr>"
| "map_field Pdf f m = m\<lparr>pdf := f (pdf m)\<rparr>"
| "map_field Media f m = m\<lparr>media := f (media m)\<rparr>"
| "map_field Zips f m = m\<lparr>zips := f (zips m)\<rparr>"
| "map_field Programming f m = m\<lparr>programming := f (programming m)\<rparr>"
| "map_field Other f m = m\<lparr>other := f (other m)\<rparr>"

definition all_categories :: "category list" where
  "all_categories = [Images, Documents, Pdf, Media, Zips, Programming, Other]"

subsection \<open>Fields of the plan\<close>

lemma field_of_map_field [simp]:
  "field_of c (map_field c' f m) = (if c = c' then f (field_of c m) else field_of c m)"
  by (cases c; cases c') simp_all

lemma dir_fields_categories: "dir_fields m = map (\<lambda>c. field_of c m) all_categories"
  by (simp add: dir_fields_def all_categories_def)

lemma all_categories_complete: "c \<in> set all_categories"
  by (cases c) (simp_all add: all_categories_def)

lemma distinct_all_categories: "distinct all_categories"
  by (simp add: all_categories_def)

lemma dir_name_inj: "dir_name c = dir_name c' \<longleftrightarrow> c = c'"
  by (cases c; cases c') (simp_all add: dir_consts)

lemma dir_name_good: "good_name (dir_name c)"
  by (cases c) (simp_all add: dir_consts good_name_def)

lemma is_excluded_iff [simp]: "is_excluded file es \<longleftrightarrow> fi_name file \<in> set es"
  by (induction es) auto

lemma foldl_append_copy: "foldl (\<lambda>acc x. acc @ [x]) acc xs = acc @ xs"
  by (induction xs arbitrary: acc) auto

lemma init_field:
  "field_of c (directory_map (initialize_file_handler cwd pwd ex)) =
     \<lparr>path = file_path_abs cwd pwd @ ''/'' @ dir_name c, files = []\<rparr>"
  by (cases c) (simp_all add: initialize_file_handler_def must_get_new_path_def Let_def)

lemma init_scalars:
  "raw_files (initialize_file_handler cwd pwd ex) = [] \<and>
   excluded (initialize_file_handler cwd pwd ex) = ex \<and>
   working_dir (initialize_file_handler cwd pwd ex) = file_path_abs cwd pwd"
  by (simp add: initialize_file_handler_def foldl_append_copy Let_def)

lemma init_child_components:
  "components (path (field_of c (directory_map (initialize_file_handler cwd pwd ex)))) =
     components (file_path_abs cwd pwd) @ [dir_name c]"
  using dir_name_good [of c] by (simp add: init_field components_child)

subsection \<open>Properties of the initial plan\<close>

text \<open>
  C21: \<open>InitializeFileHandler\<close> builds the plan of spec section 3: the fields, in the
  order of \<open>NewDirsMap\<close>, are the directories \<open>images\<close>, \<open>documents\<close>, \<open>pdf\<close>, \<open>media\<close>,
  \<open>zips\<close>, \<open>programming\<close> and \<open>other\<close> directly below the absolute working directory,
  each with no file; the working directory is \<open>filepath.Abs\<close> of the argument, no file
  has been scanned and the exclusion list is the caller's.
\<close>

theorem initialize_builds_empty_plan:
  "dir_fields (directory_map (initialize_file_handler cwd pwd ex)) =
     map (\<lambda>n. \<lparr>path = file_path_abs cwd pwd @ ''/'' @ n, files = []\<rparr>)
       [''images'', ''documents'', ''pdf'', ''media'', ''zips'', ''programming'', ''other''] \<and>
   working_dir (initialize_file_handler cwd pwd ex) = file_path_abs cwd pwd \<and>
   raw_files (initialize_file_handler cwd pwd ex) = [] \<and>
   excluded (initialize_file_handler cwd pwd ex) = ex"
  using init_scalars [of cwd pwd ex]
  by (simp add: dir_fields_categories all_categories_def init_field dir_consts)

text \<open>
  C22: The target directories of the plan are direct children of the working directory,
  one per category, and pairwise distinct as paths the kernel resolves (spec section 3).
\<close>

theorem plan_targets_distinct_children:
  "distinct (map (\<lambda>d. components (path d))
      (dir_fields (directory_map (initialize_file_handler cwd pwd ex)))) \<and>
   (\<forall>c. components (path (field_of c (directory_map (initialize_file_handler cwd pwd ex)))) =
          components (working_dir (initialize_file_handler cwd pwd ex)) @ [dir_name c])"
proof -
  let ?m = "directory_map (initialize_file_handler cwd pwd ex)"
  let ?w = "components (file_path_abs cwd pwd)"
  have "map (\<lambda>d. components (path d)) (dir_fields ?m) =
        map (\<lambda>c. ?w @ [dir_name c]) all_categories"
    by (simp add: dir_fields_categories init_child_components)
  moreover have "inj_on (\<lambda>c. ?w @ [dir_name c]) (set all_categories)"
    by (auto intro: inj_onI simp: dir_name_inj)
  ultimately have "distinct (map (\<lambda>d. components (path d)) (dir_fields ?m))"
    by (simp add: distinct_map distinct_all_categories)
  then show ?thesis using init_scalars [of cwd pwd ex] by (simp add: init_child_components)
qed

end
