(* ===== verification/Scan.thy ===== *)
theory Scan
  imports Handler
begin

text \<open>
  The Scan \& Classify Engine of \<open>src/tools/helpers/sort.go\<close>: \<open>FilterDirectories\<close>
  (lines 164--184) lists the working directory with \<open>os.ReadDir\<close>, keeps the entries
  that are not directories and records their \<open>FileInfo\<close>; \<open>SortFiles\<close> (lines
  136--162) appends every recorded file to the field of its category. Both panic on an
  error: the \<open>Inl\<close> of the result. \<open>scan_files\<close> and \<open>classify_into\<close> are the
  reference behaviour the two loops are proved to compute.
\<close>

fun collect_files :: "fs \<Rightarrow> path \<Rightarrow> (name \<times> node) list \<Rightarrow> file_info list \<Rightarrow> go_panic + file_info list" where
  "collect_files fs d [] acc = Inr acc"
| "collect_files fs d (obj # objs) acc =
     (if \<not> is_dir (snd obj) then
        (case entry_info fs d obj of
           Inl e \<Rightarrow> Inl (OsPanic e)
         | Inr info \<Rightarrow> collect_files fs d objs (acc @ [info]))
      else collect_files fs d objs acc)"

definition filter_directories :: "fs \<Rightarrow> file_handler \<Rightarrow> go_panic + file_handler" where
  "filter_directories fs fh =
     (case os_read_dir fs (working_dir fh) of
        Inl e \<Rightarrow> Inl (OsPanic e)
      | Inr files_and_folders \<Rightarrow>
          (case collect_files fs (working_dir fh) files_and_folders [] of
             Inl e \<Rightarrow> Inl e
           | Inr file_list \<Rightarrow> Inr (fh\<lparr>raw_files := file_list\<rparr>)))"

definition append_file :: "category \<Rightarrow> file_info \<Rightarrow> new_dirs_map \<Rightarrow> new_dirs_map" where
  "append_file c file m = map_field c (\<lambda>d. d\<lparr>files := files d @ [file]\<rparr>) m"

fun sort_files_loop :: "file_info list \<Rightarrow> new_dirs_map \<Rightarrow> go_panic + new_dirs_map" where
  "sort_files_loop [] m = Inr m"
| "sort_files_loop (file # rest) m =
     (case must_get_extension (fi_name file) of
        None \<Rightarrow> Inl SliceBoundsOutOfRange
      | Some ext \<Rightarrow> sort_files_loop rest (append_file (sort_category ext) file m))"

definition sort_files :: "file_handler \<Rightarrow> go_panic + file_handler" where
  "sort_files fh =
     (case sort_files_loop (raw_files fh) (directory_map fh) of
        Inl e \<Rightarrow> Inl e
      | Inr m \<Rightarrow> Inr (fh\<lparr>directory_map := m\<rparr>))"

text \<open>Reference behaviour: the non-directory entries in listing order, and the plan
  that the spec's classification builds from a list of files.\<close>

definition scan_files :: "fs \<Rightarrow> path \<Rightarrow> file_info list" where
  "scan_files fs d =
     map (\<lambda>(n, nd). \<lparr>fi_name = n, fi_mode = mode_of nd\<rparr>)
       (filter (\<lambda>(n, nd). \<not> is_dir nd) (dir_entries fs (components d)))"

definition classify_into :: "file_info list \<Rightarrow> new_dirs_map \<Rightarrow> new_dirs_map" where
  "classify_into xs m = fold (\<lambda>f. append_file (classify (fi_name f)) f) xs m"

text \<open>A working directory \<open>/w\<close> with two files, a subdirectory and a symbolic link.\<close>

definition example_fs :: fs where
  "example_fs =
     [([], Dir True True), ([''w''], Dir True True), ([''w'', ''b.txt''], Reg ''notes''),
      ([''w'', ''sub''], Dir True True), ([''w'', ''a.png''], Reg ''pixels''),
      ([''w'', ''ln''], Symlink ''sub'')]"

text \<open>A working directory \<open>/ln\<close> that is a symbolic link to the directory \<open>/real\<close>.\<close>

definition link_fs :: fs where
  "link_fs =
     [([], Dir True True), ([''real''], Dir True True), ([''real'', ''a.png''], Reg ''pixels''),
      ([''ln''], Symlink ''/real'')]"

subsection \<open>FilterDirectories\<close>

lemma collect_files_ok:
  "(\<And>obj. obj \<in> set objs \<Longrightarrow> \<not> is_dir (snd obj) \<Longrightarrow> entry_info fs d obj = Inr (info obj)) \<Longrightarrow>
   collect_files fs d objs acc = Inr (acc @ map info (filter (\<lambda>obj. \<not> is_dir (snd obj)) objs))"
  by (induction objs arbitrary: acc) auto

lemma filter_directories_ok:
  assumes wf: "wf_fs fs" and d: "map_of fs (components (working_dir fh)) = Some (Dir True w)"
  shows "filter_directories fs fh = Inr (fh\<lparr>raw_files := scan_files fs (working_dir fh)\<rparr>)"
proof -
  let ?d = "working_dir fh"
  let ?info = "\<lambda>obj. \<lparr>fi_name = fst obj, fi_mode = mode_of (snd obj)\<rparr>"
  have "collect_files fs ?d (dir_entries fs (components ?d)) [] =
        Inr ([] @ map ?info (filter (\<lambda>obj. \<not> is_dir (snd obj)) (dir_entries fs (components ?d))))"
    by (rule collect_files_ok) (use entry_info_ok [OF wf] in force)
  moreover have "map ?info (filter (\<lambda>obj. \<not> is_dir (snd obj)) (dir_entries fs (components ?d))) =
                 scan_files fs ?d"
    by (simp add: scan_files_def case_prod_unfold)
  ultimately show ?thesis
    using os_read_dir_ok [OF wf d] by (simp add: filter_directories_def)
qed

text \<open>The same on a working directory reached through symbolic links: the listing is
  that of the directory the path resolves to.\<close>

lemma filter_directories_below:
  assumes wf: "wf_fs fs" and d: "lookup True fs (working_dir fh) = Inr (k, Dir True w)"
  shows "filter_directories fs fh =
           Inr (fh\<lparr>raw_files := map (\<lambda>(n, nd). \<lparr>fi_name = n, fi_mode = mode_of nd\<rparr>)
                                 (filter (\<lambda>(n, nd). \<not> is_dir nd) (dir_entries fs k))\<rparr>)"
proof -
  let ?d = "working_dir fh"
  let ?info = "\<lambda>obj. \<lparr>fi_name = fst obj, fi_mode = mode_of (snd obj)\<rparr>"
  from d have wk: "walk max_symlinks True fs [] (components ?d) = Inr k"
    and mk: "map_of fs k = Some (Dir True w)"
    by (auto simp: lookup_def split: sum.splits option.splits)
  have dk: "is_dir_at fs k" using mk by (simp add: is_dir_at_def)
  have "collect_files fs ?d (dir_entries fs k) [] =
        Inr ([] @ map ?info (filter (\<lambda>obj. \<not> is_dir (snd obj)) (dir_entries fs k)))"
    by (rule collect_files_ok) (use entry_info_below [OF wf wk dk] in force)
  then show ?thesis using d by (simp add: filter_directories_def os_read_dir_def case_prod_unfold)
qed

lemma scan_files_names:
  "map fi_name (scan_files fs d) =
     map fst (filter (\<lambda>(n, nd). \<not> is_dir nd) (dir_entries fs (components d)))"
  by (simp add: scan_files_def case_prod_unfold)

lemma scan_files_sorted_distinct:
  "wf_fs fs \<Longrightarrow> sorted (map fi_name (scan_files fs d)) \<and> distinct (map fi_name (scan_files fs d))"
  unfolding scan_files_names
  using dir_entries_sorted [of fs "components d"] dir_entries_distinct [of fs "components d"]
  by (simp add: sorted_filter distinct_map_filter)

lemma scan_files_member:
  assumes wf: "wf_fs fs" and f: "f \<in> set (scan_files fs d)"
  shows "\<exists>nd. map_of fs (components d @ [fi_name f]) = Some nd \<and> \<not> is_dir nd \<and>
              fi_mode f = mode_of nd \<and> good_name (fi_name f)"
  using f dir_entries_member [OF wf] by (auto simp: scan_files_def)

lemma scan_files_complete:
  "map_of fs (components d @ [n]) = Some nd \<Longrightarrow> \<not> is_dir nd \<Longrightarrow>
   \<lparr>fi_name = n, fi_mode = mode_of nd\<rparr> \<in> set (scan_files fs d)"
  by (force simp: scan_files_def dest: dir_entries_complete)

subsection \<open>SortFiles\<close>

lemma sort_files_loop_eq: "sort_files_loop xs m = Inr (classify_into xs m)"
  by (induction xs arbitrary: m)
     (simp_all add: classify_into_def must_get_extension_eq sort_category_suffix)

lemma classify_into_field:
  "field_of c (classify_into xs m) =
     (field_of c m)\<lparr>files := files (field_of c m) @ filter (\<lambda>f. classify (fi_name f) = c) xs\<rparr>"
  by (induction xs arbitrary: m) (auto simp: classify_into_def append_file_def)

lemma sort_files_eq: "sort_files fh = Inr (fh\<lparr>directory_map := classify_into (raw_files fh) (directory_map fh)\<rparr>)"
  by (simp add: sort_files_def sort_files_loop_eq)

subsection \<open>Properties of the scan\<close>

text \<open>
  C8: \<open>FilterDirectories\<close> on a readable working directory records exactly the entries
  that are not directories (regular files and symbolic links alike), in the sorted
  order of \<open>os.ReadDir\<close>, each name once.
\<close>

theorem filter_directories_lists_non_directories:
  assumes wf: "wf_fs fs" and d: "map_of fs (components (working_dir fh)) = Some (Dir True w)"
  shows "\<exists>file_list. filter_directories fs fh = Inr (fh\<lparr>raw_files := file_list\<rparr>) \<and>
           sorted (map fi_name file_list) \<and> distinct (map fi_name file_list) \<and>
           (\<forall>n. n \<in> fi_name ` set file_list \<longleftrightarrow>
                (\<exists>nd. map_of fs (components (working_dir fh) @ [n]) = Some nd \<and> \<not> is_dir nd))"
proof -
  let ?d = "working_dir fh"
  let ?fl = "scan_files fs ?d"
  have complete: "n \<in> fi_name ` set ?fl"
    if "map_of fs (components ?d @ [n]) = Some nd" "\<not> is_dir nd" for n nd
  proof -
    from that have "(n, nd) \<in> set (filter (\<lambda>(n, nd). \<not> is_dir nd) (dir_entries fs (components ?d)))"
      by (simp add: dir_entries_complete)
    then have "n \<in> set (map fi_name ?fl)"
      unfolding scan_files_names by force
    then show ?thesis by simp
  qed
  have sound: "\<exists>nd. map_of fs (components ?d @ [n]) = Some nd \<and> \<not> is_dir nd"
    if "n \<in> fi_name ` set ?fl" for n
  proof -
    from that obtain f where "f \<in> set ?fl" "n = fi_name f" by blast
    with scan_files_member [OF wf] show ?thesis by blast
  qed
  have "filter_directories fs fh = Inr (fh\<lparr>raw_files := ?fl\<rparr>)"
    by (rule filter_directories_ok [OF wf d])
  moreover note scan_files_sorted_distinct [OF wf, of ?d]
  moreover have "\<forall>n. n \<in> fi_name ` set ?fl \<longleftrightarrow>
                 (\<exists>nd. map_of fs (components ?d @ [n]) = Some nd \<and> \<not> is_dir nd)"
    using complete sound by blast
  ultimately show ?thesis by blast
qed

theorem filter_directories_lists_non_directories_witness:
  "wf_fs example_fs \<and>
   map_of example_fs (components (working_dir (initialize_file_handler ''/'' ''w'' []))) =
     Some (Dir True True) \<and>
   filter_directories example_fs (initialize_file_handler ''/'' ''w'' []) =
     Inr ((initialize_file_handler ''/'' ''w'' [])\<lparr>raw_files :=
       [\<lparr>fi_name = ''a.png'', fi_mode = ModeRegular\<rparr>, \<lparr>fi_name = ''b.txt'', fi_mode = ModeRegular\<rparr>,
        \<lparr>fi_name = ''ln'', fi_mode = ModeSymlink\<rparr>]\<rparr>) \<and>
   (\<exists>file_list. filter_directories example_fs (initialize_file_handler ''/'' ''w'' []) =
        Inr ((initialize_file_handler ''/'' ''w'' [])\<lparr>raw_files := file_list\<rparr>) \<and>
      sorted (map fi_name file_list) \<and> distinct (map fi_name file_list) \<and>
      (\<forall>n. n \<in> fi_name ` set file_list \<longleftrightarrow>
         (\<exists>nd. map_of example_fs (components ''/w'' @ [n]) = Some nd \<and> \<not> is_dir nd)))"
proof -
  have wf: "wf_fs example_fs" by (simp add: example_fs_def fs_eval)
  have wd: "working_dir (initialize_file_handler ''/'' ''w'' []) = ''/w''"
    by (simp add: init_scalars file_path_abs_def clean_rooted_def fs_eval)
  have d: "map_of example_fs (components (working_dir (initialize_file_handler ''/'' ''w'' []))) =
           Some (Dir True True)"
    by (simp add: wd example_fs_def fs_eval)
  have run: "filter_directories example_fs (initialize_file_handler ''/'' ''w'' []) =
     Inr ((initialize_file_handler ''/'' ''w'' [])\<lparr>raw_files :=
       [\<lparr>fi_name = ''a.png'', fi_mode = ModeRegular\<rparr>, \<lparr>fi_name = ''b.txt'', fi_mode = ModeRegular\<rparr>,
        \<lparr>fi_name = ''ln'', fi_mode = ModeSymlink\<rparr>]\<rparr>)"
    unfolding filter_directories_ok [OF wf d] by (simp add: wd scan_files_def example_fs_def fs_eval)
  show ?thesis
    using wf d run filter_directories_lists_non_directories [OF wf d] by (simp add: wd)
qed

text \<open>
  C12: \<open>FilterDirectories\<close> panics exactly when the working directory does not resolve,
  following symbolic links as the kernel does, to a readable directory (it is missing,
  unreadable, not a directory, or a chain of more than 40 links), and the panic is the
  \<open>PathError\<close> of \<open>os.ReadDir\<close> on the working directory: \<open>DirEntry.Info\<close> never
  fails in a run that is not interleaved with other processes.
\<close>

theorem filter_directories_error:
  assumes wf: "wf_fs fs"
  shows "((\<exists>e. filter_directories fs fh = Inl e) \<longleftrightarrow>
            (\<nexists>k w. lookup True fs (working_dir fh) = Inr (k, Dir True w))) \<and>
         (\<forall>e. filter_directories fs fh = Inl e \<longrightarrow>
            (\<exists>op err. e = OsPanic (PathError op (working_dir fh) err)))"
proof (cases "lookup True fs (working_dir fh)")
  case (Inl e)
  then show ?thesis by (simp add: filter_directories_def os_read_dir_def)
next
  case (Inr r)
  then obtain k nd where r: "lookup True fs (working_dir fh) = Inr (k, nd)" by (cases r) auto
  show ?thesis
  proof (cases nd)
    case (Dir rd w)
    show ?thesis
    proof (cases rd)
      case True
      with r Dir show ?thesis by (simp add: filter_directories_below [OF wf])
    next
      case False
      with r Dir show ?thesis by (simp add: filter_directories_def os_read_dir_def)
    qed
  next
    case (Reg x)
    with r show ?thesis by (simp add: filter_directories_def os_read_dir_def)
  next
    case (Symlink x)
    with r show ?thesis by (simp add: filter_directories_def os_read_dir_def)
  qed
qed

theorem filter_directories_error_witness:
  "wf_fs link_fs \<and> lookup True link_fs ''/ln'' = Inr ([''real''], Dir True True) \<and>
   \<not> (\<exists>e. filter_directories link_fs (initialize_file_handler ''/'' ''/ln'' []) = Inl e)"
proof -
  have wf: "wf_fs link_fs" by (simp add: link_fs_def fs_eval)
  have wd: "working_dir (initialize_file_handler ''/'' ''/ln'' []) = ''/ln''"
    by (simp add: init_scalars file_path_abs_def clean_rooted_def fs_eval)
  have l: "lookup True link_fs ''/ln'' = Inr ([''real''], Dir True True)"
    by (simp add: link_fs_def fs_eval)
  show ?thesis
    using wf l filter_directories_error [OF wf, of "initialize_file_handler ''/'' ''/ln'' []"]
    by (simp add: wd) blast
qed

text \<open>
  C20: \<open>SortFiles\<close> never panics and appends every recorded file, in scan order, to the
  field of the category the spec's rule table gives its name; the target paths are
  unchanged.
\<close>

theorem sort_files_appends_by_category:
  "\<exists>m'. sort_files fh = Inr (fh\<lparr>directory_map := m'\<rparr>) \<and>
     (\<forall>c. path (field_of c m') = path (field_of c (directory_map fh)) \<and>
          files (field_of c m') =
            files (field_of c (directory_map fh)) @ filter (\<lambda>f. classify (fi_name f) = c) (raw_files fh))"
  using sort_files_eq [of fh] by (auto simp: classify_into_field)

text \<open>
  C6: Starting from the empty plan of \<open>InitializeFileHandler\<close>, \<open>SortFiles\<close> partitions
  the scanned files: the seven lists together are a permutation of the scanned files, and
  a file is in the list of a category exactly when it was scanned and has that category.
\<close>

theorem sort_files_partition:
  assumes empty: "\<forall>c. files (field_of c (directory_map fh)) = []"
    and ok: "sort_files fh = Inr fh'"
  shows "mset (concat (map files (dir_fields (directory_map fh')))) = mset (raw_files fh) \<and>
         (\<forall>f c. f \<in> set (files (field_of c (directory_map fh'))) \<longleftrightarrow>
                f \<in> set (raw_files fh) \<and> classify (fi_name f) = c)"
proof -
  let ?g = "\<lambda>f. classify (fi_name f)"
  from ok have fh': "directory_map fh' = classify_into (raw_files fh) (directory_map fh)"
    by (auto simp: sort_files_eq)
  have lists: "files (field_of c (directory_map fh')) = filter (\<lambda>f. ?g f = c) (raw_files fh)" for c
    using empty by (simp add: fh' classify_into_field)
  have "map files (dir_fields (directory_map fh')) =
        map (\<lambda>c. filter (\<lambda>f. ?g f = c) (raw_files fh)) all_categories"
    by (simp add: dir_fields_categories lists)
  then have "mset (concat (map files (dir_fields (directory_map fh')))) =
             mset (filter (\<lambda>f. ?g f \<in> set all_categories) (raw_files fh))"
    by (simp add: mset_concat_filter_partition distinct_all_categories)
  also have "\<dots> = mset (raw_files fh)"
    by (simp add: all_categories_complete)
  finally show ?thesis by (simp add: lists)
qed

theorem sort_files_partition_witness:
  "(\<forall>c. files (field_of c (directory_map ((initialize_file_handler ''/'' ''w'' [])
       \<lparr>raw_files := [\<lparr>fi_name = ''a.png'', fi_mode = ModeRegular\<rparr>,
                        \<lparr>fi_name = ''c.unknown'', fi_mode = ModeRegular\<rparr>]\<rparr>))) = []) \<and>
   sort_files ((initialize_file_handler ''/'' ''w'' [])
       \<lparr>raw_files := [\<lparr>fi_name = ''a.png'', fi_mode = ModeRegular\<rparr>,
                        \<lparr>fi_name = ''c.unknown'', fi_mode = ModeRegular\<rparr>]\<rparr>) =
     Inr ((initialize_file_handler ''/'' ''w'' [])
       \<lparr>raw_files := [\<lparr>fi_name = ''a.png'', fi_mode = ModeRegular\<rparr>,
                        \<lparr>fi_name = ''c.unknown'', fi_mode = ModeRegular\<rparr>],
        directory_map := classify_into
          [\<lparr>fi_name = ''a.png'', fi_mode = ModeRegular\<rparr>, \<lparr>fi_name = ''c.unknown'', fi_mode = ModeRegular\<rparr>]
          (directory_map (initialize_file_handler ''/'' ''w'' []))\<rparr>) \<and>
   mset (concat (map files (dir_fields (classify_into
          [\<lparr>fi_name = ''a.png'', fi_mode = ModeRegular\<rparr>, \<lparr>fi_name = ''c.unknown'', fi_mode = ModeRegular\<rparr>]
          (directory_map (initialize_file_handler ''/'' ''w'' [])))))) =
     mset [\<lparr>fi_name = ''a.png'', fi_mode = ModeRegular\<rparr>, \<lparr>fi_name = ''c.unknown'', fi_mode = ModeRegular\<rparr>]"
proof -
  let ?fs = "[\<lparr>fi_name = ''a.png'', fi_mode = ModeRegular\<rparr>, \<lparr>fi_name = ''c.unknown'', fi_mode = ModeRegular\<rparr>]"
  let ?fh = "(initialize_file_handler ''/'' ''w'' [])\<lparr>raw_files := ?fs\<rparr>"
  have empty: "\<forall>c. files (field_of c (directory_map ?fh)) = []"
    by (simp add: init_field)
  have ok: "sort_files ?fh = Inr (?fh\<lparr>directory_map := classify_into ?fs (directory_map ?fh)\<rparr>)"
    by (simp add: sort_files_eq)
  from sort_files_partition [OF empty ok] empty ok show ?thesis by simp
qed

end
