(* ===== verification/DryRun.thy ===== *)
theory DryRun
  imports Scan
begin

text \<open>
  The Dry Run executor of \<open>src/tools/helpers/sort.go\<close>: \<open>DryRun\<close> (lines 186--262)
  walks the fields of the plan in declaration order and each field's files in insertion
  order, routes excluded files to a separate listing and the others to a row with the
  field's directory; it then writes the rows through a \<open>text/tabwriter\<close> with the file
  names shortened by \<open>ellipsis\<close> (lines 316--321) and followed by the arrow of
  \<open>constructArrow\<close> (lines 323--330). The model keeps the lines as they are written
  to the tab writer; the column alignment the writer adds when it flushes to standard
  output is display formatting and is not modelled (spec section 1).
\<close>

record dr_output_columns =
  file_name :: string
  new_dir :: string

definition ellipsis :: "string \<Rightarrow> int \<Rightarrow> string option" where
  "ellipsis s max_length =
     (if int (length s) > max_length
      then map_option (\<lambda>t. t @ ''...'') (go_slice s 0 max_length)
      else Some s)"

definition construct_arrow :: "string \<Rightarrow> string option" where
  "construct_arrow filename =
     (let arrow = ''-->'';
          spaces_needed = 70 - int (length filename) - int (length arrow);
          spaces_needed = (if spaces_needed < 0 then 0 else spaces_needed)
      in map_option (\<lambda>r. r @ arrow) (go_repeat ''-'' spaces_needed))"

definition dry_run_step ::
  "string list \<Rightarrow> dir_info \<Rightarrow> file_info \<Rightarrow> dr_output_columns list \<times> string list \<Rightarrow>
   dr_output_columns list \<times> string list" where
  "dry_run_step excl dir_info file acc =
     (if is_excluded file excl then (fst acc, snd acc @ [fi_name file])
      else (fst acc @ [\<lparr>file_name = fi_name file, new_dir = path dir_info\<rparr>], snd acc))"

definition dry_run_plan :: "file_handler \<Rightarrow> dr_output_columns list \<times> string list" where
  "dry_run_plan fh =
     fold (\<lambda>dir_info acc. fold (dry_run_step (excluded fh) dir_info) (files dir_info) acc)
       (dir_fields (directory_map fh)) ([], [])"

fun dry_run_rows :: "dr_output_columns list \<Rightarrow> go_panic + string list" where
  "dry_run_rows [] = Inr []"
| "dry_run_rows (file # rest) =
     (case ellipsis (file_name file) 60 of
        None \<Rightarrow> Inl SliceBoundsOutOfRange
      | Some ellipsis_filename \<Rightarrow>
          (case construct_arrow ellipsis_filename of
             None \<Rightarrow> Inl NegativeRepeatCount
           | Some arrow_tail \<Rightarrow>
               (case dry_run_rows rest of
                  Inl e \<Rightarrow> Inl e
                | Inr lines \<Rightarrow>
                    Inr ((ellipsis_filename @ '' '' @ arrow_tail @ '' '' @ [CHR 0x09] @
                          new_dir file @ [CHR 0x09]) # lines))))"

fun dry_run_excluded_rows :: "string list \<Rightarrow> go_panic + string list" where
  "dry_run_excluded_rows [] = Inr []"
| "dry_run_excluded_rows (name # rest) =
     (case ellipsis name 60 of
        None \<Rightarrow> Inl SliceBoundsOutOfRange
      | Some ellipsis_filename \<Rightarrow>
          (case dry_run_excluded_rows rest of
             Inl e \<Rightarrow> Inl e
           | Inr lines \<Rightarrow> Inr (ellipsis_filename # lines)))"

text \<open>
  \<open>DryRun\<close>: two lines printed directly, then everything written to the tab writer,
  which reaches standard output at \<open>Flush\<close>; a panic before the flush loses the
  buffered table. The bold and reset escapes are \<open>ESC [1m\<close> and \<open>ESC [0m\<close>.
\<close>

definition dry_run :: "file_handler \<Rightarrow> world \<Rightarrow> (go_panic \<times> world) + world" where
  "dry_run fh w =
     (let w = println '''' (println ''Dry run mode'' w);
          bold = CHR 0x1B # ''[1m''; reset = CHR 0x1B # ''[0m'';
          (rows, excluded_files) = dry_run_plan fh
      in case dry_run_rows rows of
           Inl e \<Rightarrow> Inl (e, w)
         | Inr row_lines \<Rightarrow>
             (case dry_run_excluded_rows excluded_files of
                Inl e \<Rightarrow> Inl (e, w)
              | Inr excluded_lines \<Rightarrow>
                  Inr (w\<lparr>w_out := w_out w @
                    ['' File Name '' @ [CHR 0x09] @ '' New Directory '' @ [CHR 0x09],
                     ''-----------'' @ [CHR 0x09] @ ''---------------'' @ [CHR 0x09]] @
                    row_lines @
                    ['''', bold @ ''Excluded Files'' @ reset @ [CHR 0x09, CHR 0x09], '''',
                     '' File Name'', ''-----------''] @
                    excluded_lines\<rparr>)))"

subsection \<open>ellipsis and constructArrow\<close>

lemma ellipsis_eq:
  "0 \<le> max_length \<Longrightarrow>
   ellipsis s max_length =
     Some (if int (length s) > max_length then take (nat max_length) s @ ''...'' else s)"
  by (simp add: ellipsis_def go_slice_prefix_Some)

lemma construct_arrow_eq:
  "construct_arrow filename = Some (replicate (67 - length filename) CHR ''-'' @ ''-->'')"
  by (simp add: construct_arrow_def Let_def concat_replicate_single nat_diff_distrib')

lemma dry_run_rows_eq:
  "dry_run_rows rows =
     Inr (map (\<lambda>r. (if 60 < length (file_name r) then take 60 (file_name r) @ ''...'' else file_name r) @
                   '' '' @ replicate (67 - length (if 60 < length (file_name r)
                                                   then take 60 (file_name r) @ ''...''
                                                   else file_name r)) CHR ''-'' @ ''-->'' @
                   '' '' @ [CHR 0x09] @ new_dir r @ [CHR 0x09]) rows)"
  by (induction rows) (simp_all add: ellipsis_eq construct_arrow_eq)

lemma dry_run_excluded_rows_eq:
  "dry_run_excluded_rows names =
     Inr (map (\<lambda>n. if 60 < length n then take 60 n @ ''...'' else n) names)"
  by (induction names) (simp_all add: ellipsis_eq)

subsection \<open>The rows of the dry run\<close>

lemma fold_dry_run_step:
  "fold (dry_run_step excl d) fs acc =
     (fst acc @ map (\<lambda>f. \<lparr>file_name = fi_name f, new_dir = path d\<rparr>)
                  (filter (\<lambda>f. fi_name f \<notin> set excl) fs),
      snd acc @ map fi_name (filter (\<lambda>f. fi_name f \<in> set excl) fs))"
  by (induction fs arbitrary: acc) (auto simp: dry_run_step_def)

lemma fold_dry_run_fields:
  "fold (\<lambda>d acc. fold (dry_run_step excl d) (files d) acc) ds acc =
     (fst acc @ concat (map (\<lambda>d. map (\<lambda>f. \<lparr>file_name = fi_name f, new_dir = path d\<rparr>)
                                   (filter (\<lambda>f. fi_name f \<notin> set excl) (files d))) ds),
      snd acc @ concat (map (\<lambda>d. map fi_name (filter (\<lambda>f. fi_name f \<in> set excl) (files d))) ds))"
  by (induction ds arbitrary: acc) (simp_all add: fold_dry_run_step)

lemma dry_run_plan_eq:
  "dry_run_plan fh =
     (concat (map (\<lambda>d. map (\<lambda>f. \<lparr>file_name = fi_name f, new_dir = path d\<rparr>)
                          (filter (\<lambda>f. fi_name f \<notin> set (excluded fh)) (files d)))
                  (dir_fields (directory_map fh))),
      concat (map (\<lambda>d. map fi_name (filter (\<lambda>f. fi_name f \<in> set (excluded fh)) (files d)))
                  (dir_fields (directory_map fh))))"
  by (simp add: dry_run_plan_def fold_dry_run_fields)

subsection \<open>Properties of the dry run\<close>

text \<open>
  C23: \<open>constructArrow\<close> never panics: the clamp of the dash count at zero keeps the
  argument of \<open>strings.Repeat\<close> non-negative, and the arrow is \<open>max 3 (70 - len)\<close>
  characters long, dashes ending in \<open>--\<gt>\<close>.
\<close>

theorem construct_arrow_bounds:
  "\<exists>a. construct_arrow filename = Some a \<and> length a = max 3 (70 - length filename) \<and>
       a = replicate (length a - 3) CHR ''-'' @ ''-->''"
  by (simp add: construct_arrow_eq max_def; arith)

text \<open>
  C24: \<open>ellipsis(s, 60)\<close> never panics, its result has at most 63 characters, it keeps a
  name of at most 60 characters and shortens a longer one to its first 60 followed by
  three dots.
\<close>

theorem ellipsis_bounds:
  "\<exists>t. ellipsis s 60 = Some t \<and> length t \<le> 63 \<and>
       (length s \<le> 60 \<longrightarrow> t = s) \<and> (60 < length s \<longrightarrow> t = take 60 s @ ''...'')"
  by (simp add: ellipsis_eq)

theorem ellipsis_bounds_witness:
  "\<exists>t. ellipsis (replicate 70 CHR ''a'') 60 = Some t \<and> length t \<le> 63 \<and>
       t = replicate 60 CHR ''a'' @ ''...''"
  using ellipsis_bounds [of "replicate 70 CHR ''a''"] by auto

text \<open>
  C16: The dry run splits the planned files into the table and the excluded listing: no
  row names an excluded file, every name in the excluded listing is excluded, and
  together they list every file of the plan once, in category-then-insertion order.
\<close>

theorem dry_run_plan_exclusion:
  "(\<forall>r \<in> set (fst (dry_run_plan fh)). file_name r \<notin> set (excluded fh)) \<and>
   set (snd (dry_run_plan fh)) \<subseteq> set (excluded fh) \<and>
   mset (map file_name (fst (dry_run_plan fh)) @ snd (dry_run_plan fh)) =
     mset (map fi_name (concat (map files (dir_fields (directory_map fh)))))"
proof -
  let ?ds = "dir_fields (directory_map fh)" and ?ex = "set (excluded fh)"
  have rows: "map file_name (fst (dry_run_plan fh)) =
              concat (map (\<lambda>d. filter (\<lambda>n. n \<notin> ?ex) (map fi_name (files d))) ?ds)"
    by (simp add: dry_run_plan_eq map_concat comp_def filter_map)
  have excl: "snd (dry_run_plan fh) =
              concat (map (\<lambda>d. filter (\<lambda>n. n \<in> ?ex) (map fi_name (files d))) ?ds)"
    by (simp add: dry_run_plan_eq comp_def filter_map)
  have "mset (map file_name (fst (dry_run_plan fh)) @ snd (dry_run_plan fh)) =
        mset (concat (map (\<lambda>d. filter (\<lambda>n. n \<notin> ?ex) (map fi_name (files d)) @
                                 filter (\<lambda>n. n \<in> ?ex) (map fi_name (files d))) ?ds))"
    unfolding rows excl by (rule mset_concat_map_append)
  also have "\<dots> = mset (concat (map (\<lambda>d. map fi_name (files d)) ?ds))"
    by (simp add: mset_concat mset_filter_split comp_def del: mset_append)
  also have "\<dots> = mset (map fi_name (concat (map files ?ds)))"
    by (simp add: map_concat comp_def)
  finally have counts: "mset (map file_name (fst (dry_run_plan fh)) @ snd (dry_run_plan fh)) =
                        mset (map fi_name (concat (map files ?ds)))" .
  have no_excluded: "file_name r \<notin> ?ex" if "r \<in> set (fst (dry_run_plan fh))" for r
  proof -
    from that have "file_name r \<in> set (map file_name (fst (dry_run_plan fh)))" by simp
    then show ?thesis unfolding rows by auto
  qed
  have "set (snd (dry_run_plan fh)) \<subseteq> ?ex" unfolding excl by auto
  with no_excluded counts show ?thesis by blast
qed

lemma dry_run_out: "\<exists>out. dry_run fh w = Inr (w\<lparr>w_out := w_out w @ [''Dry run mode'', ''''] @ out\<rparr>)"
  by (simp add: dry_run_def dry_run_rows_eq dry_run_excluded_rows_eq println_def case_prod_beta Let_def)
    (rule exI, rule refl)

text \<open>
  C17: The dry run never panics and never touches the file system: it only appends
  lines to standard output.
\<close>

theorem dry_run_no_mutation:
  "\<exists>w'. dry_run fh w = Inr w' \<and> w_fs w' = w_fs w \<and> (\<exists>out. w_out w' = w_out w @ out)"
  by (simp add: dry_run_def dry_run_rows_eq dry_run_excluded_rows_eq println_def case_prod_beta Let_def)

end
