(* ===== verification/Move.thy ===== *)
theory Move
  imports DryRun
begin

text \<open>
  The Move executor of \<open>src/tools/helpers/sort.go\<close>: \<open>MoveFiles\<close> (lines 264--306)
  walks the fields of the plan in declaration order; for each it stats the target
  directory, creates it when \<open>os.IsNotExist\<close> holds of the error (and otherwise
  reports that it exists), then renames every file of the field that is not excluded
  from the working directory into the target. Every error panics: the result is
  \<open>Inl\<close> of the panic and of the world at that moment, with all earlier effects kept.
  \<open>move_spec\<close> is the abstract specification of a run that does not panic, on the
  map view of the file system.
\<close>

definition ensure_dir :: "dir_info \<Rightarrow> world \<Rightarrow> (go_panic \<times> world) + world" where
  "ensure_dir dir_info w =
     (case os_stat (w_fs w) (path dir_info) of
        Inl err \<Rightarrow>
          (if os_is_not_exist err then
             (let w = println (''Creating directory: '' @ path dir_info) w in
              case os_mkdir (w_fs w) (path dir_info) of
                Inl e \<Rightarrow> Inl (OsPanic e, w)
              | Inr fs' \<Rightarrow> Inr (w\<lparr>w_fs := fs'\<rparr>))
           else Inr (println (''Directory already exists: '' @ path dir_info) w))
      | Inr _ \<Rightarrow> Inr (println (''Directory already exists: '' @ path dir_info) w))"

fun move_dir_files ::
  "path \<Rightarrow> string list \<Rightarrow> dir_info \<Rightarrow> file_info list \<Rightarrow> world \<Rightarrow> (go_panic \<times> world) + world" where
  "move_dir_files wd excl dir_info [] w = Inr w"
| "move_dir_files wd excl dir_info (file # rest) w =
     (if is_excluded file excl then move_dir_files wd excl dir_info rest w
      else
        (let new_path = path dir_info @ ''/'' @ fi_name file;
             old_path = wd @ ''/'' @ fi_name file;
             w = println (''Moving file: '' @ old_path @ '' --> '' @ new_path) w
         in case os_rename (w_fs w) old_path new_path of
              Inl e \<Rightarrow> Inl (OsPanic e, w)
            | Inr fs' \<Rightarrow> move_dir_files wd excl dir_info rest (w\<lparr>w_fs := fs'\<rparr>)))"

fun move_fields :: "path \<Rightarrow> string list \<Rightarrow> dir_info list \<Rightarrow> world \<Rightarrow> (go_panic \<times> world) + world" where
  "move_fields wd excl [] w = Inr w"
| "move_fields wd excl (dir_info # rest) w =
     (case ensure_dir dir_info w of
        Inl e \<Rightarrow> Inl e
      | Inr w \<Rightarrow>
          (case move_dir_files wd excl dir_info (files dir_info) w of
             Inl e \<Rightarrow> Inl e
           | Inr w \<Rightarrow> move_fields wd excl rest w))"

definition move_files :: "file_handler \<Rightarrow> world \<Rightarrow> (go_panic \<times> world) + world" where
  "move_files fh w = move_fields (working_dir fh) (excluded fh) (dir_fields (directory_map fh)) w"

subsection \<open>Abstract specification\<close>

text \<open>
  A run that does not panic, on the map view: each target directory is created if
  absent, then each file of its field that is not excluded leaves the working
  directory \<open>K\<close> for the target \<open>T\<close>, keeping its node.
\<close>

definition ensure_dir_spec :: "string list \<Rightarrow> (string list \<rightharpoonup> node) \<Rightarrow> (string list \<rightharpoonup> node)" where
  "ensure_dir_spec t m = (if m t = None then m(t \<mapsto> Dir True True) else m)"

definition move_file_spec ::
  "string list \<Rightarrow> string list \<Rightarrow> name \<Rightarrow> (string list \<rightharpoonup> node) \<Rightarrow> (string list \<rightharpoonup> node)" where
  "move_file_spec k t n m = m(k @ [n] := None, t @ [n] := m (k @ [n]))"

definition move_dir_spec ::
  "string list \<Rightarrow> string list \<Rightarrow> string list \<Rightarrow> file_info list \<Rightarrow>
   (string list \<rightharpoonup> node) \<Rightarrow> (string list \<rightharpoonup> node)" where
  "move_dir_spec k excl t fl m =
     fold (\<lambda>f m. if fi_name f \<in> set excl then m else move_file_spec k t (fi_name f) m) fl m"

fun move_spec ::
  "string list \<Rightarrow> string list \<Rightarrow> dir_info list \<Rightarrow> (string list \<rightharpoonup> node) \<Rightarrow> (string list \<rightharpoonup> node)" where
  "move_spec k excl [] m = m"
| "move_spec k excl (d # ds) m =
     move_spec k excl ds
       (move_dir_spec k excl (components (path d)) (files d) (ensure_dir_spec (components (path d)) m))"

text \<open>The progress messages of a run that does not panic, in the order they are printed.\<close>

definition ensure_line :: "(string list \<rightharpoonup> node) \<Rightarrow> dir_info \<Rightarrow> string" where
  "ensure_line m d =
     (if m (components (path d)) = None then ''Creating directory: '' @ path d
      else ''Directory already exists: '' @ path d)"

definition moving_line :: "path \<Rightarrow> dir_info \<Rightarrow> file_info \<Rightarrow> string" where
  "moving_line wd d f = ''Moving file: '' @ (wd @ ''/'' @ fi_name f) @ '' --> '' @ (path d @ ''/'' @ fi_name f)"

definition move_log :: "(string list \<rightharpoonup> node) \<Rightarrow> path \<Rightarrow> string list \<Rightarrow> dir_info list \<Rightarrow> string list" where
  "move_log m wd excl ds =
     concat (map (\<lambda>d. ensure_line m d # map (moving_line wd d) (filter (\<lambda>f. fi_name f \<notin> set excl) (files d))) ds)"

text \<open>
  The conditions under which \<open>MoveFiles\<close> runs to the end: the working directory is a
  writable directory; every target is a child of it that is absent or a writable directory;
  the targets are distinct; the files to move have distinct names, are non-directories
  of the working directory and have no directory of their name in their target.
\<close>

definition move_ready :: "fs \<Rightarrow> file_handler \<Rightarrow> bool" where
  "move_ready fs fh \<longleftrightarrow>
     (let k = components (working_dir fh); excl = excluded fh; ds = dir_fields (directory_map fh) in
      wf_fs fs \<and>
      (case map_of fs k of Some (Dir _ wr) \<Rightarrow> wr | _ \<Rightarrow> False) \<and>
      list_all (\<lambda>d. components (path d) \<noteq> [] \<and> butlast (components (path d)) = k) ds \<and>
      distinct (map (\<lambda>d. components (path d)) ds) \<and>
      list_all (\<lambda>d. case map_of fs (components (path d)) of
                      None \<Rightarrow> True | Some (Dir _ wr) \<Rightarrow> wr | Some _ \<Rightarrow> False) ds \<and>
      distinct (map fi_name (filter (\<lambda>f. fi_name f \<notin> set excl) (concat (map files ds)))) \<and>
      list_all (\<lambda>d. list_all (\<lambda>f. fi_name f \<in> set excl \<or>
          (good_name (fi_name f) \<and>
           (case map_of fs (k @ [fi_name f]) of Some nd \<Rightarrow> \<not> is_dir nd | None \<Rightarrow> False) \<and>
           \<not> is_dir_at fs (components (path d) @ [fi_name f]))) (files d)) ds)"

text \<open>A working directory \<open>/w\<close> with an image, an excluded document, a file of unknown
  extension, and an \<open>images\<close> directory that already holds a file \<open>a.png\<close>; and a working
  directory without write permission.\<close>

definition move_example_fs :: fs where
  "move_example_fs =
     [([], Dir True True), ([''w''], Dir True True),
      ([''w'', ''a.png''], Reg ''pixels''), ([''w'', ''b.txt''], Reg ''notes''),
      ([''w'', ''c.unknown''], Reg ''data''), ([''w'', ''images''], Dir True True),
      ([''w'', ''images'', ''a.png''], Reg ''old'')]"

definition move_example_fh :: file_handler where
  "move_example_fh =
     projr (sort_files (projr (filter_directories move_example_fs
       (initialize_file_handler ''/'' ''/w'' [''b.txt'']))))"

definition readonly_fs :: fs where
  "readonly_fs = [([], Dir True True), ([''w''], Dir True False), ([''w'', ''a.png''], Reg ''pixels'')]"

text \<open>A working directory whose \<open>images\<close> entry is a symbolic link to a missing file.\<close>

definition dangling_fs :: fs where
  "dangling_fs =
     [([], Dir True True), ([''w''], Dir True True), ([''w'', ''a.png''], Reg ''pixels''),
      ([''w'', ''images''], Symlink ''gone'')]"

text \<open>A working directory holding a regular file named like the first category directory.\<close>

definition collision_fs :: fs where
  "collision_fs =
     [([], Dir True True), ([''w''], Dir True True),
      ([''w'', ''a.png''], Reg ''pixels''), ([''w'', ''images''], Reg ''notes'')]"

definition collision_fh :: file_handler where
  "collision_fh =
     projr (sort_files (projr (filter_directories collision_fs (initialize_file_handler ''/'' ''/w'' []))))"

subsection \<open>Single steps\<close>

lemma ensure_dir_absent:
  assumes wf: "wf_fs (w_fs w)" and k: "map_of (w_fs w) k = Some (Dir r True)"
    and t: "components (path d) = k @ [dn]" "good_name dn" and absent: "map_of (w_fs w) (k @ [dn]) = None"
  shows "ensure_dir d w =
           Inr (w\<lparr>w_out := w_out w @ [''Creating directory: '' @ path d],
                  w_fs := AList.update (k @ [dn]) (Dir True True) (w_fs w)\<rparr>)"
proof -
  have "os_stat (w_fs w) (path d) = Inl (PathError ''stat'' (path d) ENOENT)"
    by (rule os_stat_absent_child [OF wf k t(1) absent])
  moreover have "os_mkdir (w_fs w) (path d) = Inr (AList.update (k @ [dn]) (Dir True True) (w_fs w))"
    using os_mkdir_ok [OF wf t(1)] k absent by simp
  ultimately show ?thesis by (simp add: ensure_dir_def println_def)
qed

lemma ensure_dir_present:
  assumes wf: "wf_fs (w_fs w)" and present: "map_of (w_fs w) (components (path d)) = Some nd"
    and "\<not> is_symlink nd"
  shows "ensure_dir d w = Inr (println (''Directory already exists: '' @ path d) w)"
  using os_stat_wf [OF wf present] assms(3) by (simp add: ensure_dir_def)

lemma rename_into_target:
  assumes wf: "wf_fs fs" and k: "components wd = k" "map_of fs k = Some (Dir r True)"
    and t: "components (path d) = k @ [dn]" "map_of fs (k @ [dn]) = Some (Dir r' True)"
    and n: "good_name n" and src: "map_of fs (k @ [n]) = Some nd" "\<not> is_dir nd"
    and tgt: "\<not> is_dir_at fs (k @ [dn, n])"
  shows "os_rename fs (wd @ ''/'' @ n) (path d @ ''/'' @ n) =
           Inr (AList.update (k @ [dn, n]) nd (AList.delete (k @ [n]) fs))"
proof -
  have ko: "components (wd @ ''/'' @ n) = k @ [n]" using n k by (simp add: components_child)
  have kn: "components (path d @ ''/'' @ n) = k @ [dn, n]" using n t by (simp add: components_child)
  have "butlast (k @ [n]) = k" "butlast (k @ [dn, n]) = k @ [dn]"
    by (simp_all add: butlast_append)
  then show ?thesis
    using os_rename_leaf_ok [OF wf ko kn _ _ _ _ _ src tgt] k t by simp
qed

lemma move_dir_spec_frame:
  "(\<And>f. f \<in> set fl \<Longrightarrow> fi_name f \<notin> set excl \<Longrightarrow> x \<noteq> k @ [fi_name f] \<and> x \<noteq> t @ [fi_name f]) \<Longrightarrow>
   move_dir_spec k excl t fl m x = m x"
  by (induction fl arbitrary: m) (auto simp: move_dir_spec_def move_file_spec_def)

subsection \<open>The loop over the files of one field\<close>

lemma move_dir_files_ok:
  assumes "wf_fs (w_fs w)" and "components wd = k" and "map_of (w_fs w) k = Some (Dir r True)"
    and "components (path d) = k @ [dn]" and "map_of (w_fs w) (k @ [dn]) = Some (Dir r' True)"
    and "distinct (map fi_name (filter (\<lambda>f. fi_name f \<notin> set excl) fl))"
    and "\<forall>f \<in> set fl. fi_name f \<notin> set excl \<longrightarrow>
           good_name (fi_name f) \<and> (\<exists>nd. map_of (w_fs w) (k @ [fi_name f]) = Some nd \<and> \<not> is_dir nd) \<and>
           \<not> is_dir_at (w_fs w) (k @ [dn, fi_name f])"
  shows "\<exists>w'. move_dir_files wd excl d fl w = Inr w' \<and> wf_fs (w_fs w') \<and>
           map_of (w_fs w') = move_dir_spec k excl (k @ [dn]) fl (map_of (w_fs w)) \<and>
           w_out w' = w_out w @ map (moving_line wd d) (filter (\<lambda>f. fi_name f \<notin> set excl) fl)"
  using assms
proof (induction fl arbitrary: w)
  case Nil
  then show ?case by (simp add: move_dir_spec_def)
next
  case (Cons f fl)
  show ?case
  proof (cases "fi_name f \<in> set excl")
    case True
    with Cons.IH [of w] Cons.prems show ?thesis by (simp add: move_dir_spec_def)
  next
    case False
    let ?n = "fi_name f" and ?fs = "w_fs w"
    from Cons.prems(7) False obtain nd where n: "good_name ?n" and src: "map_of ?fs (k @ [?n]) = Some nd"
      and nodir: "\<not> is_dir nd" and tgt: "\<not> is_dir_at ?fs (k @ [dn, ?n])" by auto
    let ?fs1 = "AList.update (k @ [dn, ?n]) nd (AList.delete (k @ [?n]) ?fs)"
    let ?w1 = "(println (''Moving file: '' @ wd @ ''/'' @ ?n @ '' --> '' @ path d @ ''/'' @ ?n) w)
                 \<lparr>w_fs := ?fs1\<rparr>"
    have ren: "os_rename ?fs (wd @ ''/'' @ ?n) (path d @ ''/'' @ ?n) = Inr ?fs1"
      using rename_into_target [OF Cons.prems(1-5) n src nodir tgt] .
    have step: "move_dir_files wd excl d (f # fl) w = move_dir_files wd excl d fl ?w1"
      using False ren by (simp add: println_def Let_def)
    have dn_n: "dn \<noteq> ?n" using src nodir Cons.prems(5) by auto
    have good_t: "list_all good_name (k @ [dn])" using Cons.prems(1,5) by (rule wf_good_key)
    have wf1: "wf_fs ?fs1"
    proof (rule wf_move_leaf [OF Cons.prems(1) src nodir])
      show "k @ [dn, ?n] \<noteq> []" by simp
      show "\<not> is_dir_at ?fs (k @ [dn, ?n])" by (rule tgt)
      show "is_dir_at ?fs (butlast (k @ [dn, ?n]))"
        using Cons.prems(5) by (simp add: butlast_append is_dir_at_def)
      show "list_all good_name (k @ [dn, ?n])" using good_t n by simp
    qed
    have rest: "\<forall>g \<in> set fl. fi_name g \<notin> set excl \<longrightarrow>
           good_name (fi_name g) \<and> (\<exists>nd. map_of ?fs1 (k @ [fi_name g]) = Some nd \<and> \<not> is_dir nd) \<and>
           \<not> is_dir_at ?fs1 (k @ [dn, fi_name g])"
    proof (intro ballI impI)
      fix g assume g: "g \<in> set fl" "fi_name g \<notin> set excl"
      from g have "fi_name g \<in> fi_name ` {x \<in> set fl. fi_name x \<notin> set excl}" by blast
      moreover have "?n \<notin> fi_name ` {x \<in> set fl. fi_name x \<notin> set excl}"
        using Cons.prems(6) False by simp
      ultimately have "fi_name g \<noteq> ?n" by (metis (no_types))
      with g Cons.prems(7) show "good_name (fi_name g) \<and>
           (\<exists>nd. map_of ?fs1 (k @ [fi_name g]) = Some nd \<and> \<not> is_dir nd) \<and>
           \<not> is_dir_at ?fs1 (k @ [dn, fi_name g])" by auto
    qed
    have fs1: "w_fs ?w1 = ?fs1" by (simp add: println_def)
    have p3: "map_of (w_fs ?w1) k = Some (Dir r True)"
      using Cons.prems(3) dn_n by (simp add: fs1)
    have p5: "map_of (w_fs ?w1) (k @ [dn]) = Some (Dir r' True)"
      using Cons.prems(5) dn_n by (simp add: fs1)
    have p6: "distinct (map fi_name (filter (\<lambda>f. fi_name f \<notin> set excl) fl))"
      using Cons.prems(6) by (simp split: if_splits)
    have IH: "\<exists>w'. move_dir_files wd excl d fl ?w1 = Inr w' \<and> wf_fs (w_fs w') \<and>
                map_of (w_fs w') = move_dir_spec k excl (k @ [dn]) fl (map_of ?fs1) \<and>
                w_out w' = w_out ?w1 @ map (moving_line wd d) (filter (\<lambda>f. fi_name f \<notin> set excl) fl)"
      using Cons.IH [OF _ Cons.prems(2) p3 Cons.prems(4) p5 p6] wf1 rest by (simp only: fs1)
    have "map_of ?fs1 = move_file_spec k (k @ [dn]) ?n (map_of ?fs)"
      using src by (simp add: move_file_spec_def fun_eq_iff)
    then have "move_dir_spec k excl (k @ [dn]) fl (map_of ?fs1) =
               move_dir_spec k excl (k @ [dn]) (f # fl) (map_of ?fs)"
      using False by (simp add: move_dir_spec_def)
    moreover have "w_out ?w1 = w_out w @ [moving_line wd d f]"
      by (simp add: println_def moving_line_def)
    ultimately show ?thesis using IH step False by simp
  qed
qed

lemma ensure_dir_ok:
  assumes wf: "wf_fs (w_fs w)" and k: "map_of (w_fs w) k = Some (Dir r True)"
    and t: "components (path d) = k @ [dn]" "good_name dn"
    and tgt: "map_of (w_fs w) (k @ [dn]) = None \<or> (\<exists>r'. map_of (w_fs w) (k @ [dn]) = Some (Dir r' True))"
  shows "\<exists>w1 r1. ensure_dir d w = Inr w1 \<and> wf_fs (w_fs w1) \<and>
           map_of (w_fs w1) = ensure_dir_spec (k @ [dn]) (map_of (w_fs w)) \<and>
           map_of (w_fs w1) (k @ [dn]) = Some (Dir r1 True) \<and>
           w_out w1 = w_out w @ [ensure_line (map_of (w_fs w)) d]"
proof (cases "map_of (w_fs w) (k @ [dn])")
  case None
  have "list_all good_name k" using wf k by (rule wf_good_key)
  with t(2) have good: "list_all good_name (k @ [dn])" by simp
  have "is_dir_at (w_fs w) (butlast (k @ [dn]))" using k by (simp add: is_dir_at_def)
  with wf None good have "wf_fs (AList.update (k @ [dn]) (Dir True True) (w_fs w))"
    by (simp add: wf_add_leaf)
  with ensure_dir_absent [OF wf k t None] None show ?thesis
    by (simp add: ensure_dir_spec_def ensure_line_def fun_eq_iff t(1), blast)
next
  case (Some nd)
  with tgt obtain r' where "nd = Dir r' True" by auto
  with ensure_dir_present [OF wf, of d] Some t wf show ?thesis
    by (simp add: ensure_dir_spec_def ensure_line_def println_def)
qed

lemma move_field_frame:
  "x \<noteq> t \<Longrightarrow>
   (\<And>f. f \<in> set fl \<Longrightarrow> fi_name f \<notin> set excl \<Longrightarrow> x \<noteq> k @ [fi_name f] \<and> x \<noteq> t @ [fi_name f]) \<Longrightarrow>
   move_dir_spec k excl t fl (ensure_dir_spec t m) x = m x"
  by (simp add: move_dir_spec_frame ensure_dir_spec_def)

lemma targets_length:
  "\<forall>d \<in> set ds. \<exists>dn. components (path d) = k @ [dn] \<Longrightarrow> d \<in> set ds \<Longrightarrow>
   length (components (path d)) = Suc (length k)"
  by (drule bspec) auto

lemma move_log_cong:
  "\<forall>d \<in> set ds. m' (components (path d)) = m (components (path d)) \<Longrightarrow>
   move_log m' wd excl ds = move_log m wd excl ds"
  by (induction ds) (simp_all add: move_log_def ensure_line_def)

subsection \<open>The loop over the fields\<close>

lemma move_fields_ok:
  assumes "wf_fs (w_fs w)" and "components wd = k" and "map_of (w_fs w) k = Some (Dir r True)"
    and "\<forall>d \<in> set ds. \<exists>dn. components (path d) = k @ [dn]"
    and "distinct (map (\<lambda>d. components (path d)) ds)"
    and "\<forall>d \<in> set ds. map_of (w_fs w) (components (path d)) = None \<or>
           (\<exists>r'. map_of (w_fs w) (components (path d)) = Some (Dir r' True))"
    and "distinct (map fi_name (filter (\<lambda>f. fi_name f \<notin> set excl) (concat (map files ds))))"
    and "\<forall>d \<in> set ds. \<forall>f \<in> set (files d). fi_name f \<notin> set excl \<longrightarrow>
           good_name (fi_name f) \<and> (\<exists>nd. map_of (w_fs w) (k @ [fi_name f]) = Some nd \<and> \<not> is_dir nd) \<and>
           \<not> is_dir_at (w_fs w) (components (path d) @ [fi_name f])"
  shows "\<exists>w'. move_fields wd excl ds w = Inr w' \<and> wf_fs (w_fs w') \<and>
           map_of (w_fs w') = move_spec k excl ds (map_of (w_fs w)) \<and>
           w_out w' = w_out w @ move_log (map_of (w_fs w)) wd excl ds"
  using assms
proof (induction ds arbitrary: w)
  case Nil
  then show ?case by (simp add: move_log_def)
next
  case (Cons d ds)
  let ?m = "map_of (w_fs w)" and ?live = "\<lambda>f. fi_name f \<notin> set excl"
  from Cons.prems(4) obtain dn where t: "components (path d) = k @ [dn]" by auto
  have "list_all good_name (components (path d))" by (rule components_good)
  with t have gdn: "good_name dn" by simp
  have tw: "?m (k @ [dn]) = None \<or> (\<exists>r'. ?m (k @ [dn]) = Some (Dir r' True))"
    using Cons.prems(6) t by auto
  obtain w1 r1 where e1: "ensure_dir d w = Inr w1" and wf1: "wf_fs (w_fs w1)"
    and m1: "map_of (w_fs w1) = ensure_dir_spec (k @ [dn]) ?m"
    and t1: "map_of (w_fs w1) (k @ [dn]) = Some (Dir r1 True)"
    and o1: "w_out w1 = w_out w @ [ensure_line ?m d]"
    using ensure_dir_ok [OF Cons.prems(1,3) t gdn tw] by blast
  have k1: "map_of (w_fs w1) k = Some (Dir r True)"
    using Cons.prems(3) by (simp add: m1 ensure_dir_spec_def)
  have src_ne_t: "\<And>n nd. ?m (k @ [n]) = Some nd \<Longrightarrow> \<not> is_dir nd \<Longrightarrow> k @ [n] \<noteq> k @ [dn]"
    using tw by auto
  have dist_d: "distinct (map fi_name (filter ?live (files d)))"
    using Cons.prems(7) by simp
  have files_d: "\<forall>f \<in> set (files d). ?live f \<longrightarrow>
           good_name (fi_name f) \<and> (\<exists>nd. map_of (w_fs w1) (k @ [fi_name f]) = Some nd \<and> \<not> is_dir nd) \<and>
           \<not> is_dir_at (w_fs w1) (k @ [dn, fi_name f])"
  proof (intro ballI impI)
    fix f assume f: "f \<in> set (files d)" "?live f"
    with Cons.prems(8) t obtain nd where "good_name (fi_name f)" "?m (k @ [fi_name f]) = Some nd"
      "\<not> is_dir nd" "\<not> is_dir_at (w_fs w) (k @ [dn, fi_name f])" by auto
    moreover have "is_dir_at (w_fs w1) (k @ [dn, fi_name f]) = is_dir_at (w_fs w) (k @ [dn, fi_name f])"
      by (rule is_dir_at_cong) (simp add: m1 ensure_dir_spec_def)
    ultimately show "good_name (fi_name f) \<and>
           (\<exists>nd. map_of (w_fs w1) (k @ [fi_name f]) = Some nd \<and> \<not> is_dir nd) \<and>
           \<not> is_dir_at (w_fs w1) (k @ [dn, fi_name f])"
      using src_ne_t by (simp add: m1 ensure_dir_spec_def)
  qed
  obtain w2 where e2: "move_dir_files wd excl d (files d) w1 = Inr w2" and wf2: "wf_fs (w_fs w2)"
    and m2: "map_of (w_fs w2) = move_dir_spec k excl (k @ [dn]) (files d) (map_of (w_fs w1))"
    and o2: "w_out w2 = w_out w1 @ map (moving_line wd d) (filter ?live (files d))"
    using move_dir_files_ok [OF wf1 Cons.prems(2) k1 t t1 dist_d files_d] by blast
  have frame: "\<And>x. x \<noteq> k @ [dn] \<Longrightarrow>
      (\<And>f. f \<in> set (files d) \<Longrightarrow> ?live f \<Longrightarrow> x \<noteq> k @ [fi_name f] \<and> x \<noteq> k @ [dn, fi_name f]) \<Longrightarrow>
      map_of (w_fs w2) x = ?m x"
    unfolding m2 m1 using move_field_frame [of _ "k @ [dn]"] by simp
  have k2: "map_of (w_fs w2) k = Some (Dir r True)"
    using frame [of k] Cons.prems(3) by simp
  have disj: "\<And>f d' f'. f \<in> set (files d) \<Longrightarrow> ?live f \<Longrightarrow> d' \<in> set ds \<Longrightarrow>
      f' \<in> set (files d') \<Longrightarrow> ?live f' \<Longrightarrow> fi_name f \<noteq> fi_name f'"
  proof -
    fix f d' f' assume a: "f \<in> set (files d)" "?live f" "d' \<in> set ds" "f' \<in> set (files d')" "?live f'"
    then have "f' \<in> set (concat (map files ds))" by auto
    with a(1,2,5) Cons.prems(7) show "fi_name f \<noteq> fi_name f'"
      by (simp only: concat.simps list.map) (rule distinct_filter_append_neq)
  qed
  have ts: "\<forall>d' \<in> set ds. \<exists>dn'. components (path d') = k @ [dn'] \<and> dn' \<noteq> dn"
  proof
    fix d' assume d': "d' \<in> set ds"
    with Cons.prems(4) obtain dn' where t': "components (path d') = k @ [dn']" by auto
    from Cons.prems(5) d' have "components (path d') \<noteq> components (path d)"
      by (rule distinct_map_Cons_neq)
    with t t' show "\<exists>dn'. components (path d') = k @ [dn'] \<and> dn' \<noteq> dn" by simp
  qed
  have eqT: "\<forall>d' \<in> set ds. map_of (w_fs w2) (components (path d')) = ?m (components (path d'))"
  proof
    fix d' assume d': "d' \<in> set ds"
    with ts obtain dn' where t': "components (path d') = k @ [dn']" "dn' \<noteq> dn" by auto
    from d' Cons.prems(6) have tw': "?m (k @ [dn']) = None \<or> (\<exists>r'. ?m (k @ [dn']) = Some (Dir r' True))"
      by (auto simp: t')
    have "map_of (w_fs w2) (k @ [dn']) = ?m (k @ [dn'])"
    proof (rule frame)
      show "k @ [dn'] \<noteq> k @ [dn]" using t'(2) by simp
      fix f assume "f \<in> set (files d)" "?live f"
      with Cons.prems(8) t obtain nd where "?m (k @ [fi_name f]) = Some nd" "\<not> is_dir nd" by auto
      with tw' show "k @ [dn'] \<noteq> k @ [fi_name f] \<and> k @ [dn'] \<noteq> k @ [dn, fi_name f]" by auto
    qed
    with t' show "map_of (w_fs w2) (components (path d')) = ?m (components (path d'))" by simp
  qed
  have p6: "\<forall>d' \<in> set ds. map_of (w_fs w2) (components (path d')) = None \<or>
           (\<exists>r'. map_of (w_fs w2) (components (path d')) = Some (Dir r' True))"
    using eqT Cons.prems(6) by simp
  have p8: "\<forall>d' \<in> set ds. \<forall>f' \<in> set (files d'). ?live f' \<longrightarrow>
           good_name (fi_name f') \<and> (\<exists>nd. map_of (w_fs w2) (k @ [fi_name f']) = Some nd \<and> \<not> is_dir nd) \<and>
           \<not> is_dir_at (w_fs w2) (components (path d') @ [fi_name f'])"
  proof (intro ballI impI)
    fix d' f' assume d': "d' \<in> set ds" and f': "f' \<in> set (files d')" "?live f'"
    with ts obtain dn' where t': "components (path d') = k @ [dn']" "dn' \<noteq> dn" by auto
    note h8 = Cons.prems(8) [rule_format, OF list.set_intros(2) [OF d'] f']
    have g': "good_name (fi_name f')" using h8 by (rule conjunct1)
    have n': "\<not> is_dir_at (w_fs w) (k @ [dn', fi_name f'])" using h8 t'(1) by simp
    obtain nd where s': "?m (k @ [fi_name f']) = Some nd" "\<not> is_dir nd"
      using h8 by (elim conjE exE) simp
    have "map_of (w_fs w2) (k @ [fi_name f']) = ?m (k @ [fi_name f'])"
    proof (rule frame)
      show "k @ [fi_name f'] \<noteq> k @ [dn]" by (rule src_ne_t [OF s'])
      fix f assume "f \<in> set (files d)" "?live f"
      then have "fi_name f \<noteq> fi_name f'" using disj d' f' by blast
      then show "k @ [fi_name f'] \<noteq> k @ [fi_name f] \<and> k @ [fi_name f'] \<noteq> k @ [dn, fi_name f]"
        by simp
    qed
    moreover have "is_dir_at (w_fs w2) (k @ [dn', fi_name f']) = is_dir_at (w_fs w) (k @ [dn', fi_name f'])"
    proof (rule is_dir_at_cong, rule frame)
      show "k @ [dn', fi_name f'] \<noteq> k @ [dn]" by simp
      fix f assume "f \<in> set (files d)" "?live f"
      show "k @ [dn', fi_name f'] \<noteq> k @ [fi_name f] \<and> k @ [dn', fi_name f'] \<noteq> k @ [dn, fi_name f]"
        using t'(2) by simp
    qed
    ultimately show "good_name (fi_name f') \<and>
           (\<exists>nd. map_of (w_fs w2) (k @ [fi_name f']) = Some nd \<and> \<not> is_dir nd) \<and>
           \<not> is_dir_at (w_fs w2) (components (path d') @ [fi_name f'])"
      using g' s' n' t' by simp
  qed
  have p7: "distinct (map fi_name (filter ?live (concat (map files ds))))"
    using Cons.prems(7) by simp
  have p4: "\<forall>d' \<in> set ds. \<exists>dn. components (path d') = k @ [dn]" using Cons.prems(4) by simp
  have p5: "distinct (map (\<lambda>d. components (path d)) ds)" using Cons.prems(5) by simp
  obtain w' where "move_fields wd excl ds w2 = Inr w'" "wf_fs (w_fs w')"
    "map_of (w_fs w') = move_spec k excl ds (map_of (w_fs w2))"
    "w_out w' = w_out w2 @ move_log (map_of (w_fs w2)) wd excl ds"
    using Cons.IH [OF wf2 Cons.prems(2) k2 p4 p5 p6 p7 p8] by blast
  moreover have "move_log (map_of (w_fs w2)) wd excl ds = move_log ?m wd excl ds"
    using eqT by (rule move_log_cong)
  ultimately show ?case using e1 e2 m1 m2 t o1 o2 by (simp add: move_log_def)
qed

subsection \<open>Pointwise behaviour of the specification\<close>

lemma move_dir_spec_outside:
  "(\<forall>f \<in> set fl. fi_name f \<notin> set excl \<longrightarrow> x \<noteq> t @ [fi_name f]) \<Longrightarrow>
   move_dir_spec k excl t fl m x =
     (if \<exists>f \<in> set fl. fi_name f \<notin> set excl \<and> x = k @ [fi_name f] then None else m x)"
  by (induction fl arbitrary: m) (auto simp: move_dir_spec_def move_file_spec_def)

lemma move_dir_spec_target:
  "f \<in> set fl \<Longrightarrow> fi_name f \<notin> set excl \<Longrightarrow> distinct (map fi_name (filter (\<lambda>f. fi_name f \<notin> set excl) fl)) \<Longrightarrow>
   move_dir_spec k excl (k @ [dn]) fl m (k @ [dn, fi_name f]) = m (k @ [fi_name f])"
proof (induction fl arbitrary: m)
  case Nil
  then show ?case by simp
next
  case (Cons g fl)
  let ?n = "fi_name f"
  show ?case
  proof (cases "fi_name g \<in> set excl")
    case True
    with Cons show ?thesis by (auto simp: move_dir_spec_def)
  next
    case False
    let ?m' = "move_file_spec k (k @ [dn]) (fi_name g) m"
    have unfold: "move_dir_spec k excl (k @ [dn]) (g # fl) m = move_dir_spec k excl (k @ [dn]) fl ?m'"
      using False by (simp add: move_dir_spec_def)
    show ?thesis
    proof (cases "fi_name g = ?n")
      case True
      have "\<forall>f' \<in> set fl. fi_name f' \<notin> set excl \<longrightarrow> k @ [dn, ?n] \<noteq> (k @ [dn]) @ [fi_name f']"
        using Cons.prems(3) False True by auto
      then have "move_dir_spec k excl (k @ [dn]) fl ?m' (k @ [dn, ?n]) = ?m' (k @ [dn, ?n])"
        by (simp add: move_dir_spec_outside)
      with True show ?thesis by (simp add: unfold move_file_spec_def)
    next
      case ne: False
      with Cons.prems(1) have "f \<in> set fl" by auto
      moreover have "distinct (map fi_name (filter (\<lambda>f. fi_name f \<notin> set excl) fl))"
        using Cons.prems(3) by (simp split: if_splits)
      ultimately have "move_dir_spec k excl (k @ [dn]) fl ?m' (k @ [dn, ?n]) = ?m' (k @ [?n])"
        using Cons.IH Cons.prems(2) by blast
      with ne show ?thesis by (simp add: unfold move_file_spec_def)
    qed
  qed
qed

lemma move_spec_outside:
  "(\<forall>d \<in> set ds. x \<noteq> components (path d) \<and>
      (\<forall>f \<in> set (files d). fi_name f \<notin> set excl \<longrightarrow> x \<noteq> components (path d) @ [fi_name f])) \<Longrightarrow>
   move_spec k excl ds m x =
     (if \<exists>d \<in> set ds. \<exists>f \<in> set (files d). fi_name f \<notin> set excl \<and> x = k @ [fi_name f] then None else m x)"
  by (induction ds arbitrary: m) (auto simp: move_dir_spec_outside ensure_dir_spec_def)

lemma move_spec_target_dir:
  assumes "d \<in> set ds" and "\<forall>d \<in> set ds. \<exists>dn. components (path d) = k @ [dn]"
    and "distinct (map (\<lambda>d. components (path d)) ds)"
    and "\<forall>d \<in> set ds. \<forall>d' \<in> set ds. \<forall>f \<in> set (files d). fi_name f \<notin> set excl \<longrightarrow>
           components (path d') \<noteq> k @ [fi_name f]"
  shows "move_spec k excl ds m (components (path d)) =
           ensure_dir_spec (components (path d)) m (components (path d))"
  using assms
proof (induction ds arbitrary: m)
  case Nil
  then show ?case by simp
next
  case (Cons d0 ds)
  let ?t = "\<lambda>d. components (path d)"
  let ?m1 = "move_dir_spec k excl (?t d0) (files d0) (ensure_dir_spec (?t d0) m)"
  have len: "\<And>d'. d' \<in> set (d0 # ds) \<Longrightarrow> length (?t d') = Suc (length k)"
    using Cons.prems(2) by (rule targets_length)
  have m1_at: "\<And>x. x \<in> ?t ` set (d0 # ds) \<Longrightarrow> ?m1 x = ensure_dir_spec (?t d0) m x"
  proof -
    fix x assume x: "x \<in> ?t ` set (d0 # ds)"
    then obtain d' where "d' \<in> set (d0 # ds)" "x = ?t d'" by blast
    then have "length x = Suc (length k)" using len by simp
    moreover have "length (?t d0) = Suc (length k)" using len by simp
    ultimately have "\<forall>f \<in> set (files d0). fi_name f \<notin> set excl \<longrightarrow> x \<noteq> ?t d0 @ [fi_name f]"
      by auto
    moreover have "\<not> (\<exists>f \<in> set (files d0). fi_name f \<notin> set excl \<and> x = k @ [fi_name f])"
    proof
      assume "\<exists>f \<in> set (files d0). fi_name f \<notin> set excl \<and> x = k @ [fi_name f]"
      then obtain f where "f \<in> set (files d0)" "fi_name f \<notin> set excl" "x = k @ [fi_name f]" by blast
      with Cons.prems(4) \<open>d' \<in> set (d0 # ds)\<close> \<open>x = ?t d'\<close> show False
        by (metis list.set_intros(1))
    qed
    ultimately show "?m1 x = ensure_dir_spec (?t d0) m x" by (simp add: move_dir_spec_outside) blast
  qed
  show ?case
  proof (cases "d = d0")
    case True
    have "\<forall>d' \<in> set ds. ?t d0 \<noteq> ?t d' \<and>
            (\<forall>f \<in> set (files d'). fi_name f \<notin> set excl \<longrightarrow> ?t d0 \<noteq> ?t d' @ [fi_name f])"
    proof
      fix d' assume d': "d' \<in> set ds"
      have "?t d0 \<notin> ?t ` set ds" using Cons.prems(3) by simp
      with d' have "?t d0 \<noteq> ?t d'" by blast
      moreover have "length (?t d0) = length (?t d')" using len d' by simp
      ultimately show "?t d0 \<noteq> ?t d' \<and>
          (\<forall>f \<in> set (files d'). fi_name f \<notin> set excl \<longrightarrow> ?t d0 \<noteq> ?t d' @ [fi_name f])" by auto
    qed
    moreover have "\<not> (\<exists>d' \<in> set ds. \<exists>f \<in> set (files d'). fi_name f \<notin> set excl \<and> ?t d0 = k @ [fi_name f])"
    proof
      assume "\<exists>d' \<in> set ds. \<exists>f \<in> set (files d'). fi_name f \<notin> set excl \<and> ?t d0 = k @ [fi_name f]"
      then obtain d' f where "d' \<in> set ds" "f \<in> set (files d')" "fi_name f \<notin> set excl"
        "?t d0 = k @ [fi_name f]" by blast
      with Cons.prems(4) show False by (metis list.set_intros)
    qed
    ultimately show ?thesis using m1_at [of "?t d0"] True by (simp add: move_spec_outside) blast
  next
    case False
    with Cons.prems(1) have d: "d \<in> set ds" by simp
    have "move_spec k excl ds ?m1 (?t d) = ensure_dir_spec (?t d) ?m1 (?t d)"
      using Cons.IH [OF d] Cons.prems(2-4) by simp
    moreover have "?t d \<noteq> ?t d0" using Cons.prems(3) d by (rule distinct_map_Cons_neq)
    ultimately show ?thesis using m1_at [of "?t d"] d by (simp add: ensure_dir_spec_def)
  qed
qed

lemma move_spec_target:
  assumes "d \<in> set ds" and "f \<in> set (files d)" and "fi_name f \<notin> set excl"
    and "\<forall>d \<in> set ds. \<exists>dn. components (path d) = k @ [dn]"
    and "distinct (map (\<lambda>d. components (path d)) ds)"
    and "\<forall>d \<in> set ds. \<forall>d' \<in> set ds. \<forall>f \<in> set (files d). fi_name f \<notin> set excl \<longrightarrow>
           components (path d') \<noteq> k @ [fi_name f]"
    and "distinct (map fi_name (filter (\<lambda>f. fi_name f \<notin> set excl) (concat (map files ds))))"
  shows "move_spec k excl ds m (components (path d) @ [fi_name f]) = m (k @ [fi_name f])"
  using assms
proof (induction ds arbitrary: m)
  case Nil
  then show ?case by simp
next
  case (Cons d0 ds)
  let ?t = "\<lambda>d. components (path d)" and ?n = "fi_name f"
  let ?m1 = "move_dir_spec k excl (?t d0) (files d0) (ensure_dir_spec (?t d0) m)"
  have len: "\<And>d'. d' \<in> set (d0 # ds) \<Longrightarrow> length (?t d') = Suc (length k)"
    using Cons.prems(4) by (rule targets_length)
  from Cons.prems(4) obtain dn0 where t0: "?t d0 = k @ [dn0]" by auto
  have src_ne: "k @ [?n] \<noteq> ?t d0"
    using Cons.prems(6) [rule_format, OF Cons.prems(1) list.set_intros(1) Cons.prems(2,3)] by simp
  show ?case
  proof (cases "d = d0")
    case True
    have "distinct (map fi_name (filter (\<lambda>f. fi_name f \<notin> set excl) (files d0)))"
      using Cons.prems(7) by simp
    then have m1: "?m1 (?t d0 @ [?n]) = m (k @ [?n])"
      using move_dir_spec_target [of f "files d0" excl k dn0] Cons.prems(2,3) True src_ne t0
      by (simp add: ensure_dir_spec_def)
    have "\<forall>d' \<in> set ds. ?t d0 @ [?n] \<noteq> ?t d' \<and>
            (\<forall>f' \<in> set (files d'). fi_name f' \<notin> set excl \<longrightarrow> ?t d0 @ [?n] \<noteq> ?t d' @ [fi_name f'])"
    proof
      fix d' assume d': "d' \<in> set ds"
      have "?t d' \<noteq> ?t d0" using Cons.prems(5) d' by (rule distinct_map_Cons_neq)
      moreover have "length (?t d') = length (?t d0)" using len d' by simp
      ultimately show "?t d0 @ [?n] \<noteq> ?t d' \<and>
          (\<forall>f' \<in> set (files d'). fi_name f' \<notin> set excl \<longrightarrow> ?t d0 @ [?n] \<noteq> ?t d' @ [fi_name f'])"
        by (auto dest: arg_cong [where f = length])
    qed
    moreover have "\<not> (\<exists>d' \<in> set ds. \<exists>f' \<in> set (files d'). fi_name f' \<notin> set excl \<and>
                      ?t d0 @ [?n] = k @ [fi_name f'])"
      using t0 by simp
    ultimately show ?thesis using m1 True t0 by (simp add: move_spec_outside)
  next
    case False
    with Cons.prems(1) have d: "d \<in> set ds" by simp
    have "move_spec k excl ds ?m1 (?t d @ [?n]) = ?m1 (k @ [?n])"
      using Cons.IH [OF d Cons.prems(2,3)] Cons.prems(4-7) by simp
    moreover have "\<not> (\<exists>g \<in> set (files d0). fi_name g \<notin> set excl \<and> k @ [?n] = k @ [fi_name g])"
    proof
      assume "\<exists>g \<in> set (files d0). fi_name g \<notin> set excl \<and> k @ [?n] = k @ [fi_name g]"
      then obtain g where g: "g \<in> set (files d0)" "fi_name g \<notin> set excl" "fi_name g = ?n" by auto
      from d Cons.prems(2) have fc: "f \<in> set (concat (map files ds))" by auto
      have "fi_name g \<noteq> fi_name f" using Cons.prems(7) g(1,2) fc Cons.prems(3)
        by (simp only: concat.simps list.map) (rule distinct_filter_append_neq)
      with g(3) show False by simp
    qed
    moreover have "\<forall>g \<in> set (files d0). fi_name g \<notin> set excl \<longrightarrow> k @ [?n] \<noteq> ?t d0 @ [fi_name g]"
      using t0 by simp
    ultimately show ?thesis using src_ne by (simp add: move_dir_spec_outside ensure_dir_spec_def) blast
  qed
qed

subsection \<open>The executor as a whole\<close>

lemma move_ready_D:
  assumes "move_ready fs fh"
  defines "k \<equiv> components (working_dir fh)" and "excl \<equiv> excluded fh"
    and "ds \<equiv> dir_fields (directory_map fh)"
  shows "wf_fs fs" and "\<exists>r. map_of fs k = Some (Dir r True)"
    and "\<forall>d \<in> set ds. \<exists>dn. components (path d) = k @ [dn]"
    and "distinct (map (\<lambda>d. components (path d)) ds)"
    and "\<forall>d \<in> set ds. map_of fs (components (path d)) = None \<or>
           (\<exists>r'. map_of fs (components (path d)) = Some (Dir r' True))"
    and "distinct (map fi_name (filter (\<lambda>f. fi_name f \<notin> set excl) (concat (map files ds))))"
    and "\<forall>d \<in> set ds. \<forall>f \<in> set (files d). fi_name f \<notin> set excl \<longrightarrow>
           good_name (fi_name f) \<and> (\<exists>nd. map_of fs (k @ [fi_name f]) = Some nd \<and> \<not> is_dir nd) \<and>
           \<not> is_dir_at fs (components (path d) @ [fi_name f])"
    and "\<forall>d \<in> set ds. \<forall>d' \<in> set ds. \<forall>f \<in> set (files d). fi_name f \<notin> set excl \<longrightarrow>
           components (path d') \<noteq> k @ [fi_name f]"
proof -
  note r = assms(1) [unfolded move_ready_def Let_def, folded k_def excl_def ds_def]
  show "wf_fs fs" using r by simp
  show "\<exists>r. map_of fs k = Some (Dir r True)"
    using r by (auto split: option.splits node.splits)
  show "\<forall>d \<in> set ds. \<exists>dn. components (path d) = k @ [dn]"
    using r by (auto simp: list_all_iff) (metis append_butlast_last_id)
  show "distinct (map (\<lambda>d. components (path d)) ds)" using r by simp
  show tw: "\<forall>d \<in> set ds. map_of fs (components (path d)) = None \<or>
           (\<exists>r'. map_of fs (components (path d)) = Some (Dir r' True))"
  proof
    fix d assume "d \<in> set ds"
    with r have "case map_of fs (components (path d)) of
        None \<Rightarrow> True | Some (Dir _ wr) \<Rightarrow> wr | Some _ \<Rightarrow> False" by (simp add: list_all_iff)
    then show "map_of fs (components (path d)) = None \<or>
           (\<exists>r'. map_of fs (components (path d)) = Some (Dir r' True))"
      by (cases "map_of fs (components (path d))") (auto elim: is_dir.elims split: node.splits)
  qed
  show "distinct (map fi_name (filter (\<lambda>f. fi_name f \<notin> set excl) (concat (map files ds))))"
    using r by simp
  show fl: "\<forall>d \<in> set ds. \<forall>f \<in> set (files d). fi_name f \<notin> set excl \<longrightarrow>
           good_name (fi_name f) \<and> (\<exists>nd. map_of fs (k @ [fi_name f]) = Some nd \<and> \<not> is_dir nd) \<and>
           \<not> is_dir_at fs (components (path d) @ [fi_name f])"
  proof (intro ballI impI)
    fix d f assume d: "d \<in> set ds" and f: "f \<in> set (files d)" "fi_name f \<notin> set excl"
    from r have "\<forall>d \<in> set ds. \<forall>f \<in> set (files d). fi_name f \<in> set excl \<or> (good_name (fi_name f) \<and>
        (case map_of fs (k @ [fi_name f]) of Some nd \<Rightarrow> \<not> is_dir nd | None \<Rightarrow> False) \<and>
        \<not> is_dir_at fs (components (path d) @ [fi_name f]))" by (simp add: list_all_iff)
    with d f have "good_name (fi_name f) \<and>
        (case map_of fs (k @ [fi_name f]) of Some nd \<Rightarrow> \<not> is_dir nd | None \<Rightarrow> False) \<and>
        \<not> is_dir_at fs (components (path d) @ [fi_name f])" by blast
    then show "good_name (fi_name f) \<and> (\<exists>nd. map_of fs (k @ [fi_name f]) = Some nd \<and> \<not> is_dir nd) \<and>
           \<not> is_dir_at fs (components (path d) @ [fi_name f])" by (simp split: option.splits)
  qed
  show "\<forall>d \<in> set ds. \<forall>d' \<in> set ds. \<forall>f \<in> set (files d). fi_name f \<notin> set excl \<longrightarrow>
           components (path d') \<noteq> k @ [fi_name f]"
  proof (intro ballI impI notI)
    fix d d' f assume d: "d \<in> set ds" "d' \<in> set ds" and f: "f \<in> set (files d)" "fi_name f \<notin> set excl"
      and eq: "components (path d') = k @ [fi_name f]"
    from fl d(1) f obtain nd where "map_of fs (k @ [fi_name f]) = Some nd" "\<not> is_dir nd" by blast
    moreover from tw d(2) have "map_of fs (components (path d')) = None \<or>
           (\<exists>r'. map_of fs (components (path d')) = Some (Dir r' True))" by blast
    ultimately show False using eq by auto
  qed
qed

lemma move_files_result:
  assumes "move_ready (w_fs w) fh" and "move_files fh w = Inr w'"
  shows "map_of (w_fs w') = move_spec (components (working_dir fh)) (excluded fh)
                               (dir_fields (directory_map fh)) (map_of (w_fs w))"
proof -
  obtain r where r: "map_of (w_fs w) (components (working_dir fh)) = Some (Dir r True)"
    using move_ready_D(2) [OF assms(1)] by blast
  show ?thesis
    using move_fields_ok [OF move_ready_D(1) [OF assms(1)] refl r move_ready_D(3-7) [OF assms(1)]] assms(2)
    by (auto simp: move_files_def)
qed

lemma move_spec_moved:
  assumes "move_ready fs fh"
    and "d \<in> set (dir_fields (directory_map fh))" and "f \<in> set (files d)"
    and "fi_name f \<notin> set (excluded fh)"
  shows "move_spec (components (working_dir fh)) (excluded fh) (dir_fields (directory_map fh)) (map_of fs)
           (components (path d) @ [fi_name f]) = map_of fs (components (working_dir fh) @ [fi_name f]) \<and>
         move_spec (components (working_dir fh)) (excluded fh) (dir_fields (directory_map fh)) (map_of fs)
           (components (working_dir fh) @ [fi_name f]) = None"
proof -
  let ?k = "components (working_dir fh)" and ?ds = "dir_fields (directory_map fh)"
  note D = move_ready_D [OF assms(1)]
  have src: "\<forall>d' \<in> set ?ds. ?k @ [fi_name f] \<noteq> components (path d') \<and>
      (\<forall>g \<in> set (files d'). fi_name g \<notin> set (excluded fh) \<longrightarrow>
         ?k @ [fi_name f] \<noteq> components (path d') @ [fi_name g])"
  proof
    fix d' assume d': "d' \<in> set ?ds"
    have "length (components (path d')) = Suc (length ?k)" using D(3) d' by (rule targets_length)
    moreover have "components (path d') \<noteq> ?k @ [fi_name f]"
      using D(8) assms(2-4) d' by blast
    ultimately show "?k @ [fi_name f] \<noteq> components (path d') \<and>
      (\<forall>g \<in> set (files d'). fi_name g \<notin> set (excluded fh) \<longrightarrow>
         ?k @ [fi_name f] \<noteq> components (path d') @ [fi_name g])"
      by (auto dest: arg_cong [where f = length])
  qed
  have "move_spec ?k (excluded fh) ?ds (map_of fs) (?k @ [fi_name f]) = None"
    using move_spec_outside [OF src] assms(2-4) by auto
  moreover have "move_spec ?k (excluded fh) ?ds (map_of fs) (components (path d) @ [fi_name f]) =
                 map_of fs (?k @ [fi_name f])"
    by (rule move_spec_target [OF assms(2-4) D(3,4,8,6)])
  ultimately show ?thesis by simp
qed

lemma move_spec_excluded:
  assumes "move_ready fs fh" and "e \<in> set (excluded fh)"
    and "map_of fs (components (working_dir fh) @ [e]) = Some nd" and "\<not> is_dir nd"
  shows "move_spec (components (working_dir fh)) (excluded fh) (dir_fields (directory_map fh)) (map_of fs)
           (components (working_dir fh) @ [e]) = Some nd"
proof -
  let ?k = "components (working_dir fh)" and ?ds = "dir_fields (directory_map fh)"
  note D = move_ready_D [OF assms(1)]
  have out: "\<forall>d' \<in> set ?ds. ?k @ [e] \<noteq> components (path d') \<and>
      (\<forall>g \<in> set (files d'). fi_name g \<notin> set (excluded fh) \<longrightarrow>
         ?k @ [e] \<noteq> components (path d') @ [fi_name g])"
  proof
    fix d' assume d': "d' \<in> set ?ds"
    have "length (components (path d')) = Suc (length ?k)" using D(3) d' by (rule targets_length)
    moreover have "components (path d') \<noteq> ?k @ [e]"
      using D(5) d' assms(3,4) by auto
    ultimately show "?k @ [e] \<noteq> components (path d') \<and>
      (\<forall>g \<in> set (files d'). fi_name g \<notin> set (excluded fh) \<longrightarrow>
         ?k @ [e] \<noteq> components (path d') @ [fi_name g])"
      by (auto dest: arg_cong [where f = length])
  qed
  have "\<not> (\<exists>d' \<in> set ?ds. \<exists>g \<in> set (files d'). fi_name g \<notin> set (excluded fh) \<and> ?k @ [e] = ?k @ [fi_name g])"
    using assms(2) by auto
  then show ?thesis using move_spec_outside [OF out] assms(3) by simp
qed

lemma move_spec_targets:
  assumes "move_ready fs fh" and "d \<in> set (dir_fields (directory_map fh))"
  shows "move_spec (components (working_dir fh)) (excluded fh) (dir_fields (directory_map fh)) (map_of fs)
           (components (path d)) =
           (if map_of fs (components (path d)) = None then Some (Dir True True)
            else map_of fs (components (path d))) \<and>
         (\<exists>r. move_spec (components (working_dir fh)) (excluded fh) (dir_fields (directory_map fh)) (map_of fs)
           (components (path d)) = Some (Dir r True))"
proof -
  note D = move_ready_D [OF assms(1)]
  have "map_of fs (components (path d)) = None \<or> (\<exists>r. map_of fs (components (path d)) = Some (Dir r True))"
    using D(5) assms(2) by blast
  with move_spec_target_dir [OF assms(2) D(3,4,8)] show ?thesis by (auto simp: ensure_dir_spec_def)
qed

lemma move_files_wf:
  assumes "move_ready (w_fs w) fh" and "move_files fh w = Inr w'"
  shows "wf_fs (w_fs w')"
proof -
  obtain r where r: "map_of (w_fs w) (components (working_dir fh)) = Some (Dir r True)"
    using move_ready_D(2) [OF assms(1)] by blast
  show ?thesis
    using move_fields_ok [OF move_ready_D(1) [OF assms(1)] refl r move_ready_D(3-7) [OF assms(1)]] assms(2)
    by (auto simp: move_files_def)
qed

lemma move_files_Inr: "move_ready (w_fs w) fh \<Longrightarrow> \<exists>w'. move_files fh w = Inr w'"
proof -
  assume a: "move_ready (w_fs w) fh"
  obtain r where r: "map_of (w_fs w) (components (working_dir fh)) = Some (Dir r True)"
    using move_ready_D(2) [OF a] by blast
  show ?thesis
    using move_fields_ok [OF move_ready_D(1) [OF a] refl r move_ready_D(3-7) [OF a]]
    by (auto simp: move_files_def)
qed

subsection \<open>The worked example\<close>

lemma move_example_wd: "working_dir (initialize_file_handler ''/'' ''/w'' [''b.txt'']) = ''/w''"
  by (simp add: init_scalars file_path_abs_def clean_rooted_def fs_eval)

lemma move_example_fh_eq:
  "move_example_fh = (initialize_file_handler ''/'' ''/w'' [''b.txt''])\<lparr>
     raw_files := [\<lparr>fi_name = ''a.png'', fi_mode = ModeRegular\<rparr>, \<lparr>fi_name = ''b.txt'', fi_mode = ModeRegular\<rparr>,
                   \<lparr>fi_name = ''c.unknown'', fi_mode = ModeRegular\<rparr>],
     directory_map := classify_into
                   [\<lparr>fi_name = ''a.png'', fi_mode = ModeRegular\<rparr>, \<lparr>fi_name = ''b.txt'', fi_mode = ModeRegular\<rparr>,
                    \<lparr>fi_name = ''c.unknown'', fi_mode = ModeRegular\<rparr>]
                   (directory_map (initialize_file_handler ''/'' ''/w'' [''b.txt'']))\<rparr>"
proof -
  have wf: "wf_fs move_example_fs" by (simp add: move_example_fs_def fs_eval)
  have d: "map_of move_example_fs (components (working_dir (initialize_file_handler ''/'' ''/w'' [''b.txt'']))) =
           Some (Dir True True)"
    by (simp add: move_example_wd move_example_fs_def fs_eval)
  show ?thesis
    unfolding move_example_fh_def filter_directories_ok [OF wf d]
    by (simp add: sort_files_eq move_example_wd scan_files_def move_example_fs_def fs_eval)
qed

lemma move_example_fields:
  "dir_fields (directory_map move_example_fh) =
     [\<lparr>path = ''/w/images'', files = [\<lparr>fi_name = ''a.png'', fi_mode = ModeRegular\<rparr>]\<rparr>,
      \<lparr>path = ''/w/documents'', files = [\<lparr>fi_name = ''b.txt'', fi_mode = ModeRegular\<rparr>]\<rparr>,
      \<lparr>path = ''/w/pdf'', files = []\<rparr>, \<lparr>path = ''/w/media'', files = []\<rparr>,
      \<lparr>path = ''/w/zips'', files = []\<rparr>, \<lparr>path = ''/w/programming'', files = []\<rparr>,
      \<lparr>path = ''/w/other'', files = [\<lparr>fi_name = ''c.unknown'', fi_mode = ModeRegular\<rparr>]\<rparr>]"
  by (simp add: move_example_fh_eq dir_fields_categories all_categories_def classify_into_field init_field
      file_path_abs_def clean_rooted_def fs_eval classify_def ext_suffix_def extension_rules_def dir_consts)

lemma move_example_scalars:
  "working_dir move_example_fh = ''/w'' \<and> excluded move_example_fh = [''b.txt'']"
  by (simp add: move_example_fh_eq init_scalars move_example_wd [simplified init_scalars])

lemma move_example_ready:
  "move_ready (w_fs \<lparr>w_fs = move_example_fs, w_out = []\<rparr>) move_example_fh"
  by (simp add: move_ready_def move_example_fields move_example_scalars move_example_fs_def fs_eval)

lemma collision_fh_eq:
  "collision_fh = (initialize_file_handler ''/'' ''/w'' [])\<lparr>
     raw_files := [\<lparr>fi_name = ''a.png'', fi_mode = ModeRegular\<rparr>, \<lparr>fi_name = ''images'', fi_mode = ModeRegular\<rparr>],
     directory_map := classify_into
                   [\<lparr>fi_name = ''a.png'', fi_mode = ModeRegular\<rparr>, \<lparr>fi_name = ''images'', fi_mode = ModeRegular\<rparr>]
                   (directory_map (initialize_file_handler ''/'' ''/w'' []))\<rparr>"
proof -
  have wd: "working_dir (initialize_file_handler ''/'' ''/w'' []) = ''/w''"
    by (simp add: init_scalars file_path_abs_def clean_rooted_def fs_eval)
  have wf: "wf_fs collision_fs" by (simp add: collision_fs_def fs_eval)
  have d: "map_of collision_fs (components (working_dir (initialize_file_handler ''/'' ''/w'' []))) =
           Some (Dir True True)"
    by (simp add: wd collision_fs_def fs_eval)
  show ?thesis
    unfolding collision_fh_def filter_directories_ok [OF wf d]
    by (simp add: sort_files_eq wd scan_files_def collision_fs_def fs_eval)
qed

text \<open>Whether it panics or not, \<open>MoveFiles\<close> only appends to standard output.\<close>

lemma ensure_dir_out:
  "ensure_dir d w = Inl (p, w') \<or> ensure_dir d w = Inr w' \<Longrightarrow> \<exists>out. w_out w' = w_out w @ out"
  by (auto simp: ensure_dir_def println_def Let_def split: sum.splits if_splits)

lemma move_dir_files_out:
  "move_dir_files wd excl d fl w = Inl (p, w') \<or> move_dir_files wd excl d fl w = Inr w' \<Longrightarrow>
   \<exists>out. w_out w' = w_out w @ out"
proof (induction fl arbitrary: w)
  case Nil
  then show ?case by auto
next
  case (Cons f fl)
  then show ?case
    by (fastforce simp: println_def Let_def split: if_splits sum.splits)
qed

lemma move_fields_out:
  "move_fields wd excl ds w = Inl (p, w') \<or> move_fields wd excl ds w = Inr w' \<Longrightarrow>
   \<exists>out. w_out w' = w_out w @ out"
proof (induction ds arbitrary: w)
  case Nil
  then show ?case by auto
next
  case (Cons d ds)
  show ?case
  proof (cases "ensure_dir d w")
    case (Inl e)
    with Cons.prems show ?thesis using ensure_dir_out [of d w "fst e" "snd e"] by auto
  next
    case (Inr w1)
    obtain o1 where o1: "w_out w1 = w_out w @ o1" using ensure_dir_out [of d w _ w1] Inr by blast
    show ?thesis
    proof (cases "move_dir_files wd excl d (files d) w1")
      case (Inl e)
      with Cons.prems Inr o1 show ?thesis
        using move_dir_files_out [of wd excl d "files d" w1 "fst e" "snd e"] by auto
    next
      case (Inr w2)
      obtain o2 where "w_out w2 = w_out w1 @ o2"
        using move_dir_files_out [of wd excl d "files d" w1 _ w2] Inr by blast
      with Cons.prems Cons.IH [of w2] \<open>ensure_dir d w = Inr w1\<close> Inr o1 show ?thesis by force
    qed
  qed
qed

lemma move_files_out:
  "move_files fh w = Inl (p, w') \<or> move_files fh w = Inr w' \<Longrightarrow> \<exists>out. w_out w' = w_out w @ out"
  unfolding move_files_def by (rule move_fields_out)

subsection \<open>Properties of \<open>MoveFiles\<close>\<close>

text \<open>
  C2: Refinement. When the working directory and the plan satisfy \<open>move_ready\<close>,
  \<open>MoveFiles\<close> does not panic, keeps the file system well formed, leaves it as the
  abstract specification \<open>move_spec\<close> says, and prints exactly the progress messages of
  \<open>move_log\<close>: one "Creating directory" or "Directory already exists" line per category in
  declaration order, each followed by one "Moving file" line per file that is not excluded.
\<close>

theorem move_files_refines_spec:
  assumes "move_ready (w_fs w) fh"
  shows "\<exists>w'. move_files fh w = Inr w' \<and> wf_fs (w_fs w') \<and>
           map_of (w_fs w') = move_spec (components (working_dir fh)) (excluded fh)
                                (dir_fields (directory_map fh)) (map_of (w_fs w)) \<and>
           w_out w' = w_out w @ move_log (map_of (w_fs w)) (working_dir fh) (excluded fh)
                                (dir_fields (directory_map fh))"
proof -
  obtain r where r: "map_of (w_fs w) (components (working_dir fh)) = Some (Dir r True)"
    using move_ready_D(2) [OF assms] by blast
  show ?thesis unfolding move_files_def
    by (rule move_fields_ok [OF move_ready_D(1) [OF assms] refl r move_ready_D(3-7) [OF assms]])
qed

theorem move_files_refines_spec_witness:
  "move_ready move_example_fs move_example_fh \<and>
   (\<exists>w'. move_files move_example_fh \<lparr>w_fs = move_example_fs, w_out = []\<rparr> = Inr w' \<and>
      wf_fs (w_fs w') \<and>
      w_out w' = [''Directory already exists: /w/images'', ''Moving file: /w/a.png --> /w/images/a.png'',
                  ''Creating directory: /w/documents'', ''Creating directory: /w/pdf'',
                  ''Creating directory: /w/media'', ''Creating directory: /w/zips'',
                  ''Creating directory: /w/programming'', ''Creating directory: /w/other'',
                  ''Moving file: /w/c.unknown --> /w/other/c.unknown''])"
proof -
  have r: "move_ready (w_fs \<lparr>w_fs = move_example_fs, w_out = []\<rparr>) move_example_fh"
    by (rule move_example_ready)
  have "move_log (map_of move_example_fs) ''/w'' [''b.txt''] (dir_fields (directory_map move_example_fh)) =
        [''Directory already exists: /w/images'', ''Moving file: /w/a.png --> /w/images/a.png'',
                  ''Creating directory: /w/documents'', ''Creating directory: /w/pdf'',
                  ''Creating directory: /w/media'', ''Creating directory: /w/zips'',
                  ''Creating directory: /w/programming'', ''Creating directory: /w/other'',
                  ''Moving file: /w/c.unknown --> /w/other/c.unknown'']"
    by (simp add: move_log_def ensure_line_def moving_line_def move_example_fields move_example_fs_def fs_eval)
  with move_files_refines_spec [OF r] r show ?thesis by (simp add: move_example_scalars) blast
qed

text \<open>
  C4: Each file of a category that is not excluded ends up in the category's directory
  under its own name with its content, and is no longer in the working directory.
\<close>

theorem move_files_moves_each_file:
  assumes "move_ready (w_fs w) fh" and "move_files fh w = Inr w'"
    and "d \<in> set (dir_fields (directory_map fh))" and "f \<in> set (files d)"
    and "fi_name f \<notin> set (excluded fh)"
  shows "map_of (w_fs w') (components (path d) @ [fi_name f]) =
           map_of (w_fs w) (components (working_dir fh) @ [fi_name f]) \<and>
         map_of (w_fs w') (components (working_dir fh) @ [fi_name f]) = None"
  using move_spec_moved [OF assms(1,3-5)] by (simp add: move_files_result [OF assms(1,2)])

theorem move_files_moves_each_file_witness:
  "\<exists>w'. move_files move_example_fh \<lparr>w_fs = move_example_fs, w_out = []\<rparr> = Inr w' \<and>
      map_of (w_fs w') [''w'', ''images'', ''a.png''] = Some (Reg ''pixels'') \<and>
      map_of (w_fs w') [''w'', ''a.png''] = None \<and>
      map_of (w_fs w') [''w'', ''other'', ''c.unknown''] = Some (Reg ''data'')"
proof -
  have r: "move_ready (w_fs \<lparr>w_fs = move_example_fs, w_out = []\<rparr>) move_example_fh" by (rule move_example_ready)
  obtain w' where e: "move_files move_example_fh \<lparr>w_fs = move_example_fs, w_out = []\<rparr> = Inr w'"
    using move_files_Inr [OF r] by blast
  have "map_of (w_fs w') (components ''/w/images'' @ [''a.png'']) = map_of move_example_fs (components ''/w'' @ [''a.png'']) \<and>
        map_of (w_fs w') (components ''/w'' @ [''a.png'']) = None"
    using move_files_moves_each_file [OF r e, of "\<lparr>path = ''/w/images'', files = [\<lparr>fi_name = ''a.png'', fi_mode = ModeRegular\<rparr>]\<rparr>"
        "\<lparr>fi_name = ''a.png'', fi_mode = ModeRegular\<rparr>"]
    by (simp add: move_example_fields move_example_scalars)
  moreover have "map_of (w_fs w') (components ''/w/other'' @ [''c.unknown'']) = map_of move_example_fs (components ''/w'' @ [''c.unknown''])"
    using move_files_moves_each_file [OF r e, of "\<lparr>path = ''/w/other'', files = [\<lparr>fi_name = ''c.unknown'', fi_mode = ModeRegular\<rparr>]\<rparr>"
        "\<lparr>fi_name = ''c.unknown'', fi_mode = ModeRegular\<rparr>"]
    by (simp add: move_example_fields move_example_scalars)
  ultimately show ?thesis using e by (simp add: move_example_fs_def fs_eval)
qed

text \<open>
  C5: Files the user excluded stay where they are: a non-directory of the working
  directory whose name is excluded keeps its place and content.
\<close>

theorem move_files_keeps_excluded:
  assumes "move_ready (w_fs w) fh" and "move_files fh w = Inr w'"
    and "e \<in> set (excluded fh)"
    and "map_of (w_fs w) (components (working_dir fh) @ [e]) = Some nd" and "\<not> is_dir nd"
  shows "map_of (w_fs w') (components (working_dir fh) @ [e]) = Some nd"
  using move_spec_excluded [OF assms(1,3-5)] by (simp add: move_files_result [OF assms(1,2)])

theorem move_files_keeps_excluded_witness:
  "\<exists>w'. move_files move_example_fh \<lparr>w_fs = move_example_fs, w_out = []\<rparr> = Inr w' \<and>
      map_of (w_fs w') [''w'', ''b.txt''] = Some (Reg ''notes'')"
proof -
  have r: "move_ready (w_fs \<lparr>w_fs = move_example_fs, w_out = []\<rparr>) move_example_fh" by (rule move_example_ready)
  obtain w' where e: "move_files move_example_fh \<lparr>w_fs = move_example_fs, w_out = []\<rparr> = Inr w'"
    using move_files_Inr [OF r] by blast
  have "map_of (w_fs w') (components ''/w'' @ [''b.txt'']) = Some (Reg ''notes'')"
    using move_files_keeps_excluded [OF r e, of "''b.txt''" "Reg ''notes''"]
    by (simp add: move_example_scalars move_example_fs_def fs_eval)
  with e show ?thesis by (simp add: fs_eval)
qed

text \<open>
  C14: Nothing else changes: a path that is neither a category directory, nor the source
  or the destination of a moved file, has the same node after \<open>MoveFiles\<close> as before.
\<close>

theorem move_files_frame:
  assumes "move_ready (w_fs w) fh" and "move_files fh w = Inr w'"
    and "\<forall>d \<in> set (dir_fields (directory_map fh)). x \<noteq> components (path d) \<and>
           (\<forall>f \<in> set (files d). fi_name f \<notin> set (excluded fh) \<longrightarrow>
              x \<noteq> components (path d) @ [fi_name f] \<and> x \<noteq> components (working_dir fh) @ [fi_name f])"
  shows "map_of (w_fs w') x = map_of (w_fs w) x"
proof -
  have "\<forall>d \<in> set (dir_fields (directory_map fh)). x \<noteq> components (path d) \<and>
           (\<forall>f \<in> set (files d). fi_name f \<notin> set (excluded fh) \<longrightarrow> x \<noteq> components (path d) @ [fi_name f])"
    using assms(3) by blast
  from move_spec_outside [OF this] assms(3) show ?thesis
    by (auto simp: move_files_result [OF assms(1,2)])
qed

theorem move_files_frame_witness:
  "\<exists>w'. move_files move_example_fh \<lparr>w_fs = move_example_fs, w_out = []\<rparr> = Inr w' \<and>
      map_of (w_fs w') [''w''] = Some (Dir True True)"
proof -
  have r: "move_ready (w_fs \<lparr>w_fs = move_example_fs, w_out = []\<rparr>) move_example_fh" by (rule move_example_ready)
  obtain w' where e: "move_files move_example_fh \<lparr>w_fs = move_example_fs, w_out = []\<rparr> = Inr w'"
    using move_files_Inr [OF r] by blast
  have "map_of (w_fs w') [''w''] = map_of move_example_fs [''w'']"
    using move_files_frame [OF r e, of "[''w'']"]
    by (simp add: move_example_fields move_example_scalars fs_eval)
  with e show ?thesis by (simp add: move_example_fs_def)
qed

text \<open>
  C13: Every category directory exists after the run, also for categories with no file:
  an absent one is created as a new directory, an existing one is kept as it was.
\<close>

theorem move_files_creates_every_target:
  assumes "move_ready (w_fs w) fh" and "move_files fh w = Inr w'"
    and "d \<in> set (dir_fields (directory_map fh))"
  shows "map_of (w_fs w') (components (path d)) =
           (if map_of (w_fs w) (components (path d)) = None then Some (Dir True True)
            else map_of (w_fs w) (components (path d))) \<and>
         is_dir_at (w_fs w') (components (path d))"
  using move_spec_targets [OF assms(1,3)] by (auto simp: move_files_result [OF assms(1,2)] is_dir_at_def)

theorem move_files_creates_every_target_witness:
  "\<exists>w'. move_files move_example_fh \<lparr>w_fs = move_example_fs, w_out = []\<rparr> = Inr w' \<and>
      map_of (w_fs w') [''w'', ''pdf''] = Some (Dir True True) \<and>
      map_of (w_fs w') [''w'', ''images''] = Some (Dir True True)"
proof -
  have r: "move_ready (w_fs \<lparr>w_fs = move_example_fs, w_out = []\<rparr>) move_example_fh" by (rule move_example_ready)
  obtain w' where e: "move_files move_example_fh \<lparr>w_fs = move_example_fs, w_out = []\<rparr> = Inr w'"
    using move_files_Inr [OF r] by blast
  have "map_of (w_fs w') (components ''/w/pdf'') = Some (Dir True True)"
    using move_files_creates_every_target [OF r e, of "\<lparr>path = ''/w/pdf'', files = []\<rparr>"]
    by (simp add: move_example_fields move_example_fs_def fs_eval)
  moreover have "map_of (w_fs w') (components ''/w/images'') = Some (Dir True True)"
    using move_files_creates_every_target [OF r e,
        of "\<lparr>path = ''/w/images'', files = [\<lparr>fi_name = ''a.png'', fi_mode = ModeRegular\<rparr>]\<rparr>"]
    by (simp add: move_example_fields move_example_fs_def fs_eval)
  ultimately show ?thesis using e by (simp add: fs_eval)
qed

text \<open>
  C9: Creating a category directory in a working directory without write permission
  panics with the \<open>mkdir\<close> error after printing "Creating directory", and nothing is
  moved.
\<close>

theorem move_files_mkdir_denied:
  assumes "wf_fs (w_fs w)" and "map_of (w_fs w) (components (working_dir fh)) = Some (Dir r False)"
    and "dir_fields (directory_map fh) = d # ds"
    and "components (path d) = components (working_dir fh) @ [dn]"
    and "map_of (w_fs w) (components (path d)) = None"
  shows "move_files fh w =
           Inl (OsPanic (PathError ''mkdir'' (path d) EACCES),
                w\<lparr>w_out := w_out w @ [''Creating directory: '' @ path d]\<rparr>)"
proof -
  let ?k = "components (working_dir fh)"
  have "os_stat (w_fs w) (path d) = Inl (PathError ''stat'' (path d) ENOENT)"
    using os_stat_absent_child [OF assms(1,2,4)] assms(4,5) by simp
  moreover have "parent_dir (w_fs w) (components (path d)) = Inr (?k, False)"
    using parent_dir_wf [of "w_fs w" "components (path d)" r False] assms(1,2,4) by simp
  then have "os_mkdir (w_fs w) (path d) = Inl (PathError ''mkdir'' (path d) EACCES)"
    using assms(4,5) by (simp add: os_mkdir_def)
  ultimately show ?thesis using assms(3)
    by (simp add: move_files_def ensure_dir_def println_def)
qed

theorem move_files_mkdir_denied_witness:
  "move_files (initialize_file_handler ''/'' ''/w'' []) \<lparr>w_fs = readonly_fs, w_out = []\<rparr> =
     Inl (OsPanic (PathError ''mkdir'' ''/w/images'' EACCES),
          \<lparr>w_fs = readonly_fs, w_out = [''Creating directory: /w/images'']\<rparr>)"
proof -
  let ?fh = "initialize_file_handler ''/'' ''/w'' []"
  have wd: "working_dir ?fh = ''/w''"
    by (simp add: init_scalars file_path_abs_def clean_rooted_def fs_eval)
  have fields: "dir_fields (directory_map ?fh) = \<lparr>path = ''/w/images'', files = []\<rparr> #
      map (\<lambda>c. field_of c (directory_map ?fh)) [Documents, Pdf, Media, Zips, Programming, Other]"
    by (simp add: dir_fields_categories all_categories_def init_field file_path_abs_def clean_rooted_def
        fs_eval dir_consts)
  show ?thesis
    using move_files_mkdir_denied [OF _ _ fields, of _ True "''images''"]
    by (simp add: wd readonly_fs_def fs_eval)
qed

text \<open>
  C10: A regular file whose name is that of a category directory is taken for the directory
  (\<open>os.Stat\<close> succeeds, and only its error is looked at):
  \<open>MoveFiles\<close> reports "Directory already exists" and then panics with \<open>ENOTDIR\<close> when it
  renames the first file of the category into it.
\<close>

theorem move_files_category_file_collision:
  assumes wf: "wf_fs (w_fs w)" and k: "components (working_dir fh) = k" "map_of (w_fs w) k = Some (Dir r True)"
    and ds: "dir_fields (directory_map fh) = d # ds"
    and t: "components (path d) = k @ [dn]" "map_of (w_fs w) (k @ [dn]) = Some (Reg c)"
    and f: "files d = f # fl" "fi_name f \<notin> set (excluded fh)" "good_name (fi_name f)"
      "map_of (w_fs w) (k @ [fi_name f]) = Some nd"
  shows "move_files fh w =
           Inl (OsPanic (LinkError ''rename'' (working_dir fh @ ''/'' @ fi_name f) (path d @ ''/'' @ fi_name f) ENOTDIR),
                w\<lparr>w_out := w_out w @ [''Directory already exists: '' @ path d,
                   ''Moving file: '' @ working_dir fh @ ''/'' @ fi_name f @ '' --> '' @ path d @ ''/'' @ fi_name f]\<rparr>)"
proof -
  let ?n = "fi_name f"
  have ko: "components (working_dir fh @ ''/'' @ ?n) = k @ [?n]" using f(3) k(1) by (simp add: components_child)
  have kn: "components (path d @ ''/'' @ ?n) = k @ [dn, ?n]" using f(3) t(1) by (simp add: components_child)
  have po: "parent_dir (w_fs w) (k @ [?n]) = Inr (k, True)"
    using parent_dir_wf [of "w_fs w" "k @ [?n]"] wf k(2) by simp
  have "walk max_symlinks True (w_fs w) [] (k @ [dn]) = Inr (k @ [dn])"
    using walk_wf [OF wf, of "[]" "k @ [dn]"] t(2) by simp
  then have pn: "parent_dir (w_fs w) (k @ [dn, ?n]) = Inl ENOTDIR"
    using t(2) by (simp add: parent_dir_def butlast_append)
  have "os_rename (w_fs w) (working_dir fh @ ''/'' @ ?n) (path d @ ''/'' @ ?n) =
          Inl (LinkError ''rename'' (working_dir fh @ ''/'' @ ?n) (path d @ ''/'' @ ?n) ENOTDIR)"
    using ko kn po pn f(4) by (simp add: os_rename_def)
  moreover have "ensure_dir d w = Inr (println (''Directory already exists: '' @ path d) w)"
    using ensure_dir_present [OF wf] t(1,2) by simp
  ultimately show ?thesis using ds f(1,2) by (simp add: move_files_def println_def Let_def)
qed

theorem move_files_category_file_collision_witness:
  "move_files collision_fh \<lparr>w_fs = collision_fs, w_out = []\<rparr> =
   Inl (OsPanic (LinkError ''rename'' ''/w/a.png'' ''/w/images/a.png'' ENOTDIR),
        \<lparr>w_fs = collision_fs,
         w_out = [''Directory already exists: /w/images'', ''Moving file: /w/a.png --> /w/images/a.png'']\<rparr>)"
proof -
  let ?fh0 = "initialize_file_handler ''/'' ''/w'' []"
  have wd: "working_dir ?fh0 = ''/w''"
    by (simp add: init_scalars file_path_abs_def clean_rooted_def fs_eval)
  let ?fh = collision_fh
  have fields: "dir_fields (directory_map ?fh) =
     \<lparr>path = ''/w/images'', files = [\<lparr>fi_name = ''a.png'', fi_mode = ModeRegular\<rparr>]\<rparr> #
     tl (dir_fields (directory_map ?fh))"
    by (simp add: collision_fh_eq dir_fields_categories all_categories_def classify_into_field init_field
      file_path_abs_def clean_rooted_def fs_eval classify_def ext_suffix_def extension_rules_def dir_consts)
  have sc: "working_dir ?fh = ''/w'' \<and> excluded ?fh = []"
    by (simp add: collision_fh_eq init_scalars wd [simplified init_scalars])
  show ?thesis
    using move_files_category_file_collision [OF _ _ _ fields, where w = "\<lparr>w_fs = collision_fs, w_out = []\<rparr>",
        of "[''w'']" True "''images''" "''notes''" "\<lparr>fi_name = ''a.png'', fi_mode = ModeRegular\<rparr>" "[]"
        "Reg ''pixels''"]
    by (simp add: sc collision_fs_def fs_eval good_name_def)
qed

text \<open>
  C11: A category path that is a dangling symbolic link makes the run panic before any file
  moves: \<open>os.Stat\<close> follows the link and reports that nothing exists, so \<open>MoveFiles\<close>
  prints "Creating directory", but \<open>os.Mkdir\<close> does not follow it and fails with
  \<open>EEXIST\<close>.
\<close>

theorem move_files_dangling_category_link:
  assumes wf: "wf_fs (w_fs w)" and k: "components (working_dir fh) = k" "map_of (w_fs w) k = Some (Dir r True)"
    and ds: "dir_fields (directory_map fh) = d # ds"
    and t: "components (path d) = k @ [dn]" "map_of (w_fs w) (k @ [dn]) = Some (Symlink tgt)"
    and dangling: "good_name tgt" "map_of (w_fs w) (k @ [tgt]) = None"
  shows "move_files fh w =
           Inl (OsPanic (PathError ''mkdir'' (path d) EEXIST),
                w\<lparr>w_out := w_out w @ [''Creating directory: '' @ path d]\<rparr>)"
proof -
  have dn: "good_name dn" using components_good [of "path d"] t(1) by simp
  have lp: "link_parts tgt = [tgt]"
    using dangling(1) by (simp add: link_parts_def good_name_def split_slash_no_slash)
  have rel: "hd tgt \<noteq> CHR ''/''"
  proof
    assume "hd tgt = CHR ''/''"
    with hd_in_set [of tgt] dangling(1) show False by (simp add: good_name_def)
  qed
  have "walk max_symlinks True (w_fs w) [] (k @ [dn]) = walk max_symlinks True (w_fs w) k [dn]"
    using walk_below_dir [OF wf k(2)] .
  also have "\<dots> = Inl ENOENT"
    using t(2) dangling dn lp rel by (simp add: max_symlinks_def good_name_def)
  finally have "os_stat (w_fs w) (path d) = Inl (PathError ''stat'' (path d) ENOENT)"
    using t(1) by (simp add: os_stat_def lookup_def)
  moreover have "parent_dir (w_fs w) (k @ [dn]) = Inr (k, True)"
    using parent_dir_wf [of "w_fs w" "k @ [dn]" r True] wf k(2) by simp
  then have "os_mkdir (w_fs w) (path d) = Inl (PathError ''mkdir'' (path d) EEXIST)"
    using t by (simp add: os_mkdir_def)
  ultimately show ?thesis using ds by (simp add: move_files_def ensure_dir_def println_def)
qed

theorem move_files_dangling_category_link_witness:
  "move_files (initialize_file_handler ''/'' ''/w'' []) \<lparr>w_fs = dangling_fs, w_out = []\<rparr> =
     Inl (OsPanic (PathError ''mkdir'' ''/w/images'' EEXIST),
          \<lparr>w_fs = dangling_fs, w_out = [''Creating directory: /w/images'']\<rparr>)"
proof -
  let ?fh = "initialize_file_handler ''/'' ''/w'' []"
  have wd: "working_dir ?fh = ''/w''"
    by (simp add: init_scalars file_path_abs_def clean_rooted_def fs_eval)
  have fields: "dir_fields (directory_map ?fh) = \<lparr>path = ''/w/images'', files = []\<rparr> #
      map (\<lambda>c. field_of c (directory_map ?fh)) [Documents, Pdf, Media, Zips, Programming, Other]"
    by (simp add: dir_fields_categories all_categories_def init_field file_path_abs_def clean_rooted_def
        fs_eval dir_consts)
  show ?thesis
    using move_files_dangling_category_link [OF _ _ _ fields, where w = "\<lparr>w_fs = dangling_fs, w_out = []\<rparr>",
        of "[''w'']" True "''images''" "''gone''"]
    by (simp add: wd dangling_fs_def fs_eval)
qed

end
