(* ===== verification/Cli.thy ===== *)
theory Cli
  imports Config Move
begin

text \<open>
  The command layer of \<open>src/cmd\<close>. The \<open>sort\<close> command (\<open>cmd/sort.go\<close>) declares a
  boolean flag \<open>--dry-run\<close> and a string-array flag \<open>--exclude\<close>, requires exactly one
  positional argument (\<open>cobra.ExactArgs(1)\<close>), and its handler \<open>run\<close> chains
  \<open>InitializeFileHandler\<close>, \<open>FilterDirectories\<close>, \<open>SortFiles\<close> and then \<open>DryRun\<close> or
  \<open>MoveFiles\<close>. \<open>execute\<close> is cobra's dispatch from the command line to a command.
\<close>

subsection \<open>The sort command\<close>

text \<open>
  The flags of \<open>sort\<close> after \<open>init\<close> (\<open>cmd/sort.go\<close> lines 17--21): its own two flags, the
  help flag cobra adds, and the persistent \<open>--viper\<close> flag it inherits from the root.
\<close>

definition sort_flags :: flag_set where
  "sort_flags =
     [(''dry-run'', new_flag (BoolFlag False)), (''exclude'', new_flag (StringArrayFlag [])),
      (''help'', new_flag (BoolFlag False)), (''viper'', new_flag (BoolFlag True))]"

text \<open>\<open>run\<close> (\<open>cmd/sort.go\<close> lines 23--39), in the current directory \<open>cwd\<close>.\<close>

definition sort_run :: "path \<Rightarrow> flag_set \<Rightarrow> string list \<Rightarrow> world \<Rightarrow> (go_panic \<times> world) + world" where
  "sort_run cwd flags args w =
     (case get_bool flags ''dry-run'' of
        Inl err \<Rightarrow> Inl (ErrorPanic err, w)
      | Inr is_dry_run \<Rightarrow>
          (case get_string_array flags ''exclude'' of
             Inl _ \<Rightarrow> Inr w
           | Inr array \<Rightarrow>
               (case args of
                  [] \<Rightarrow> Inl (IndexOutOfRange 0 0, w)
                | arg # _ \<Rightarrow>
                    (case filter_directories (w_fs w) (initialize_file_handler cwd arg array) of
                       Inl p \<Rightarrow> Inl (p, w)
                     | Inr fh \<Rightarrow>
                         (case sort_files fh of
                            Inl p \<Rightarrow> Inl (p, w)
                          | Inr file_sorter \<Rightarrow>
                              if is_dry_run then dry_run file_sorter w else move_files file_sorter w)))))"

subsection \<open>Executing a command line\<close>

text \<open>How a run of the program ends: normally, by a panic, with an error cobra reports
  (usage and exit status 1), by \<open>cobra.CheckErr\<close> exiting, or after printing help.\<close>

datatype outcome =
    Completed world
  | Panicked go_panic world
  | CommandFailed cli_error world
  | Exited string world
  | HelpShown world

fun outcome_world :: "outcome \<Rightarrow> world" where
  "outcome_world (Completed w) = w"
| "outcome_world (Panicked _ w) = w"
| "outcome_world (CommandFailed _ w) = w"
| "outcome_world (Exited _ w) = w"
| "outcome_world (HelpShown w) = w"

text \<open>
  cobra's \<open>stripFlags\<close>: the words of the command line that can name a subcommand. A
  long flag without \<open>=\<close> that is not one of the root's boolean flags, and a two-letter short
  flag that is not \<open>-h\<close> or \<open>-v\<close>, take the next word as their value.
\<close>

definition root_bool_flags :: "string list" where
  "root_bool_flags = [''viper'', ''help'', ''version'']"

fun strip_flags :: "string list \<Rightarrow> string list" where
  "strip_flags [] = []"
| "strip_flags (s # rest) =
     (if s = ''--'' then []
      else if (take 2 s = ''--'' \<and> CHR ''='' \<notin> set s \<and> drop 2 s \<notin> set root_bool_flags) \<or>
              (take 1 s = ''-'' \<and> CHR ''='' \<notin> set s \<and> length s = 2 \<and> drop 1 s \<notin> set [''h'', ''v''])
      then (case rest of [] \<Rightarrow> [] | [_] \<Rightarrow> [] | _ # rest' \<Rightarrow> strip_flags rest')
      else if s \<noteq> [] \<and> hd s \<noteq> CHR ''-'' then s # strip_flags rest
      else strip_flags rest)"

definition root_flags :: flag_set where
  "root_flags = [(''viper'', new_flag (BoolFlag True)), (''help'', new_flag (BoolFlag False)),
                 (''version'', new_flag (BoolFlag False))]"

definition version_flags :: flag_set where
  "version_flags = [(''help'', new_flag (BoolFlag False)), (''viper'', new_flag (BoolFlag True))]"

text \<open>The root command alone: it has no handler, so it shows help unless \<open>--version\<close>
  asks for cobra's version line.\<close>

definition root_execute :: "string list \<Rightarrow> world \<Rightarrow> outcome" where
  "root_execute args w =
     (case parse_args root_flags args [] of
        Inl e \<Rightarrow> CommandFailed e w
      | Inr (flags, _) \<Rightarrow>
          (if get_bool flags ''help'' = Inr True then HelpShown w
           else if get_bool flags ''version'' = Inr True
           then Completed (println (''declutter version '' @ root_version) w)
           else HelpShown w))"

text \<open>\<open>sort\<close>: parse its flags, show help if asked, run \<open>initConfig\<close> (\<open>cfgFile\<close> is never
  set, so it is empty), check the arguments, and run the handler.\<close>

definition sort_execute ::
  "viper_state \<Rightarrow> path \<Rightarrow> string + path \<Rightarrow> (string \<Rightarrow> bool) \<Rightarrow> string list \<Rightarrow> world \<Rightarrow> outcome" where
  "sort_execute v cwd home parses args w =
     (case parse_args sort_flags args [] of
        Inl e \<Rightarrow> CommandFailed e w
      | Inr (flags, pos) \<Rightarrow>
          (if get_bool flags ''help'' = Inr True then HelpShown w
           else case init_config [] home parses v w of
             Inl (err, w) \<Rightarrow> Exited err w
           | Inr (_, w) \<Rightarrow>
               (case exact_args 1 pos of
                  Some e \<Rightarrow> CommandFailed e w
                | None \<Rightarrow>
                    (case sort_run cwd flags pos w of
                       Inl (p, w) \<Rightarrow> Panicked p w
                     | Inr w \<Rightarrow> Completed w))))"

definition version_execute :: "viper_state \<Rightarrow> string + path \<Rightarrow> (string \<Rightarrow> bool) \<Rightarrow> string list \<Rightarrow> world \<Rightarrow> outcome" where
  "version_execute v home parses args w =
     (case parse_args version_flags args [] of
        Inl e \<Rightarrow> CommandFailed e w
      | Inr (flags, _) \<Rightarrow>
          (if get_bool flags ''help'' = Inr True then HelpShown w
           else case init_config [] home parses v w of
             Inl (err, w) \<Rightarrow> Exited err w
           | Inr (_, w) \<Rightarrow> Completed (version_run w)))"

text \<open>\<open>rootCmd.Execute()\<close>: the first word that names a command selects it, and is removed
  from the words passed to it; a word that names no command is an error.\<close>

definition execute ::
  "viper_state \<Rightarrow> path \<Rightarrow> string + path \<Rightarrow> (string \<Rightarrow> bool) \<Rightarrow> string list \<Rightarrow> world \<Rightarrow> outcome" where
  "execute v cwd home parses argv w =
     (case strip_flags argv of
        [] \<Rightarrow> root_execute argv w
      | name # _ \<Rightarrow>
          (let args = remove1 name argv in
           if name \<in> set [''sort'', ''s''] then sort_execute v cwd home parses args w
           else if name \<in> set [''version'', ''v''] then version_execute v home parses args w
           else CommandFailed (UnknownCommand name) w))"

text \<open>The program: package initialisation (\<open>root.go\<close>'s \<open>init\<close>; those of \<open>sort.go\<close> and
  \<open>version.go\<close> only register their commands and flags), then \<open>Execute\<close>.\<close>

definition program :: "path \<Rightarrow> string + path \<Rightarrow> (string \<Rightarrow> bool) \<Rightarrow> string list \<Rightarrow> world \<Rightarrow> outcome" where
  "program cwd home parses argv w =
     (case root_init w of (_, v, w) \<Rightarrow> execute v cwd home parses argv w)"

subsection \<open>Output only grows\<close>

lemma out_trans:
  "w_out b = w_out a @ x \<Longrightarrow> w_out c = w_out b @ y \<Longrightarrow> \<exists>out. w_out c = w_out a @ out"
  by simp

lemma init_config_out:
  "init_config cfg home parses v w = Inl (e, w') \<or> init_config cfg home parses v w = Inr (v', w') \<Longrightarrow>
   \<exists>out. w_out w' = w_out w @ out"
  by (auto simp: init_config_def Let_def println_def split: sum.splits if_splits)

lemma dry_run_out_dest:
  "dry_run fh w = Inl (p, w') \<or> dry_run fh w = Inr w' \<Longrightarrow> \<exists>out. w_out w' = w_out w @ out"
  using dry_run_out [of fh w] by auto

lemma sort_run_out:
  "sort_run cwd flags args w = Inl (p, w') \<or> sort_run cwd flags args w = Inr w' \<Longrightarrow>
   \<exists>out. w_out w' = w_out w @ out"
  by (auto simp: sort_run_def split: sum.splits list.splits if_splits) (metis dry_run_out_dest move_files_out)+

lemma sort_execute_out:
  "\<exists>out. w_out (outcome_world (sort_execute v cwd home parses args w)) = w_out w @ out"
proof (cases "parse_args sort_flags args []")
  case (Inr r)
  obtain flags pos where r: "r = (flags, pos)" by (cases r)
  show ?thesis
  proof (cases "init_config [] home parses v w")
    case (Inl e)
    then show ?thesis using Inr r init_config_out [of "[]" home parses v w "fst e" "snd e"]
      by (auto simp: sort_execute_def case_prod_beta)
  next
    case (Inr r2)
    obtain v' w1 where r2: "r2 = (v', w1)" by (cases r2)
    obtain o1 where o1: "w_out w1 = w_out w @ o1"
      using init_config_out [of "[]" home parses v w _ w1 v'] Inr r2 by blast
    show ?thesis
    proof (cases "sort_run cwd flags pos w1")
      case (Inl e)
      obtain o2 where "w_out (snd e) = w_out w1 @ o2"
        using sort_run_out [of cwd flags pos w1 "fst e" "snd e"] Inl by auto
      with o1 show ?thesis using \<open>parse_args sort_flags args [] = Inr r\<close> r Inr r2 Inl
        by (auto simp: sort_execute_def split: option.splits prod.splits)
    next
      case (Inr w2)
      obtain o2 where "w_out w2 = w_out w1 @ o2"
        using sort_run_out [of cwd flags pos w1 _ w2] Inr by auto
      with o1 show ?thesis using \<open>parse_args sort_flags args [] = Inr r\<close> r \<open>init_config [] home parses v w = Inr r2\<close> r2 Inr
        by (auto simp: sort_execute_def split: option.splits)
    qed
  qed
qed (simp add: sort_execute_def)

lemma execute_out:
  "\<exists>out. w_out (outcome_world (execute v cwd home parses argv w)) = w_out w @ out"
proof -
  have root: "\<exists>out. w_out (outcome_world (root_execute args w)) = w_out w @ out" for args
    by (auto simp: root_execute_def println_def split: sum.splits)
  have version: "\<exists>out. w_out (outcome_world (version_execute v home parses args w)) = w_out w @ out" for args
    using init_config_out [of "[]" home parses v w]
    by (fastforce simp: version_execute_def version_run_def println_def split: sum.splits)
  show ?thesis
    using root version sort_execute_out [of v cwd home parses _ w]
    by (auto simp: execute_def Let_def split: list.splits)
qed

subsection \<open>Properties of the command layer\<close>

text \<open>
  C27: Because the root's \<open>init\<close> runs at every start of the program, every invocation,
  whatever its command line, first prints the viper error \<open>flag for "author" is nil\<close> to
  standard output; everything else it prints comes after.
\<close>

theorem program_prints_author_error:
  "\<exists>out. w_out (outcome_world (program cwd home parses argv w)) =
     w_out w @ [''flag for '' @ [CHR 0x22] @ ''author'' @ [CHR 0x22] @ '' is nil''] @ out"
  using execute_out [of viper_new cwd home parses argv
      "w\<lparr>w_out := w_out w @ [''flag for '' @ [CHR 0x22] @ ''author'' @ [CHR 0x22] @ '' is nil'']\<rparr>"]
  by (simp add: program_def root_init_eq)

text \<open>
  C25: Round trip. Writing an exclusion list as repeated \<open>--exclude\<close> options before the
  directory argument and parsing the command line against the flags of \<open>sort\<close> gives back
  the list, in its order and with its repetitions, the directory as the only positional
  argument, \<open>--dry-run\<close> still false, and every other flag as declared.
\<close>

theorem sort_exclude_roundtrip:
  assumes "length dir \<le> 1 \<or> hd dir \<noteq> CHR ''-''"
  shows "\<exists>fs'. parse_args sort_flags (concat (map (\<lambda>e. [''--exclude'', e]) es) @ [dir]) [] = Inr (fs', [dir]) \<and>
           get_string_array fs' ''exclude'' = Inr es \<and> get_bool fs' ''dry-run'' = Inr False \<and>
           (\<forall>n. n \<noteq> ''exclude'' \<longrightarrow> map_of fs' n = map_of sort_flags n)"
proof -
  have ex: "map_of sort_flags ''exclude'' = Some (new_flag (StringArrayFlag []))"
    by (simp add: sort_flags_def)
  have "parse_args sort_flags (concat (map (\<lambda>e. [''--exclude'', e]) es) @ [dir]) [] =
        parse_args (if es = [] then sort_flags
                    else AList.update ''exclude''
                      ((new_flag (StringArrayFlag []))\<lparr>pf_value := StringArrayFlag es, pf_changed := True\<rparr>) sort_flags)
          [dir] []"
    using parse_args_exclude [OF ex, of "[]" es "[dir]" "[]"] by (simp add: new_flag_def del: parse_args.simps)
  then show ?thesis using assms
    by (simp add: parse_args_positional get_string_array_def get_bool_def new_flag_def sort_flags_def
        del: parse_args.simps(2))
qed

theorem sort_exclude_roundtrip_witness:
  "(\<exists>fs'. parse_args sort_flags
            [''--exclude'', ''b.txt'', ''--exclude'', ''-x'', ''--exclude'', ''b.txt'', ''/w''] [] = Inr (fs', [''/w'']) \<and>
          get_string_array fs' ''exclude'' = Inr [''b.txt'', ''-x'', ''b.txt''])"
  using sort_exclude_roundtrip [of "''/w''" "[''b.txt'', ''-x'', ''b.txt'']"]
  by (simp del: parse_args.simps) blast

text \<open>
  C26: \<open>sort\<close> takes exactly one positional argument: when the flags parse, help is not asked
  for, and the command line leaves another number of positional arguments, the command
  fails with cobra's argument-count error and the file system is unchanged.
\<close>

theorem sort_needs_one_argument:
  assumes "parse_args sort_flags args [] = Inr (flags, pos)"
    and "get_bool flags ''help'' \<noteq> Inr True" and "length pos \<noteq> 1"
  shows "\<exists>w'. sort_execute viper_new cwd (Inr h) parses args w = CommandFailed (ArgCount 1 (length pos)) w' \<and>
           w_fs w' = w_fs w"
proof -
  obtain v' w' where "init_config [] (Inr h) parses viper_new w = Inr (v', w')" "w_fs w' = w_fs w"
    using init_config_home_Inr [of h parses w] by blast
  with assms show ?thesis by (simp add: sort_execute_def exact_args_def)
qed

theorem sort_needs_one_argument_witness:
  "parse_args sort_flags [''--dry-run'', ''/w'', ''/x''] [] =
     Inr (AList.update ''dry-run'' \<lparr>pf_value = BoolFlag True, pf_changed = True\<rparr> sort_flags, [''/w'', ''/x'']) \<and>
   get_bool (AList.update ''dry-run'' \<lparr>pf_value = BoolFlag True, pf_changed = True\<rparr> sort_flags) ''help'' \<noteq> Inr True \<and>
   (\<exists>w'. sort_execute viper_new ''/'' (Inr ''/home'') (\<lambda>_. True) [''--dry-run'', ''/w'', ''/x'']
           \<lparr>w_fs = [([], Dir True True)], w_out = []\<rparr> = CommandFailed (ArgCount 1 2) w' \<and>
         w_fs w' = [([], Dir True True)])"
proof -
  have p: "parse_args sort_flags [''--dry-run'', ''/w'', ''/x''] [] =
     Inr (AList.update ''dry-run'' \<lparr>pf_value = BoolFlag True, pf_changed = True\<rparr> sort_flags, [''/w'', ''/x''])"
    by (simp add: sort_flags_def new_flag_def flag_set_value_def is_bool_flag_def parse_bool_def)
  have h: "get_bool (AList.update ''dry-run'' \<lparr>pf_value = BoolFlag True, pf_changed = True\<rparr> sort_flags) ''help'' \<noteq> Inr True"
    by (simp add: sort_flags_def new_flag_def get_bool_def)
  show ?thesis
    using sort_needs_one_argument [OF p h, where cwd = "''/''" and h = "''/home''" and parses = "\<lambda>_. True"
        and w = "\<lparr>w_fs = [([], Dir True True)], w_out = []\<rparr>"] p h
    by (simp add: numeral_2_eq_2 del: parse_args.simps)
qed

text \<open>
  C29: \<open>declutter version\<close> completes, leaves the file system as it was, and its last line
  of output is \<open>v0.0.1\<close>.
\<close>

theorem version_prints_version:
  "\<exists>w'. execute viper_new cwd (Inr h) parses [''version''] w = Completed w' \<and> w_fs w' = w_fs w \<and>
     last (w_out w') = ''v0.0.1''"
proof -
  obtain v' w' where "init_config [] (Inr h) parses viper_new w = Inr (v', w')" "w_fs w' = w_fs w"
    using init_config_home_Inr [of h parses w] by blast
  then show ?thesis
    by (simp add: execute_def version_execute_def version_flags_def new_flag_def get_bool_def
        version_run_def root_version_def println_def)
qed

end
