(* ===== verification/Spec2Isabelle.thy ===== *)
theory Spec2Isabelle
  imports Cli
begin

text \<open>
  \<^bold>\<open>A verification library for declutter-cli.\<close>
  declutter sorts the files of one directory into category subdirectories by extension.
  The program has three layers, and the theories follow them.

  \<^item> The core, \<open>src/tools/helpers/sort.go\<close>. \<open>InitializeFileHandler\<close> builds the plan
    (\<open>FileHandler\<close>: seven \<open>DirInfo\<close> fields, the exclusion list, the absolute working
    directory); \<open>FilterDirectories\<close> lists the non-directories of the working directory;
    \<open>SortFiles\<close> appends each to the field of its category (\<open>MustGetExtension\<close> and the
    switch); \<open>DryRun\<close> prints the plan and \<open>MoveFiles\<close> carries it out.
  \<^item> The commands, \<open>src/cmd\<close>: \<open>sort.go\<close> (flags \<open>--dry-run\<close>, \<open>--exclude\<close>, one argument, the
    handler \<open>run\<close>), \<open>root.go\<close> (persistent flag, viper bindings and defaults, \<open>initConfig\<close>,
    \<open>Execute\<close>) and \<open>version.go\<close>.
  \<^item> The libraries and the kernel the program calls: \<open>os\<close>, \<open>filepath\<close>, \<open>strings\<close>, cobra,
    pflag and viper. They are modelled from their documented behaviour (spec-modelled).

  \<^bold>\<open>Theories.\<close>
  \<^item> \<open>Prelude\<close>: Go slicing and \<open>strings.Repeat\<close> as option (None is the panic), lemma
    collections, generic facts on association lists and lists.
  \<^item> \<open>FileSystem\<close>: the file system as an association list from component paths to nodes
    (directory with read and write permission, regular file, symbolic link) with the
    invariant \<open>wf_fs\<close>; path resolution as the kernel does it (\<open>walk\<close>: symbolic links are
    followed before the last component, and at it for \<open>Stat\<close>, \<open>ReadDir\<close> and the parents of
    \<open>Mkdir\<close> and \<open>Rename\<close>); \<open>os.ReadDir\<close>, \<open>Lstat\<close>, \<open>Stat\<close>, \<open>Mkdir\<close>, \<open>Rename\<close>,
    \<open>IsNotExist\<close> with their errors; \<open>filepath.Abs\<close>; the world of file system and standard
    output. Lemmas: each operation's result on every branch, and that it keeps \<open>wf_fs\<close>.
  \<^item> \<open>Classifier\<close>: the constants, \<open>strings.LastIndex\<close> as a terminating loop,
    \<open>MustGetExtension\<close> and the switch of \<open>SortFiles\<close>; refinement of the spec's rule table.
  \<^item> \<open>Handler\<close>: the records and \<open>InitializeFileHandler\<close>; the fields in declaration order.
  \<^item> \<open>Scan\<close>: \<open>FilterDirectories\<close> and \<open>SortFiles\<close>, with panics as \<open>Inl\<close>; the scan lists exactly
    the non-directories, sorted and distinct; the plan partitions them.
  \<^item> \<open>DryRun\<close>: \<open>ellipsis\<close>, \<open>constructArrow\<close>, \<open>DryRun\<close>. The lines modelled are those given to
    the tab writer; its column alignment is display formatting and is not modelled.
  \<^item> \<open>Move\<close>: \<open>MoveFiles\<close> as \<open>ensure_dir\<close>, the loop over the files of a field and the loop over
    the fields. The abstract specification \<open>move_spec\<close> works on the map view of the file
    system; under \<open>move_ready\<close> the executor refines it, messages included, and the
    pointwise lemmas say where each file goes and what stays; outside it, the panics of a
    read-only working directory, of a regular file named like a category directory, and of
    a dangling link in place of one.
  \<^item> \<open>Flags\<close>: the pflag flag set and parser, and \<open>ExactArgs\<close>. \<open>Config\<close>: viper's state, \<open>root.go\<close>'s
    \<open>init\<close> and \<open>initConfig\<close>, and the version handler. \<open>Cli\<close>: the \<open>sort\<close> handler \<open>run\<close>, cobra's
    dispatch \<open>execute\<close>, and the program (initialisation, then \<open>Execute\<close>).
  \<^item> This theory composes them: the plan the pipeline builds (\<open>sorted_handler\<close>), the
    conditions under which it is ready to move, and the end-to-end theorems on command
    lines \<open>declutter sort [--dry-run] --exclude ... DIR\<close>, with the scenarios of spec
    section 8 as witnesses.

  \<^bold>\<open>Effects and errors.\<close> Every operation threads a \<open>world\<close>. A Go panic is \<open>Inl\<close> of the panic
  value and the world at that moment, so the effects before it are kept (no rollback). A
  run of the program ends in one of the \<open>outcome\<close>s: completed, panicked, failed with a cobra
  error, exited by \<open>cobra.CheckErr\<close>, or help shown. Every loop of the program iterates a
  finite list and is structural recursion; \<open>strings.LastIndex\<close> is a \<open>function\<close> with a
  measure. The one bound is the kernel's: a path lookup follows at most \<open>max_symlinks\<close> = 40
  symbolic links and fails with \<open>ELOOP\<close> after that, as Linux does, so \<open>walk\<close> is total and
  this bound is the kernel's behaviour, not an approximation of it.

  \<^bold>\<open>Not modelled.\<close> The tab writer's alignment; cobra's help and usage texts (the outcome
  \<open>HelpShown\<close> stands for them); shorthand flags other than \<open>-h\<close>; flags given as \<open>-f=v\<close>;
  parsing of the YAML configuration (a parameter \<open>parses\<close>); cobra's automatic \<open>help\<close> and
  \<open>completion\<close> subcommands (\<open>declutter help\<close> is an unknown command here); the panic of
  \<open>InitializeFileHandler\<close> when \<open>filepath.Abs\<close> fails, which needs \<open>os.Getwd\<close> to fail (the
  process's working directory is a parameter \<open>cwd\<close>); search permission and the privileges
  of root; \<open>..\<close> in a path given to a system call is cleaned lexically, which is exact for
  the program, whose paths all come cleaned from \<open>filepath.Abs\<close>; file contents beyond their
  identity; \<open>main.go\<close> is outside \<open>src\<close> and is taken to call \<open>cmd.Execute\<close>.
\<close>

definition sorted_handler :: "fs \<Rightarrow> path \<Rightarrow> path \<Rightarrow> string list \<Rightarrow> file_handler" where
  "sorted_handler fs cwd dir excl =
     (let fh = initialize_file_handler cwd dir excl; raw = scan_files fs (file_path_abs cwd dir)
      in fh\<lparr>raw_files := raw, directory_map := classify_into raw (directory_map fh)\<rparr>)"

definition sort_command_line :: "bool \<Rightarrow> string list \<Rightarrow> path \<Rightarrow> string list" where
  "sort_command_line dry excl dir =
     ''sort'' # (if dry then [''--dry-run''] else []) @ concat (map (\<lambda>e. [''--exclude'', e]) excl) @ [dir]"

text \<open>The scenario of spec section 8: a working directory \<open>/w\<close> holding an image, a text
  file and a file of unknown extension.\<close>

definition spec_fs :: fs where
  "spec_fs =
     [([], Dir True True), ([''w''], Dir True True), ([''w'', ''a.png''], Reg ''png data''),
      ([''w'', ''b.txt''], Reg ''text''), ([''w'', ''c.unknown''], Reg ''bytes'')]"

lemma sorted_handler_scalars:
  "working_dir (sorted_handler fs cwd dir excl) = file_path_abs cwd dir \<and>
   excluded (sorted_handler fs cwd dir excl) = excl"
  by (simp add: sorted_handler_def init_scalars Let_def)

lemma sorted_handler_field:
  "field_of c (directory_map (sorted_handler fs cwd dir excl)) =
     \<lparr>path = file_path_abs cwd dir @ ''/'' @ dir_name c,
      files = filter (\<lambda>f. classify (fi_name f) = c) (scan_files fs (file_path_abs cwd dir))\<rparr>"
  by (simp add: sorted_handler_def classify_into_field init_field Let_def)

lemma sorted_handler_target:
  "components (path (field_of c (directory_map (sorted_handler fs cwd dir excl)))) =
     components (file_path_abs cwd dir) @ [dir_name c]"
  using dir_name_good [of c] by (simp add: sorted_handler_field components_child)

lemma sort_run_plan:
  assumes "wf_fs (w_fs w)" and "map_of (w_fs w) (components (file_path_abs cwd dir)) = Some (Dir True wr)"
    and "get_bool flags ''dry-run'' = Inr b" and "get_string_array flags ''exclude'' = Inr excl"
  shows "sort_run cwd flags [dir] w =
           (if b then dry_run (sorted_handler (w_fs w) cwd dir excl) w
            else move_files (sorted_handler (w_fs w) cwd dir excl) w)"
proof -
  let ?fh = "initialize_file_handler cwd dir excl"
  have "map_of (w_fs w) (components (working_dir ?fh)) = Some (Dir True wr)"
    using assms(2) by (simp add: init_scalars)
  from filter_directories_ok [OF assms(1) this] assms(3,4) show ?thesis
    by (simp add: sort_run_def sort_files_eq sorted_handler_def init_scalars Let_def)
qed

lemma classify_partition_mset:
  "mset (concat (map (\<lambda>c. filter (\<lambda>f. classify (fi_name f) = c) xs) all_categories)) = mset xs"
  using mset_concat_filter_partition [OF distinct_all_categories, of "\<lambda>f. classify (fi_name f)" xs]
  by (simp add: all_categories_complete)

lemma sorted_handler_ready:
  assumes wf: "wf_fs fs" and k: "components (file_path_abs cwd dir) = k"
    and kdir: "map_of fs k = Some (Dir True True)"
    and targets: "\<forall>c. map_of fs (k @ [dir_name c]) = None \<or> (\<exists>r. map_of fs (k @ [dir_name c]) = Some (Dir r True))"
    and slots: "\<forall>n nd. map_of fs (k @ [n]) = Some nd \<longrightarrow> \<not> is_dir nd \<longrightarrow> n \<notin> set excl \<longrightarrow>
                  \<not> is_dir_at fs (k @ [dir_name (classify n), n])"
  shows "move_ready fs (sorted_handler fs cwd dir excl)"
proof -
  let ?fh = "sorted_handler fs cwd dir excl" and ?raw = "scan_files fs (file_path_abs cwd dir)"
  let ?live = "\<lambda>f. fi_name f \<notin> set excl"
  have ds: "dir_fields (directory_map ?fh) = map (\<lambda>c. field_of c (directory_map ?fh)) all_categories"
    by (rule dir_fields_categories)
  have t: "\<And>c. components (path (field_of c (directory_map ?fh))) = k @ [dir_name c]"
    using k by (simp add: sorted_handler_target)
  have files: "\<And>c. files (field_of c (directory_map ?fh)) = filter (\<lambda>f. classify (fi_name f) = c) ?raw"
    by (simp add: sorted_handler_field)
  have dist_t: "distinct (map (\<lambda>d. components (path d)) (dir_fields (directory_map ?fh)))"
    using distinct_all_categories by (simp add: ds t distinct_map inj_on_def dir_name_inj comp_def)
  have "mset (map fi_name (concat (map files (dir_fields (directory_map ?fh))))) = mset (map fi_name ?raw)"
    using classify_partition_mset [of ?raw] by (simp add: ds files comp_def)
  then have "distinct (map fi_name (concat (map files (dir_fields (directory_map ?fh)))))"
    using scan_files_sorted_distinct [OF wf] by (metis mset_eq_imp_distinct_iff)
  then have dist_n: "distinct (map fi_name (filter ?live (concat (map files (dir_fields (directory_map ?fh))))))"
    by (simp add: distinct_map_filter)
  have tw: "\<forall>c \<in> set all_categories. case map_of fs (k @ [dir_name c]) of
              None \<Rightarrow> True | Some (Dir _ wr) \<Rightarrow> wr | Some _ \<Rightarrow> False"
  proof
    fix c
    from targets have "map_of fs (k @ [dir_name c]) = None \<or> (\<exists>r. map_of fs (k @ [dir_name c]) = Some (Dir r True))" ..
    then show "case map_of fs (k @ [dir_name c]) of None \<Rightarrow> True | Some (Dir _ wr) \<Rightarrow> wr | Some _ \<Rightarrow> False"
      by auto
  qed
  have fl: "\<forall>c \<in> set all_categories. \<forall>f \<in> set (filter (\<lambda>f. classify (fi_name f) = c) ?raw).
      fi_name f \<in> set excl \<or> (good_name (fi_name f) \<and>
        (case map_of fs (k @ [fi_name f]) of Some nd \<Rightarrow> \<not> is_dir nd | None \<Rightarrow> False) \<and>
        \<not> is_dir_at fs ((k @ [dir_name c]) @ [fi_name f]))"
  proof (intro ballI)
    fix c f assume "f \<in> set (filter (\<lambda>f. classify (fi_name f) = c) ?raw)"
    then have f: "f \<in> set ?raw" "classify (fi_name f) = c" by auto
    from scan_files_member [OF wf f(1)] k obtain nd where
      "map_of fs (k @ [fi_name f]) = Some nd" "\<not> is_dir nd" "good_name (fi_name f)" by auto
    with slots f(2) show "fi_name f \<in> set excl \<or> (good_name (fi_name f) \<and>
        (case map_of fs (k @ [fi_name f]) of Some nd \<Rightarrow> \<not> is_dir nd | None \<Rightarrow> False) \<and>
        \<not> is_dir_at fs ((k @ [dir_name c]) @ [fi_name f]))" by auto
  qed
  show ?thesis
    unfolding move_ready_def Let_def
    using wf kdir dist_t dist_n tw fl
    by (simp add: sorted_handler_scalars k ds t files list_all_iff)
qed

lemma parse_sort_command_line:
  assumes "length dir \<le> 1 \<or> hd dir \<noteq> CHR ''-''"
  shows "\<exists>flags. parse_args sort_flags (tl (sort_command_line dry excl dir)) [] = Inr (flags, [dir]) \<and>
           get_bool flags ''help'' = Inr False \<and> get_bool flags ''dry-run'' = Inr dry \<and>
           get_string_array flags ''exclude'' = Inr excl"
proof -
  define fs1 where "fs1 = (if dry then AList.update ''dry-run'' \<lparr>pf_value = BoolFlag True, pf_changed = True\<rparr> sort_flags
                          else sort_flags)"
  have p1: "parse_args sort_flags (tl (sort_command_line dry excl dir)) [] =
            parse_args fs1 (concat (map (\<lambda>e. [''--exclude'', e]) excl) @ [dir]) []"
    by (simp add: sort_command_line_def fs1_def sort_flags_def new_flag_def flag_set_value_def
        is_bool_flag_def parse_bool_def del: parse_args.simps(2))
      (simp add: sort_flags_def new_flag_def flag_set_value_def is_bool_flag_def parse_bool_def)
  have ex: "map_of fs1 ''exclude'' = Some (new_flag (StringArrayFlag []))"
    by (simp add: fs1_def sort_flags_def)
  define fs2 where "fs2 = (if excl = [] then fs1
                          else AList.update ''exclude''
                            ((new_flag (StringArrayFlag []))\<lparr>pf_value := StringArrayFlag excl, pf_changed := True\<rparr>) fs1)"
  have "parse_args fs1 (concat (map (\<lambda>e. [''--exclude'', e]) excl) @ [dir]) [] = parse_args fs2 [dir] []"
    using parse_args_exclude [OF ex, of "[]" excl "[dir]" "[]"] by (simp add: fs2_def new_flag_def del: parse_args.simps)
  also have "\<dots> = Inr (fs2, [dir])" using assms by (simp add: parse_args_positional del: parse_args.simps(2))
  finally have "parse_args sort_flags (tl (sort_command_line dry excl dir)) [] = Inr (fs2, [dir])"
    using p1 by simp
  moreover have "get_bool fs2 ''help'' = Inr False \<and> get_bool fs2 ''dry-run'' = Inr dry \<and>
                 get_string_array fs2 ''exclude'' = Inr excl"
    by (simp add: fs2_def fs1_def sort_flags_def new_flag_def get_bool_def get_string_array_def)
  ultimately show ?thesis by blast
qed

lemma execute_sort_command_line:
  assumes "length dir \<le> 1 \<or> hd dir \<noteq> CHR ''-''"
  shows "\<exists>flags. get_bool flags ''dry-run'' = Inr dry \<and> get_string_array flags ''exclude'' = Inr excl \<and>
           execute viper_new cwd home parses (sort_command_line dry excl dir) w =
             (case init_config [] home parses viper_new w of
                Inl (err, w1) \<Rightarrow> Exited err w1
              | Inr (_, w1) \<Rightarrow>
                  (case sort_run cwd flags [dir] w1 of Inl (p, w2) \<Rightarrow> Panicked p w2 | Inr w2 \<Rightarrow> Completed w2))"
proof -
  obtain flags where p: "parse_args sort_flags (tl (sort_command_line dry excl dir)) [] = Inr (flags, [dir])"
    and f: "get_bool flags ''help'' = Inr False" "get_bool flags ''dry-run'' = Inr dry"
      "get_string_array flags ''exclude'' = Inr excl"
    using parse_sort_command_line [OF assms] by blast
  have "strip_flags (sort_command_line dry excl dir) = ''sort'' # strip_flags (tl (sort_command_line dry excl dir))"
    by (simp add: sort_command_line_def)
  moreover have "remove1 ''sort'' (sort_command_line dry excl dir) = tl (sort_command_line dry excl dir)"
    by (simp add: sort_command_line_def)
  ultimately have "execute viper_new cwd home parses (sort_command_line dry excl dir) w =
      sort_execute viper_new cwd home parses (tl (sort_command_line dry excl dir)) w"
    by (simp add: execute_def)
  also have "\<dots> = (case init_config [] home parses viper_new w of
                Inl (err, w1) \<Rightarrow> Exited err w1
              | Inr (_, w1) \<Rightarrow>
                  (case sort_run cwd flags [dir] w1 of Inl (p, w2) \<Rightarrow> Panicked p w2 | Inr w2 \<Rightarrow> Completed w2))"
    using p f by (simp add: sort_execute_def exact_args_def del: parse_args.simps split: sum.splits prod.splits)
  finally show ?thesis using f by blast
qed

lemma execute_sort_home:
  assumes "length dir \<le> 1 \<or> hd dir \<noteq> CHR ''-''"
  shows "\<exists>flags w1. w_fs w1 = w_fs w \<and> (\<exists>out. w_out w1 = w_out w @ out) \<and>
           get_bool flags ''dry-run'' = Inr dry \<and> get_string_array flags ''exclude'' = Inr excl \<and>
           execute viper_new cwd (Inr h) parses (sort_command_line dry excl dir) w =
             (case sort_run cwd flags [dir] w1 of Inl (p, w2) \<Rightarrow> Panicked p w2 | Inr w2 \<Rightarrow> Completed w2)"
proof -
  obtain flags where f: "get_bool flags ''dry-run'' = Inr dry" "get_string_array flags ''exclude'' = Inr excl"
    and e: "execute viper_new cwd (Inr h) parses (sort_command_line dry excl dir) w =
             (case init_config [] (Inr h) parses viper_new w of
                Inl (err, w1) \<Rightarrow> Exited err w1
              | Inr (_, w1) \<Rightarrow>
                  (case sort_run cwd flags [dir] w1 of Inl (p, w2) \<Rightarrow> Panicked p w2 | Inr w2 \<Rightarrow> Completed w2))"
    using execute_sort_command_line [OF assms] by blast
  obtain v' w1 where "init_config [] (Inr h) parses viper_new w = Inr (v', w1)" "w_fs w1 = w_fs w"
    "\<exists>out. w_out w1 = w_out w @ out"
    using init_config_home_Inr [of h parses w] by blast
  with f e show ?thesis by auto
qed

lemma spec_plan:
  "dir_fields (directory_map (sorted_handler spec_fs ''/'' ''/w'' [''b.txt''])) =
     [\<lparr>path = ''/w/images'', files = [\<lparr>fi_name = ''a.png'', fi_mode = ModeRegular\<rparr>]\<rparr>,
      \<lparr>path = ''/w/documents'', files = [\<lparr>fi_name = ''b.txt'', fi_mode = ModeRegular\<rparr>]\<rparr>,
      \<lparr>path = ''/w/pdf'', files = []\<rparr>, \<lparr>path = ''/w/media'', files = []\<rparr>,
      \<lparr>path = ''/w/zips'', files = []\<rparr>, \<lparr>path = ''/w/programming'', files = []\<rparr>,
      \<lparr>path = ''/w/other'', files = [\<lparr>fi_name = ''c.unknown'', fi_mode = ModeRegular\<rparr>]\<rparr>]"
  by (simp add: dir_fields_categories all_categories_def sorted_handler_field file_path_abs_def clean_rooted_def
      scan_files_def spec_fs_def fs_eval classify_def ext_suffix_def extension_rules_def dir_consts)

lemma field_in_dir_fields: "field_of c m \<in> set (dir_fields m)"
  by (simp add: dir_fields_categories all_categories_complete)

text \<open>
  C1: End to end, move mode. Run \<open>declutter sort --exclude e1 ... DIR\<close> on a well-formed file
  system where \<open>DIR\<close> resolves to a readable and writable directory \<open>K\<close>, every category
  directory \<open>K/c\<close> is absent or a writable directory, and no moved file meets a directory of
  its name in its target. Then the command completes, the file system stays well formed,
  every excluded non-directory of \<open>K\<close> stays, every other one is now \<open>K/c/n\<close> with \<open>c\<close> its
  category and no longer in \<open>K\<close>, and all seven category directories exist.
\<close>

theorem sort_move_end_to_end:
  assumes dir: "length dir \<le> 1 \<or> hd dir \<noteq> CHR ''-''"
    and wf: "wf_fs (w_fs w)" and k: "components (file_path_abs cwd dir) = k"
    and kdir: "map_of (w_fs w) k = Some (Dir True True)"
    and targets: "\<forall>c. map_of (w_fs w) (k @ [dir_name c]) = None \<or>
                      (\<exists>r. map_of (w_fs w) (k @ [dir_name c]) = Some (Dir r True))"
    and slots: "\<forall>n nd. map_of (w_fs w) (k @ [n]) = Some nd \<longrightarrow> \<not> is_dir nd \<longrightarrow> n \<notin> set excl \<longrightarrow>
                  \<not> is_dir_at (w_fs w) (k @ [dir_name (classify n), n])"
  shows "\<exists>w'. execute viper_new cwd (Inr h) parses (sort_command_line False excl dir) w = Completed w' \<and>
           wf_fs (w_fs w') \<and>
           (\<forall>n nd. map_of (w_fs w) (k @ [n]) = Some nd \<longrightarrow> \<not> is_dir nd \<longrightarrow>
              (if n \<in> set excl then map_of (w_fs w') (k @ [n]) = Some nd
               else map_of (w_fs w') (k @ [dir_name (classify n), n]) = Some nd \<and>
                    map_of (w_fs w') (k @ [n]) = None)) \<and>
           (\<forall>c. is_dir_at (w_fs w') (k @ [dir_name c]))"
proof -
  obtain flags w1 where w1: "w_fs w1 = w_fs w"
    and fl: "get_bool flags ''dry-run'' = Inr False" "get_string_array flags ''exclude'' = Inr excl"
    and ex: "execute viper_new cwd (Inr h) parses (sort_command_line False excl dir) w =
             (case sort_run cwd flags [dir] w1 of Inl (p, w2) \<Rightarrow> Panicked p w2 | Inr w2 \<Rightarrow> Completed w2)"
    using execute_sort_home [OF dir, where dry = False and excl = excl and cwd = cwd and h = h
        and parses = parses and w = w] by blast
  let ?fs = "w_fs w" and ?fh = "sorted_handler (w_fs w) cwd dir excl"
  let ?spec = "move_spec (components (working_dir ?fh)) (excluded ?fh) (dir_fields (directory_map ?fh)) (map_of ?fs)"
  have run: "sort_run cwd flags [dir] w1 = move_files ?fh w1"
    using sort_run_plan [where w = w1 and cwd = cwd and dir = dir and wr = True and flags = flags
        and b = False and excl = excl] wf kdir k w1 fl by simp
  have ready: "move_ready (w_fs w1) ?fh"
    using sorted_handler_ready [OF wf k kdir targets slots] w1 by simp
  obtain w' where mv: "move_files ?fh w1 = Inr w'" using move_files_Inr [OF ready] by blast
  have res: "map_of (w_fs w') = ?spec" using move_files_result [OF ready mv] w1 by simp
  have ready': "move_ready ?fs ?fh" using ready w1 by simp
  have kk: "components (working_dir ?fh) = k" using k by (simp add: sorted_handler_scalars)
  have files: "\<forall>n nd. map_of ?fs (k @ [n]) = Some nd \<longrightarrow> \<not> is_dir nd \<longrightarrow>
              (if n \<in> set excl then map_of (w_fs w') (k @ [n]) = Some nd
               else map_of (w_fs w') (k @ [dir_name (classify n), n]) = Some nd \<and>
                    map_of (w_fs w') (k @ [n]) = None)"
  proof (intro allI impI)
    fix n nd assume n: "map_of ?fs (k @ [n]) = Some nd" "\<not> is_dir nd"
    show "if n \<in> set excl then map_of (w_fs w') (k @ [n]) = Some nd
          else map_of (w_fs w') (k @ [dir_name (classify n), n]) = Some nd \<and> map_of (w_fs w') (k @ [n]) = None"
    proof (cases "n \<in> set excl")
      case True
      then show ?thesis
        using move_spec_excluded [OF ready', of n nd] n by (simp add: res kk k sorted_handler_scalars)
    next
      case False
      let ?f = "\<lparr>fi_name = n, fi_mode = mode_of nd\<rparr>" and ?d = "field_of (classify n) (directory_map ?fh)"
      have "?f \<in> set (scan_files ?fs (file_path_abs cwd dir))"
        using scan_files_complete [of ?fs "file_path_abs cwd dir" n nd] n k by simp
      then have "?f \<in> set (files ?d)" by (simp add: sorted_handler_field)
      from move_spec_moved [OF ready' field_in_dir_fields this] False n show ?thesis
        by (simp add: res kk sorted_handler_scalars sorted_handler_target k)
    qed
  qed
  have "\<forall>c. is_dir_at (w_fs w') (k @ [dir_name c])"
  proof
    fix c
    from move_spec_targets [OF ready' field_in_dir_fields [of c]] obtain r where
      "?spec (components (path (field_of c (directory_map ?fh)))) = Some (Dir r True)" by blast
    then show "is_dir_at (w_fs w') (k @ [dir_name c])"
      by (simp add: res sorted_handler_target k is_dir_at_def)
  qed
  moreover have "wf_fs (w_fs w')" by (rule move_files_wf [OF ready mv])
  ultimately show ?thesis using ex run mv files by simp
qed

theorem sort_move_end_to_end_witness:
  "wf_fs spec_fs \<and>
   components (file_path_abs ''/'' ''/w'') = [''w''] \<and> map_of spec_fs [''w''] = Some (Dir True True) \<and>
   (\<forall>c. map_of spec_fs ([''w''] @ [dir_name c]) = None) \<and>
   (\<exists>w'. execute viper_new ''/'' (Inr ''/home'') (\<lambda>_. True) (sort_command_line False [''b.txt''] ''/w'')
            \<lparr>w_fs = spec_fs, w_out = []\<rparr> = Completed w' \<and>
         map_of (w_fs w') [''w'', ''images'', ''a.png''] = Some (Reg ''png data'') \<and>
         map_of (w_fs w') [''w'', ''other'', ''c.unknown''] = Some (Reg ''bytes'') \<and>
         map_of (w_fs w') [''w'', ''b.txt''] = Some (Reg ''text'') \<and>
         map_of (w_fs w') [''w'', ''a.png''] = None \<and> is_dir_at (w_fs w') [''w'', ''pdf''])"
proof -
  have wf: "wf_fs spec_fs" by (simp add: spec_fs_def fs_eval)
  have k: "components (file_path_abs ''/'' ''/w'') = [''w'']"
    by (simp add: file_path_abs_def clean_rooted_def fs_eval)
  have kdir: "map_of spec_fs [''w''] = Some (Dir True True)" by (simp add: spec_fs_def)
  have t: "\<forall>c. map_of spec_fs ([''w''] @ [dir_name c]) = None"
  proof
    fix c show "map_of spec_fs ([''w''] @ [dir_name c]) = None"
      by (cases c) (simp_all add: spec_fs_def dir_consts)
  qed
  have s: "\<forall>n nd. map_of spec_fs ([''w''] @ [n]) = Some nd \<longrightarrow>
             \<not> is_dir_at spec_fs ([''w''] @ [dir_name (classify n), n])"
    by (auto simp: spec_fs_def is_dir_at_def split: if_splits)
  obtain w' where e: "execute viper_new ''/'' (Inr ''/home'') (\<lambda>_. True) (sort_command_line False [''b.txt''] ''/w'')
            \<lparr>w_fs = spec_fs, w_out = []\<rparr> = Completed w'" and wf': "wf_fs (w_fs w')"
    and files: "\<forall>n nd. map_of spec_fs ([''w''] @ [n]) = Some nd \<longrightarrow> \<not> is_dir nd \<longrightarrow>
              (if n \<in> set [''b.txt''] then map_of (w_fs w') ([''w''] @ [n]) = Some nd
               else map_of (w_fs w') ([''w''] @ [dir_name (classify n), n]) = Some nd \<and>
                    map_of (w_fs w') ([''w''] @ [n]) = None)"
    and dirs: "\<forall>c. is_dir_at (w_fs w') ([''w''] @ [dir_name c])"
    using sort_move_end_to_end [where dir = "''/w''" and w = "\<lparr>w_fs = spec_fs, w_out = []\<rparr>" and cwd = "''/''"
        and k = "[''w'']" and excl = "[''b.txt'']" and h = "''/home''" and parses = "\<lambda>_. True"] wf k kdir t s
    by auto
  have "map_of (w_fs w') [''w'', ''images'', ''a.png''] = Some (Reg ''png data'') \<and> map_of (w_fs w') [''w'', ''a.png''] = None"
    using files [rule_format, of "''a.png''" "Reg ''png data''"]
    by (simp add: spec_fs_def classify_def ext_suffix_def extension_rules_def dir_consts)
  moreover have "map_of (w_fs w') [''w'', ''other'', ''c.unknown''] = Some (Reg ''bytes'')"
    using files [rule_format, of "''c.unknown''" "Reg ''bytes''"]
    by (simp add: spec_fs_def classify_def ext_suffix_def extension_rules_def dir_consts)
  moreover have "map_of (w_fs w') [''w'', ''b.txt''] = Some (Reg ''text'')"
    using files [rule_format, of "''b.txt''" "Reg ''text''"] by (simp add: spec_fs_def)
  moreover have "is_dir_at (w_fs w') [''w'', ''pdf'']" using dirs [rule_format, of Pdf] by (simp add: dir_consts)
  ultimately show ?thesis using wf k kdir t s e by auto
qed

text \<open>
  C3: End to end, dry run. \<open>declutter sort --dry-run --exclude e1 ... DIR\<close> on a readable
  working directory completes, leaves the file system exactly as it was, and prints
  "Dry run mode" and an empty line followed by the report (after at most the line of the
  configuration file).
\<close>

theorem sort_dry_run_end_to_end:
  assumes dir: "length dir \<le> 1 \<or> hd dir \<noteq> CHR ''-''"
    and wf: "wf_fs (w_fs w)" and kdir: "map_of (w_fs w) (components (file_path_abs cwd dir)) = Some (Dir True wr)"
  shows "\<exists>w'. execute viper_new cwd (Inr h) parses (sort_command_line True excl dir) w = Completed w' \<and>
           w_fs w' = w_fs w \<and> (\<exists>pre out. w_out w' = w_out w @ pre @ [''Dry run mode'', ''''] @ out)"
proof -
  obtain flags w1 where w1: "w_fs w1 = w_fs w" "\<exists>out. w_out w1 = w_out w @ out"
    and fl: "get_bool flags ''dry-run'' = Inr True" "get_string_array flags ''exclude'' = Inr excl"
    and ex: "execute viper_new cwd (Inr h) parses (sort_command_line True excl dir) w =
             (case sort_run cwd flags [dir] w1 of Inl (p, w2) \<Rightarrow> Panicked p w2 | Inr w2 \<Rightarrow> Completed w2)"
    using execute_sort_home [OF dir, where dry = True and excl = excl and cwd = cwd and h = h
        and parses = parses and w = w] by blast
  have "sort_run cwd flags [dir] w1 = dry_run (sorted_handler (w_fs w1) cwd dir excl) w1"
    using sort_run_plan [where w = w1 and cwd = cwd and dir = dir and wr = wr and flags = flags
        and b = True and excl = excl] wf kdir w1 fl by simp
  moreover obtain out where "dry_run (sorted_handler (w_fs w1) cwd dir excl) w1 =
      Inr (w1\<lparr>w_out := w_out w1 @ [''Dry run mode'', ''''] @ out\<rparr>)"
    using dry_run_out by blast
  ultimately show ?thesis using ex w1 by (auto, blast)
qed

theorem sort_dry_run_end_to_end_witness:
  "wf_fs spec_fs \<and>
   map_of spec_fs (components (file_path_abs ''/'' ''/w'')) = Some (Dir True True) \<and>
   (\<exists>w'. execute viper_new ''/'' (Inr ''/home'') (\<lambda>_. True) (sort_command_line True [''b.txt''] ''/w'')
            \<lparr>w_fs = spec_fs, w_out = []\<rparr> = Completed w' \<and> w_fs w' = spec_fs)"
proof -
  have wf: "wf_fs spec_fs" by (simp add: spec_fs_def fs_eval)
  have k: "map_of spec_fs (components (file_path_abs ''/'' ''/w'')) = Some (Dir True True)"
    by (simp add: spec_fs_def file_path_abs_def clean_rooted_def fs_eval)
  show ?thesis
    using sort_dry_run_end_to_end [where dir = "''/w''" and w = "\<lparr>w_fs = spec_fs, w_out = []\<rparr>" and cwd = "''/''"
        and wr = True and excl = "[''b.txt'']" and h = "''/home''" and parses = "\<lambda>_. True"] wf k
    by auto
qed

text \<open>
  C15: The dry-run scenario of spec section 8 (\<open>a.png\<close>, \<open>b.txt\<close>, \<open>c.unknown\<close> in \<open>/w\<close>,
  \<open>b.txt\<close> excluded, no configuration file): the report has two rows, \<open>a.png\<close> to
  \<open>/w/images\<close> and \<open>c.unknown\<close> to \<open>/w/other\<close>, and lists \<open>b.txt\<close> under the excluded
  files; the file system is unchanged. The lines are those given to the tab writer.
\<close>

theorem spec_dry_run_scenario:
  "execute viper_new ''/'' (Inr ''/home'') (\<lambda>_. True) (sort_command_line True [''b.txt''] ''/w'')
     \<lparr>w_fs = spec_fs, w_out = []\<rparr> =
   Completed \<lparr>w_fs = spec_fs, w_out =
     [''Dry run mode'', '''',
      '' File Name '' @ [CHR 0x09] @ '' New Directory '' @ [CHR 0x09],
      ''-----------'' @ [CHR 0x09] @ ''---------------'' @ [CHR 0x09],
      ''a.png '' @ replicate 62 CHR ''-'' @ ''--> '' @ [CHR 0x09] @ ''/w/images'' @ [CHR 0x09],
      ''c.unknown '' @ replicate 58 CHR ''-'' @ ''--> '' @ [CHR 0x09] @ ''/w/other'' @ [CHR 0x09],
      '''', CHR 0x1B # ''[1mExcluded Files'' @ CHR 0x1B # ''[0m'' @ [CHR 0x09, CHR 0x09], '''',
      '' File Name'', ''-----------'', ''b.txt'']\<rparr>"
proof -
  let ?w = "\<lparr>w_fs = spec_fs, w_out = []\<rparr>"
  obtain flags where f: "get_bool flags ''dry-run'' = Inr True" "get_string_array flags ''exclude'' = Inr [''b.txt'']"
    and e: "execute viper_new ''/'' (Inr ''/home'') (\<lambda>_. True) (sort_command_line True [''b.txt''] ''/w'') ?w =
             (case init_config [] (Inr ''/home'') (\<lambda>_. True) viper_new ?w of
                Inl (err, w1) \<Rightarrow> Exited err w1
              | Inr (_, w1) \<Rightarrow>
                  (case sort_run ''/'' flags [''/w''] w1 of Inl (p, w2) \<Rightarrow> Panicked p w2 | Inr w2 \<Rightarrow> Completed w2))"
    using execute_sort_command_line [where dir = "''/w''" and dry = True and excl = "[''b.txt'']" and cwd = "''/''"
        and home = "Inr ''/home''" and parses = "\<lambda>_. True" and w = ?w] by auto
  have i: "\<exists>v. init_config [] (Inr ''/home'') (\<lambda>_. True) viper_new ?w = Inr (v, ?w)"
    by (simp add: init_config_def read_in_config_def find_config_file_def config_exists_def supported_exts_def
        viper_new_def spec_fs_def fs_eval)
  have wf: "wf_fs spec_fs" by (simp add: spec_fs_def fs_eval)
  have k: "map_of spec_fs (components (file_path_abs ''/'' ''/w'')) = Some (Dir True True)"
    by (simp add: spec_fs_def file_path_abs_def clean_rooted_def fs_eval)
  have r: "sort_run ''/'' flags [''/w''] ?w = dry_run (sorted_handler spec_fs ''/'' ''/w'' [''b.txt'']) ?w"
    using sort_run_plan [where w = ?w and cwd = "''/''" and dir = "''/w''" and wr = True and flags = flags
        and b = True and excl = "[''b.txt'']"] wf k f by simp
  have d: "dry_run (sorted_handler spec_fs ''/'' ''/w'' [''b.txt'']) ?w =
     Inr \<lparr>w_fs = spec_fs, w_out =
     [''Dry run mode'', '''',
      '' File Name '' @ [CHR 0x09] @ '' New Directory '' @ [CHR 0x09],
      ''-----------'' @ [CHR 0x09] @ ''---------------'' @ [CHR 0x09],
      ''a.png '' @ replicate 62 CHR ''-'' @ ''--> '' @ [CHR 0x09] @ ''/w/images'' @ [CHR 0x09],
      ''c.unknown '' @ replicate 58 CHR ''-'' @ ''--> '' @ [CHR 0x09] @ ''/w/other'' @ [CHR 0x09],
      '''', CHR 0x1B # ''[1mExcluded Files'' @ CHR 0x1B # ''[0m'' @ [CHR 0x09, CHR 0x09], '''',
      '' File Name'', ''-----------'', ''b.txt'']\<rparr>"
    by (simp add: dry_run_def dry_run_plan_eq spec_plan sorted_handler_scalars dry_run_rows_eq dry_run_excluded_rows_eq
        println_def)
  from i obtain v where "init_config [] (Inr ''/home'') (\<lambda>_. True) viper_new ?w = Inr (v, ?w)" ..
  with e r d show ?thesis by simp
qed

theorem dry_run_plan_exclusion_witness:
  "dry_run_plan (sorted_handler spec_fs ''/'' ''/w'' [''b.txt'']) =
     ([\<lparr>file_name = ''a.png'', new_dir = ''/w/images''\<rparr>, \<lparr>file_name = ''c.unknown'', new_dir = ''/w/other''\<rparr>],
      [''b.txt'']) \<and>
   ''a.png'' \<notin> set [''b.txt''] \<and> ''c.unknown'' \<notin> set [''b.txt''] \<and>
   mset [''a.png'', ''c.unknown'', ''b.txt''] = mset [''a.png'', ''b.txt'', ''c.unknown'']"
  using DryRun.dry_run_plan_exclusion [of "sorted_handler spec_fs ''/'' ''/w'' [''b.txt'']"]
  by (simp add: dry_run_plan_eq spec_plan sorted_handler_scalars)

end
